(* ===== verification/Prelude.thy ===== *)
theory Prelude
  imports Main
begin

text \<open>
  Shared vocabulary of the development: Go's 64-bit integers, times and durations,
  results that carry an error, and the lemma collections the component theories extend.

  A Go \<open>int\<close> or \<open>int64\<close> is an \<open>int\<close> whose arithmetic is followed by \<open>wrap64\<close>
  wherever the source computes with it, so that overflow is part of the model.  A
  \<open>time.Time\<close> is the number of nanoseconds since the zero time of Go
  (0001-01-01T00:00:00Z); the location of a time never influences a comparison, so
  \<open>UTC()\<close> is the identity.  A \<open>time.Duration\<close> is a 64-bit number of nanoseconds.
\<close>

named_theorems op_defs \<open>definitions of the operations of the program\<close>
named_theorems inv_defs \<open>definitions of the well-formedness predicates\<close>

section \<open>64-bit integers\<close>

type_synonym i64 = int

definition in_i64 :: "int \<Rightarrow> bool" where
  "in_i64 x \<longleftrightarrow> - 9223372036854775808 \<le> x \<and> x \<le> 9223372036854775807"

definition wrap64 :: "int \<Rightarrow> i64" where
  "wrap64 x = (x + 9223372036854775808) mod 18446744073709551616 - 9223372036854775808"

lemma wrap64_id [simp]: "in_i64 x \<Longrightarrow> wrap64 x = x"
  by (simp add: wrap64_def in_i64_def)

lemma in_i64_wrap64 [simp]: "in_i64 (wrap64 x)"
proof -
  have "0 \<le> (x + 9223372036854775808) mod 18446744073709551616"
    and "(x + 9223372036854775808) mod 18446744073709551616 < 18446744073709551616"
    by simp_all
  then show ?thesis
    unfolding in_i64_def wrap64_def by linarith
qed

lemma in_i64_between: "in_i64 a \<Longrightarrow> in_i64 b \<Longrightarrow> a \<le> x \<Longrightarrow> x \<le> b \<Longrightarrow> in_i64 x"
  by (simp add: in_i64_def)

lemma in_i64_nonneg_le: "0 \<le> x \<Longrightarrow> x \<le> b \<Longrightarrow> in_i64 b \<Longrightarrow> in_i64 x"
  by (simp add: in_i64_def)

text \<open>\<open>Version++\<close> and \<open>Attempts++\<close>: the successor never equals the old value, even when it wraps.\<close>

definition incr64 :: "i64 \<Rightarrow> i64" where
  "incr64 v = wrap64 (v + 1)"

lemma incr64_neq [simp]: "incr64 v \<noteq> v" "v \<noteq> incr64 v"
proof -
  have "incr64 v \<noteq> v"
  proof
    assume "incr64 v = v"
    then have "(v + 1 + 9223372036854775808) mod 18446744073709551616 = v + 9223372036854775808"
      by (simp add: incr64_def wrap64_def)
    then have "(v + 1 + 9223372036854775808) mod 18446744073709551616
        = (v + 9223372036854775808) mod 18446744073709551616"
      by (metis mod_mod_trivial)
    then have "(18446744073709551616::int) dvd 1"
      by (simp add: mod_eq_dvd_iff)
    then show False by simp
  qed
  then show "incr64 v \<noteq> v" and "v \<noteq> incr64 v" by auto
qed

lemma incr64_small: "in_i64 v \<Longrightarrow> v < 9223372036854775807 \<Longrightarrow> incr64 v = v + 1"
  by (simp add: incr64_def in_i64_def)

lemma in_i64_incr64 [simp]: "in_i64 (incr64 v)"
  by (simp add: incr64_def)

text \<open>Go's integer division truncates toward zero; a zero divisor is a panic of the caller.\<close>

definition go_div :: "int \<Rightarrow> int \<Rightarrow> int" where
  "go_div a b = sgn a * sgn b * (\<bar>a\<bar> div \<bar>b\<bar>)"

lemma go_div_nonneg: "0 \<le> a \<Longrightarrow> 0 < b \<Longrightarrow> go_div a b = a div b"
  by (cases "a = 0") (auto simp: go_div_def sgn_if)

section \<open>Times and durations\<close>

type_synonym time = int
type_synonym duration = int

abbreviation (input) second :: duration where "second \<equiv> 1000000000"
abbreviation (input) millisecond :: duration where "millisecond \<equiv> 1000000"
abbreviation (input) minute :: duration where "minute \<equiv> 60000000000"
abbreviation (input) hour :: duration where "hour \<equiv> 3600000000000"

definition time_add :: "time \<Rightarrow> duration \<Rightarrow> time" where
  "time_add t d = t + d"

text \<open>\<open>Time.Sub\<close> saturates at the largest and smallest duration.\<close>

definition time_sub :: "time \<Rightarrow> time \<Rightarrow> duration" where
  "time_sub t u = max (- 9223372036854775808) (min 9223372036854775807 (t - u))"

lemma time_sub_exact: "in_i64 (t - u) \<Longrightarrow> time_sub t u = t - u"
  by (simp add: time_sub_def in_i64_def)

lemma time_sub_le_iff: "in_i64 d \<Longrightarrow> d < 9223372036854775807 \<Longrightarrow> time_sub t u \<le> d \<longleftrightarrow> t - u \<le> d"
  by (auto simp: time_sub_def in_i64_def)

lemma time_sub_ge_iff: "in_i64 d \<Longrightarrow> - 9223372036854775808 < d \<Longrightarrow> d \<le> time_sub t u \<longleftrightarrow> d \<le> t - u"
  by (auto simp: time_sub_def in_i64_def)

section \<open>Results\<close>

text \<open>
  A Go function returning \<open>(T, error)\<close> returns a value of \<open>'e + 'a\<close>: \<open>Inl\<close> for a non-nil
  error, \<open>Inr\<close> for a result.  \<open>and_then m f\<close> is the source's
  \<open>x, err := m; if err != nil { return err }; f(x)\<close>.
\<close>

definition and_then :: "'e + 'a \<Rightarrow> ('a \<Rightarrow> 'e + 'b) \<Rightarrow> 'e + 'b" where
  "and_then m f = (case m of Inl e \<Rightarrow> Inl e | Inr x \<Rightarrow> f x)"

lemma and_then_simps [simp]:
  "and_then (Inl e) f = Inl e"
  "and_then (Inr x) f = f x"
  by (simp_all add: and_then_def)

lemma and_then_Inr [simp]: "and_then m f = Inr y \<longleftrightarrow> (\<exists>x. m = Inr x \<and> f x = Inr y)"
  by (cases m) auto

lemma and_then_Inl: "and_then m f = Inl e \<longleftrightarrow> m = Inl e \<or> (\<exists>x. m = Inr x \<and> f x = Inl e)"
  by (cases m) auto

lemma and_then_cong [fundef_cong]:
  "m = n \<Longrightarrow> (\<And>x. n = Inr x \<Longrightarrow> f x = g x) \<Longrightarrow> and_then m f = and_then n g"
  by (cases n) auto

text \<open>A loop over a list that returns at the first error and collects the results otherwise.\<close>

fun traverse :: "('a \<Rightarrow> 'e + 'b) \<Rightarrow> 'a list \<Rightarrow> 'e + 'b list" where
  "traverse f [] = Inr []"
| "traverse f (x # xs) = and_then (f x) (\<lambda>y. and_then (traverse f xs) (\<lambda>ys. Inr (y # ys)))"

lemma traverse_Inr: "traverse f xs = Inr ys \<longleftrightarrow> list_all2 (\<lambda>x y. f x = Inr y) xs ys"
  by (induction xs arbitrary: ys) (auto simp: list_all2_Cons1)

lemma traverse_length: "traverse f xs = Inr ys \<Longrightarrow> length ys = length xs"
  by (auto simp: traverse_Inr dest: list_all2_lengthD)

text \<open>A loop that carries a state and stops at the first error.\<close>

fun fold_res :: "('a \<Rightarrow> 's \<Rightarrow> 'e + 's) \<Rightarrow> 'a list \<Rightarrow> 's \<Rightarrow> 'e + 's" where
  "fold_res f [] s = Inr s"
| "fold_res f (x # xs) s = and_then (f x s) (fold_res f xs)"

lemma fold_res_inv:
  assumes "fold_res f xs s = Inr t" "I s" "\<And>x s t. x \<in> set xs \<Longrightarrow> f x s = Inr t \<Longrightarrow> I s \<Longrightarrow> I t"
  shows "I t"
  using assms
proof (induction xs arbitrary: s)
  case (Cons x xs)
  from Cons.prems(1) obtain u where u: "f x s = Inr u" "fold_res f xs u = Inr t" by auto
  have "I u" by (rule Cons.prems(3) [OF _ u(1) Cons.prems(2)]) simp
  then show ?case by (rule Cons.IH [OF u(2)]) (use Cons.prems(3) in auto)
qed simp

section \<open>Lists with a key\<close>

text \<open>
  A table row is found by its primary key: \<open>find_key key k xs\<close> is the first row whose key
  is \<open>k\<close>; \<open>update_where\<close> is the row-wise effect of an \<open>UPDATE ... WHERE\<close>.
\<close>

definition find_key :: "('a \<Rightarrow> 'k) \<Rightarrow> 'k \<Rightarrow> 'a list \<Rightarrow> 'a option" where
  "find_key key k xs = find (\<lambda>x. key x = k) xs"

definition update_where :: "('a \<Rightarrow> bool) \<Rightarrow> ('a \<Rightarrow> 'a) \<Rightarrow> 'a list \<Rightarrow> 'a list" where
  "update_where P f xs = map (\<lambda>x. if P x then f x else x) xs"

definition count_where :: "('a \<Rightarrow> bool) \<Rightarrow> 'a list \<Rightarrow> nat" where
  "count_where P xs = length (filter P xs)"

lemma find_key_simps [simp]:
  "find_key key k [] = None"
  "find_key key k (x # xs) = (if key x = k then Some x else find_key key k xs)"
  by (simp_all add: find_key_def)

lemma find_key_SomeD: "find_key key k xs = Some x \<Longrightarrow> x \<in> set xs \<and> key x = k"
  by (induction xs) (auto split: if_splits)

lemma find_key_None_iff: "find_key key k xs = None \<longleftrightarrow> k \<notin> key ` set xs"
  by (induction xs) auto

lemma find_key_in_set: "distinct (map key xs) \<Longrightarrow> x \<in> set xs \<Longrightarrow> find_key key (key x) xs = Some x"
  by (induction xs) (auto simp: image_iff)

lemma find_key_append: "find_key key k (xs @ ys) =
    (case find_key key k xs of None \<Rightarrow> find_key key k ys | Some x \<Rightarrow> Some x)"
  by (induction xs) auto

lemma update_where_simps [simp]:
  "update_where P f [] = []"
  "update_where P f (x # xs) = (if P x then f x else x) # update_where P f xs"
  by (simp_all add: update_where_def)

lemma length_update_where [simp]: "length (update_where P f xs) = length xs"
  by (simp add: update_where_def)

lemma set_update_where: "set (update_where P f xs) = (\<lambda>x. if P x then f x else x) ` set xs"
  by (simp add: update_where_def)

lemma map_update_where: "(\<And>x. P x \<Longrightarrow> g (f x) = g x) \<Longrightarrow> map g (update_where P f xs) = map g xs"
  by (induction xs) auto

lemma count_where_simps [simp]:
  "count_where P [] = 0"
  "count_where P (x # xs) = (if P x then Suc (count_where P xs) else count_where P xs)"
  by (simp_all add: count_where_def)

lemma count_where_0 [simp]: "count_where P xs = 0 \<longleftrightarrow> (\<forall>x \<in> set xs. \<not> P x)"
  by (induction xs) auto

lemma count_where_distinct: "distinct (map f xs) \<Longrightarrow> count_where (\<lambda>x. f x = k) xs \<le> 1"
proof (induction xs)
  case (Cons x xs)
  show ?case
  proof (cases "f x = k")
    case True
    then have "\<forall>y \<in> set xs. f y \<noteq> k" using Cons.prems by (auto simp: image_iff)
    then have "count_where (\<lambda>x. f x = k) xs = 0" by auto
    then show ?thesis using True by simp
  next
    case False
    with Cons show ?thesis by simp
  qed
qed simp

lemma count_where_key:
  assumes "distinct (map key xs)" "find_key key k xs = Some x"
  shows "count_where (\<lambda>y. key y = k \<and> Q y) xs = (if Q x then 1 else 0)"
  using assms
proof (induction xs)
  case (Cons y ys)
  show ?case
  proof (cases "key y = k")
    case True
    with Cons.prems have "\<forall>z \<in> set ys. key z \<noteq> k" by (auto simp: image_iff)
    then have "count_where (\<lambda>y. key y = k \<and> Q y) ys = 0" by auto
    with True Cons.prems show ?thesis by auto
  next
    case False
    with Cons show ?thesis by auto
  qed
qed simp

lemma find_key_update_where:
  assumes "\<And>x. P x \<Longrightarrow> key (f x) = key x"
  shows "find_key key k (update_where P f xs) =
    map_option (\<lambda>x. if P x then f x else x) (find_key key k xs)"
  using assms by (induction xs) auto

end
