(* ===== verification/GoText.thy ===== *)
theory GoText
  imports Prelude
begin

text \<open>
  The parts of Go's \<open>strings\<close>, \<open>unicode/utf8\<close>, \<open>fmt\<close> and \<open>regexp\<close> packages the program
  relies on.  A Go string is its bytes: a \<open>string\<close> is a list of \<open>char\<close>, and a \<open>char\<close> is a
  byte.  \<open>trim_space\<close> removes the UTF-8 encodings of Go's white-space characters,
  \<open>rune_count\<close> counts runes the way \<open>utf8.RuneCountInString\<close> does (an invalid byte is one
  rune), and the case mappings are exact on every character that a case mapping sends into
  ASCII, which is all their callers compare.
\<close>

section \<open>strings.TrimSpace\<close>

text \<open>The UTF-8 encodings of the characters \<open>unicode.IsSpace\<close> accepts.\<close>

definition space_words :: "string list" where
  "space_words =
    [[CHR 0x09], [CHR 0x0A], [CHR 0x0B], [CHR 0x0C], [CHR 0x0D], [CHR 0x20],
     [CHR 0xC2, CHR 0x85], [CHR 0xC2, CHR 0xA0], [CHR 0xE1, CHR 0x9A, CHR 0x80],
     [CHR 0xE2, CHR 0x80, CHR 0x80], [CHR 0xE2, CHR 0x80, CHR 0x81], [CHR 0xE2, CHR 0x80, CHR 0x82],
     [CHR 0xE2, CHR 0x80, CHR 0x83], [CHR 0xE2, CHR 0x80, CHR 0x84], [CHR 0xE2, CHR 0x80, CHR 0x85],
     [CHR 0xE2, CHR 0x80, CHR 0x86], [CHR 0xE2, CHR 0x80, CHR 0x87], [CHR 0xE2, CHR 0x80, CHR 0x88],
     [CHR 0xE2, CHR 0x80, CHR 0x89], [CHR 0xE2, CHR 0x80, CHR 0x8A], [CHR 0xE2, CHR 0x80, CHR 0xA8],
     [CHR 0xE2, CHR 0x80, CHR 0xA9], [CHR 0xE2, CHR 0x80, CHR 0xAF], [CHR 0xE2, CHR 0x81, CHR 0x9F],
     [CHR 0xE3, CHR 0x80, CHR 0x80]]"

definition starts_with :: "string \<Rightarrow> string \<Rightarrow> bool" where
  "starts_with w s \<longleftrightarrow> take (length w) s = w"

definition word_at :: "string list \<Rightarrow> string \<Rightarrow> string option" where
  "word_at ws s = find (\<lambda>w. w \<noteq> [] \<and> starts_with w s) ws"

lemma word_at_SomeD: "word_at ws s = Some w \<Longrightarrow> w \<in> set ws \<and> w \<noteq> [] \<and> starts_with w s"
  by (auto simp: word_at_def find_Some_iff)

lemma word_at_Nil [simp]: "word_at ws [] = None"
  by (auto simp: word_at_def find_None_iff starts_with_def)

function trim_words :: "string list \<Rightarrow> string \<Rightarrow> string" where
  "trim_words ws s = (case word_at ws s of None \<Rightarrow> s | Some w \<Rightarrow> trim_words ws (drop (length w) s))"
  by pat_completeness auto
termination
proof (relation "measure (\<lambda>(ws, s). length s)")
  fix ws :: "string list" and s w
  assume "word_at ws s = Some w"
  then have "w \<noteq> []" and "starts_with w s" by (auto dest: word_at_SomeD)
  then have "s \<noteq> []" by (auto simp: starts_with_def)
  with \<open>w \<noteq> []\<close> show "((ws, drop (length w) s), ws, s) \<in> measure (\<lambda>(ws, s). length s)"
    by (cases w) auto
qed simp

declare trim_words.simps [simp del]

definition trim_space :: "string \<Rightarrow> string" where
  "trim_space s = rev (trim_words (map rev space_words) (rev (trim_words space_words s)))"

lemma trim_words_stops [simp]: "word_at ws (trim_words ws s) = None"
proof (induction ws s rule: trim_words.induct)
  case (1 ws s)
  then show ?case
    by (subst trim_words.simps) (auto split: option.split)
qed

lemma trim_words_stop: "word_at ws s = None \<Longrightarrow> trim_words ws s = s"
  by (subst trim_words.simps) simp

lemma trim_words_suffix: "\<exists>p. s = p @ trim_words ws s"
proof (induction ws s rule: trim_words.induct)
  case (1 ws s)
  show ?case
  proof (cases "word_at ws s")
    case None
    then show ?thesis by (simp add: trim_words_stop)
  next
    case (Some w)
    with "1" obtain p where p: "drop (length w) s = p @ trim_words ws (drop (length w) s)" by auto
    from Some have "trim_words ws s = trim_words ws (drop (length w) s)"
      by (simp add: trim_words.simps [of ws s])
    with p have "s = (take (length w) s @ p) @ trim_words ws s"
      by (metis append.assoc append_take_drop_id)
    then show ?thesis by blast
  qed
qed

lemma length_trim_words: "length (trim_words ws s) \<le> length s"
  by (metis trim_words_suffix length_append le_add2)

text \<open>A word that starts a prefix of the text starts the text.\<close>

lemma word_at_prefix: "word_at ws (p @ q) = None \<Longrightarrow> word_at ws p = None"
  by (force simp: word_at_def find_None_iff starts_with_def)

theorem trim_space_idem: "trim_space (trim_space s) = trim_space s"
proof -
  let ?R = "map rev space_words"
  let ?t = "trim_words space_words s"
  obtain p where p: "rev ?t = p @ trim_words ?R (rev ?t)"
    using trim_words_suffix by blast
  then have t: "?t = trim_space s @ rev p"
    by (metis rev_append rev_rev_ident trim_space_def)
  then have "word_at space_words (trim_space s) = None"
    by (metis word_at_prefix trim_words_stops)
  then have "trim_words space_words (trim_space s) = trim_space s"
    by (rule trim_words_stop)
  moreover have "trim_words ?R (rev (trim_space s)) = rev (trim_space s)"
    by (simp add: trim_space_def trim_words_stop)
  ultimately show ?thesis
    by (metis rev_rev_ident trim_space_def)
qed

lemma trim_space_Nil [simp]: "trim_space [] = []"
  by (simp add: trim_space_def trim_words_stop)

lemma length_trim_space: "length (trim_space s) \<le> length s"
  by (metis length_rev length_trim_words le_trans trim_space_def)

definition blank :: "string \<Rightarrow> bool" where
  "blank s \<longleftrightarrow> trim_space s = []"

lemma blank_Nil [simp]: "blank []"
  by (simp add: blank_def)

text \<open>
  Texts that begin and end with a visible ASCII character are their own trimmed form, and a text
  that begins with one is not blank; no white-space word contains such a character.
\<close>

definition visible :: "char \<Rightarrow> bool" where
  "visible c \<longleftrightarrow> 33 \<le> (of_char c :: nat) \<and> (of_char c :: nat) < 127"

lemma space_words_invisible: "w \<in> set space_words \<Longrightarrow> c \<in> set w \<Longrightarrow> \<not> visible c"
  by (auto simp: space_words_def visible_def)

lemma word_at_visible:
  assumes "visible c" "\<And>w. w \<in> set ws \<Longrightarrow> c \<notin> set w"
  shows "word_at ws (c # s) = None"
proof (cases "word_at ws (c # s)")
  case (Some w)
  then have w: "w \<in> set ws" "w \<noteq> []" "starts_with w (c # s)" by (auto dest: word_at_SomeD)
  obtain d w' where "w = d # w'" using w(2) by (cases w) auto
  with w(3) have "c \<in> set w" by (simp add: starts_with_def)
  with assms(2) w(1) show ?thesis by blast
qed simp

lemma rev_words_invisible: "w \<in> set (map rev space_words) \<Longrightarrow> c \<in> set w \<Longrightarrow> \<not> visible c"
  using space_words_invisible by auto

lemma trim_space_visible:
  assumes "s \<noteq> []" "visible (hd s)" "visible (last s)"
  shows "trim_space s = s"
proof -
  have "word_at space_words s = None"
    using assms by (cases s) (auto intro!: word_at_visible dest: space_words_invisible)
  then have "trim_words space_words s = s" by (rule trim_words_stop)
  moreover have "word_at (map rev space_words) (rev s) = None"
    using assms by (cases s rule: rev_cases) (auto intro!: word_at_visible dest: rev_words_invisible)
  then have "trim_words (map rev space_words) (rev s) = rev s" by (rule trim_words_stop)
  ultimately show ?thesis by (simp add: trim_space_def)
qed

lemma trim_words_keeps:
  assumes "\<And>w. w \<in> set ws \<Longrightarrow> c \<notin> set w" "c \<in> set s"
  shows "c \<in> set (trim_words ws s)"
  using assms
proof (induction ws s rule: trim_words.induct)
  case (1 ws s)
  show ?case
  proof (cases "word_at ws s")
    case None
    with 1 show ?thesis by (simp add: trim_words_stop)
  next
    case (Some w)
    then have w: "w \<in> set ws" "take (length w) s = w" by (auto dest: word_at_SomeD simp: starts_with_def)
    have "c \<in> set (take (length w) s) \<union> set (drop (length w) s)"
      using 1(3) by (metis append_take_drop_id set_append)
    with w 1(2) have "c \<in> set (drop (length w) s)" by auto
    with 1 Some show ?thesis by (simp add: trim_words.simps [of ws s])
  qed
qed

lemma not_blank_visible: "c \<in> set s \<Longrightarrow> visible c \<Longrightarrow> \<not> blank s"
proof -
  assume c: "c \<in> set s" "visible c"
  then have "c \<in> set (trim_words space_words s)"
    by (intro trim_words_keeps) (auto dest: space_words_invisible)
  then have "c \<in> set (trim_words (map rev space_words) (rev (trim_words space_words s)))"
    using c(2) by (intro trim_words_keeps) (auto simp: space_words_invisible)
  then show ?thesis by (auto simp: blank_def trim_space_def)
qed

lemma not_blank_Cons [simp]: "visible c \<Longrightarrow> \<not> blank (c # s)"
  by (rule not_blank_visible [of c]) simp_all

section \<open>Runes, case and patterns\<close>

abbreviation byte :: "char \<Rightarrow> nat" where "byte c \<equiv> of_char c"

text \<open>
  \<open>utf8\<close>'s tables: the length of the sequence a first byte announces (1 for ASCII and for an
  invalid first byte) and the range the second byte must lie in.
\<close>

definition seq_len :: "nat \<Rightarrow> nat" where
  "seq_len b = (if 194 \<le> b \<and> b \<le> 223 then 2 else if 224 \<le> b \<and> b \<le> 239 then 3
     else if 240 \<le> b \<and> b \<le> 244 then 4 else 1)"

definition second_ok :: "nat \<Rightarrow> nat \<Rightarrow> bool" where
  "second_ok b c \<longleftrightarrow>
     (if b = 224 then 160 else if b = 240 then 144 else 128) \<le> c \<and>
     c \<le> (if b = 237 then 159 else if b = 244 then 143 else 191)"

definition cont_ok :: "nat \<Rightarrow> bool" where
  "cont_ok c \<longleftrightarrow> 128 \<le> c \<and> c \<le> 191"

fun rune_width :: "string \<Rightarrow> nat" where
  "rune_width [] = 1"
| "rune_width (a # s) =
     (let b = byte a; n = seq_len b in
      if n = 1 \<or> length s + 1 < n then 1
      else if second_ok b (byte (s ! 0)) \<and> (\<forall>c \<in> set (take (n - 2) (drop 1 s)). cont_ok (byte c))
      then n else 1)"

lemma rune_width_pos [simp]: "0 < rune_width s"
  by (cases s) (auto simp: Let_def seq_len_def)

function rune_count :: "string \<Rightarrow> nat" where
  "rune_count s = (if s = [] then 0 else Suc (rune_count (drop (rune_width s) s)))"
  by pat_completeness auto
termination
  by (relation "measure length") auto

declare rune_count.simps [simp del]

lemma rune_count_Nil [simp]: "rune_count [] = 0"
  by (simp add: rune_count.simps)

lemma rune_count_ascii: "(\<And>c. c \<in> set s \<Longrightarrow> byte c < 128) \<Longrightarrow> rune_count s = length s"
proof (induction s)
  case (Cons a s)
  have "rune_width (a # s) = 1"
    using Cons.prems [of a] by (simp add: seq_len_def Let_def)
  with Cons show ?case by (simp add: rune_count.simps [of "a # s"])
qed simp

lemma rune_count_le_length: "rune_count s \<le> length s"
proof (induction s rule: rune_count.induct)
  case (1 s)
  show ?case
  proof (cases "s = []")
    case False
    with 1 have "rune_count (drop (rune_width s) s) \<le> length s - rune_width s" by simp
    moreover have "length s - rune_width s < length s"
      using False rune_width_pos [of s] by (simp add: diff_less)
    ultimately have "Suc (rune_count (drop (rune_width s) s)) \<le> length s" by linarith
    then show ?thesis by (simp add: rune_count.simps [of s] False)
  qed simp
qed

text \<open>
  \<open>strings.ToUpper\<close> and \<open>strings.ToLower\<close>: ASCII letters, and the four other characters whose
  case mapping is an ASCII letter (dotless i and long s upward, I with dot and the Kelvin sign
  downward).  Every other character maps to a character outside ASCII and is left in place,
  which these callers do not distinguish: they match the result against ASCII patterns and constants.
  A text in capitals that is stored is made by \<open>upper_text\<close> below.
\<close>

definition upper_byte :: "char \<Rightarrow> char" where
  "upper_byte c = (if 97 \<le> byte c \<and> byte c \<le> 122 then char_of (byte c - 32) else c)"

definition lower_byte :: "char \<Rightarrow> char" where
  "lower_byte c = (if 65 \<le> byte c \<and> byte c \<le> 90 then char_of (byte c + 32) else c)"

fun to_upper :: "string \<Rightarrow> string" where
  "to_upper (a # b # s) =
     (if a = CHR 0xC4 \<and> b = CHR 0xB1 then CHR ''I'' # to_upper s
      else if a = CHR 0xC5 \<and> b = CHR 0xBF then CHR ''S'' # to_upper s
      else upper_byte a # to_upper (b # s))"
| "to_upper [a] = [upper_byte a]"
| "to_upper [] = []"

fun to_lower :: "string \<Rightarrow> string" where
  "to_lower (a # b # c # s) =
     (if a = CHR 0xC4 \<and> b = CHR 0xB0 then CHR ''i'' # to_lower (c # s)
      else if a = CHR 0xE2 \<and> b = CHR 0x84 \<and> c = CHR 0xAA then CHR ''k'' # to_lower s
      else lower_byte a # to_lower (b # c # s))"
| "to_lower [a, b] =
     (if a = CHR 0xC4 \<and> b = CHR 0xB0 then [CHR ''i''] else [lower_byte a, lower_byte b])"
| "to_lower [a] = [lower_byte a]"
| "to_lower [] = []"

text \<open>
  \<open>strings.ToUpper\<close> on any text: ASCII byte by byte; for other texts the tables of package \<open>unicode\<close>
  are an argument.
\<close>

definition ascii_text :: "string \<Rightarrow> bool" where
  "ascii_text s \<longleftrightarrow> list_all (\<lambda>c. byte c < 128) s"

definition upper_text :: "(string \<Rightarrow> string) \<Rightarrow> string \<Rightarrow> string" where
  "upper_text upper s = (if ascii_text s then map upper_byte s else upper s)"

text \<open>The pattern \<open>^[A-Z][A-Z0-9-]{2,31}$\<close> of site and cluster codes.\<close>

definition upper_letter :: "char \<Rightarrow> bool" where
  "upper_letter c \<longleftrightarrow> 65 \<le> byte c \<and> byte c \<le> 90"

definition code_char :: "char \<Rightarrow> bool" where
  "code_char c \<longleftrightarrow> upper_letter c \<or> (48 \<le> byte c \<and> byte c \<le> 57) \<or> c = CHR ''-''"

fun code_pattern :: "string \<Rightarrow> bool" where
  "code_pattern [] = False"
| "code_pattern (a # s) \<longleftrightarrow> upper_letter a \<and> 2 \<le> length s \<and> length s \<le> 31 \<and> list_all code_char s"

text \<open>\<open>strings.Contains\<close>.\<close>

fun contains :: "string \<Rightarrow> string \<Rightarrow> bool" where
  "contains w [] \<longleftrightarrow> w = []"
| "contains w (c # s) \<longleftrightarrow> starts_with w (c # s) \<or> contains w s"

section \<open>Decimal and hexadecimal texts\<close>

definition digit :: "nat \<Rightarrow> char" where
  "digit n = char_of (48 + n)"

fun nat_text :: "nat \<Rightarrow> string" where
  "nat_text n = (if n < 10 then [digit n] else nat_text (n div 10) @ [digit (n mod 10)])"

declare nat_text.simps [simp del]

text \<open>\<open>fmt.Sprint\<close> of an integer.\<close>

definition int_text :: "int \<Rightarrow> string" where
  "int_text i = (if i < 0 then CHR ''-'' # nat_text (nat (- i)) else nat_text (nat i))"

text \<open>\<open>hex.EncodeToString\<close> and \<open>hex.DecodeString\<close> (which also accepts capital digits).\<close>

definition hex_digit :: "nat \<Rightarrow> char" where
  "hex_digit n = char_of (if n < 10 then 48 + n else 87 + n)"

definition hex_value :: "char \<Rightarrow> nat option" where
  "hex_value c = (let b = byte c in
     if 48 \<le> b \<and> b \<le> 57 then Some (b - 48)
     else if 97 \<le> b \<and> b \<le> 102 then Some (b - 87)
     else if 65 \<le> b \<and> b \<le> 70 then Some (b - 55) else None)"

fun hex_encode :: "string \<Rightarrow> string" where
  "hex_encode [] = []"
| "hex_encode (c # s) = hex_digit (byte c div 16) # hex_digit (byte c mod 16) # hex_encode s"

text \<open>
  The verb \<open>%q\<close>, \<open>strconv.Quote\<close>: quotes around the text, with escapes for quotes, backslashes and
  control characters; bytes from 128 on are kept, as Go does for printable runes.
\<close>

definition quote_char :: "char \<Rightarrow> string" where
  "quote_char c =
     (let n = byte c; backslash = CHR 0x5C in
      if n = 34 \<or> n = 92 then [backslash, c]
      else if n = 7 then backslash # ''a'' else if n = 8 then backslash # ''b''
      else if n = 9 then backslash # ''t'' else if n = 10 then backslash # ''n''
      else if n = 11 then backslash # ''v'' else if n = 12 then backslash # ''f''
      else if n = 13 then backslash # ''r''
      else if n < 32 \<or> n = 127 then backslash # ''x'' @ hex_encode [c]
      else [c])"

definition go_quote :: "string \<Rightarrow> string" where
  "go_quote s = CHR 0x22 # concat (map quote_char s) @ [CHR 0x22]"

fun hex_decode :: "string \<Rightarrow> string option" where
  "hex_decode [] = Some []"
| "hex_decode [a] = None"
| "hex_decode (a # b # s) =
     (case (hex_value a, hex_value b, hex_decode s) of
        (Some h, Some l, Some r) \<Rightarrow> Some (char_of (16 * h + l) # r)
      | _ \<Rightarrow> None)"

lemma hex_value_digit [simp]: "n < 16 \<Longrightarrow> hex_value (hex_digit n) = Some n"
  by (auto simp: hex_value_def hex_digit_def Let_def)

lemma byte_less: "byte c < 256"
  by (metis char_of_char mod_less_divisor of_char_of zero_less_numeral)

lemma hex_decode_encode [simp]: "hex_decode (hex_encode s) = Some s"
proof (induction s)
  case (Cons c s)
  have "byte c div 16 < 16" using byte_less [of c] by linarith
  moreover have "byte c mod 16 < 16" by simp
  moreover have "16 * (byte c div 16) + byte c mod 16 = byte c" by simp
  ultimately show ?case using Cons by simp
qed simp

lemma length_hex_encode [simp]: "length (hex_encode s) = 2 * length s"
  by (induction s) auto

end
