(* ===== verification/Fault.thy ===== *)
theory Fault
  imports GoText
begin

text \<open>
  \<open>internal/fault\<close>: the classified errors every layer returns.  \<open>go_error\<close> is the type of Go's
  \<open>error\<close> values that occur in the program: a \<open>*fault.Error\<close>, a plain error made by
  \<open>errors.New\<close> or \<open>fmt.Errorf\<close>, a plain error that wraps another one with \<open>%w\<close>, an error of
  the database driver (its text), and a panic, which no caller handles as a value.
\<close>

datatype kind = Invalid | Unauthenticated | Forbidden | NotFound | Conflict | Unavailable | Internal

type_synonym fields = "(string \<times> string) list"

datatype go_error =
    Fault kind string string string "go_error option" fields
  | Plain string
  | Wrapping string go_error
  | Driver string
  | Panic string

type_synonym 'a res = "go_error + 'a"

section \<open>Constructors\<close>

definition new_fault :: "kind \<Rightarrow> string \<Rightarrow> string \<Rightarrow> go_error" where
  "new_fault k code message = Fault k code message '''' None []"

definition wrap_fault :: "kind \<Rightarrow> string \<Rightarrow> string \<Rightarrow> string \<Rightarrow> go_error \<Rightarrow> go_error" where
  "wrap_fault k code message operation cause = Fault k code message operation (Some cause) []"

fun with_fields :: "go_error \<Rightarrow> fields \<Rightarrow> go_error" where
  "with_fields (Fault k c m op cause _) fs = Fault k c m op cause fs"
| "with_fields e fs = e"

definition err_not_found :: go_error where
  "err_not_found = new_fault NotFound ''not_found'' ''requested resource was not found''"

definition err_version_conflict :: go_error where
  "err_version_conflict = new_fault Conflict ''version_conflict'' ''resource changed concurrently''"

definition err_unauthorized :: go_error where
  "err_unauthorized =
     new_fault Unauthenticated ''authentication_required'' ''valid authentication is required''"

definition err_permission :: go_error where
  "err_permission =
     new_fault Forbidden ''permission_denied'' ''role is not allowed to perform this action''"

text \<open>\<open>if err != nil { return other(err) }\<close>.\<close>

definition map_error :: "(go_error \<Rightarrow> go_error) \<Rightarrow> 'a res \<Rightarrow> 'a res" where
  "map_error f r = (case r of Inl e \<Rightarrow> Inl (f e) | Inr x \<Rightarrow> Inr x)"

lemma map_error_Inr [simp]: "map_error f r = Inr x \<longleftrightarrow> r = Inr x"
  by (cases r) (auto simp: map_error_def)

section \<open>Observers\<close>

text \<open>\<open>(*Error).Error\<close> and the texts of the other errors.\<close>

fun error_text :: "go_error \<Rightarrow> string" where
  "error_text (Fault k c m op cause fs) =
     (if op \<noteq> '''' then op @ '': '' @ c @ '': '' @ m else c @ '': '' @ m)"
| "error_text (Plain m) = m"
| "error_text (Wrapping m e) = m"
| "error_text (Driver m) = m"
| "error_text (Panic m) = m"

text \<open>\<open>errors.Is(err, target)\<close> follows the \<open>Unwrap\<close> chain.\<close>

fun chain :: "go_error \<Rightarrow> go_error list" where
  "chain (Fault k c m op (Some e) fs) = Fault k c m op (Some e) fs # chain e"
| "chain (Wrapping m e) = Wrapping m e # chain e"
| "chain e = [e]"

definition error_is :: "go_error \<Rightarrow> go_error \<Rightarrow> bool" where
  "error_is e target \<longleftrightarrow> target \<in> set (chain e)"

text \<open>\<open>As\<close>: the first \<open>*fault.Error\<close> of the chain.\<close>

fun as_fault :: "go_error \<Rightarrow> go_error option" where
  "as_fault (Fault k c m op cause fs) = Some (Fault k c m op cause fs)"
| "as_fault (Wrapping m e) = as_fault e"
| "as_fault e = None"

fun fault_kind :: "go_error \<Rightarrow> kind option" where
  "fault_kind (Fault k c m op cause fs) = Some k"
| "fault_kind e = None"

definition is_kind :: "go_error \<Rightarrow> kind \<Rightarrow> bool" where
  "is_kind e k \<longleftrightarrow> (case as_fault e of Some t \<Rightarrow> fault_kind t = Some k | None \<Rightarrow> False)"

definition code_of :: "go_error \<Rightarrow> string" where
  "code_of e = (case as_fault e of Some (Fault k c m op cause fs) \<Rightarrow> c | _ \<Rightarrow> ''internal_error'')"

definition public_message :: "go_error \<Rightarrow> string" where
  "public_message e = (case as_fault e of
     Some (Fault k c m op cause fs) \<Rightarrow> if m \<noteq> '''' then m else ''internal service error''
   | _ \<Rightarrow> ''internal service error'')"

definition fields_of :: "go_error \<Rightarrow> fields option" where
  "fields_of e = (case as_fault e of
     Some (Fault k c m op cause fs) \<Rightarrow> if fs = [] then None else Some fs | _ \<Rightarrow> None)"

fun kind_status :: "kind \<Rightarrow> nat" where
  "kind_status Invalid = 400"
| "kind_status Unauthenticated = 401"
| "kind_status Forbidden = 403"
| "kind_status NotFound = 404"
| "kind_status Conflict = 409"
| "kind_status Unavailable = 503"
| "kind_status Internal = 500"

definition http_status :: "go_error \<Rightarrow> nat" where
  "http_status e = (case as_fault e of
     Some (Fault k c m op cause fs) \<Rightarrow> kind_status k | _ \<Rightarrow> 500)"

lemmas fault_defs = new_fault_def wrap_fault_def err_not_found_def err_version_conflict_def
  err_unauthorized_def err_permission_def

lemma code_of_new [simp]:
  "code_of (new_fault k c m) = c"
  "code_of (wrap_fault k c m op e) = c"
  "code_of (with_fields (new_fault k c m) fs) = c"
  by (simp_all add: code_of_def fault_defs)

lemma status_new [simp]:
  "http_status (new_fault k c m) = kind_status k"
  "http_status (wrap_fault k c m op e) = kind_status k"
  "http_status (with_fields (new_fault k c m) fs) = kind_status k"
  by (simp_all add: http_status_def fault_defs)

lemma new_fault_inject [simp]:
  "new_fault k c m = new_fault k' c' m' \<longleftrightarrow> k = k' \<and> c = c' \<and> m = m'"
  by (simp add: new_fault_def)

lemma kind_status_inj: "inj kind_status"
proof (rule injI)
  fix k k'
  assume "kind_status k = kind_status k'"
  then show "k = k'" by (cases k; cases k') simp_all
qed

text \<open>
  The public view of an error is decided by the first classified error of its chain: wrapping
  an error with \<open>fmt.Errorf\<close> changes neither its status nor its code.
\<close>

lemma wrapping_transparent:
  "http_status (Wrapping m e) = http_status e" "code_of (Wrapping m e) = code_of e"
  "public_message (Wrapping m e) = public_message e" "is_kind (Wrapping m e) k = is_kind e k"
  by (simp_all add: http_status_def code_of_def public_message_def is_kind_def)

lemma http_status_range: "http_status e \<in> {400, 401, 403, 404, 409, 500, 503}"
proof -
  have "kind_status k \<in> {400, 401, 403, 404, 409, 500, 503}" for k
    by (cases k) auto
  then show ?thesis
    by (auto simp: http_status_def split: option.split go_error.split)
qed

lemma unclassified_is_internal: "as_fault e = None \<Longrightarrow> http_status e = 500 \<and> code_of e = ''internal_error''"
  by (simp add: http_status_def code_of_def)

end
