(* ===== verification/Config.thy ===== *)
theory Config
  imports GoText Fault
begin

text \<open>
  \<open>internal/config/config.go\<close>: the settings read from the environment.  The environment is a
  function from names to texts (\<open>os.Getenv\<close> gives the empty text for an unset name);
  \<open>time.ParseDuration\<close> is an argument.  \<open>strconv.Atoi\<close> and \<open>ParseInt\<close> are computed: a sign and
  decimal digits, refused when the value leaves 64 bits; the text \<open>strconv\<close> gives for the refusal is
  left out of the message.
\<close>

record config =
  c_address :: string
  c_database_path :: string
  c_session_ttl :: duration
  c_worker_interval :: duration
  c_worker_lease :: duration
  c_worker_batch_size :: i64
  c_max_request_bytes :: i64
  c_shutdown_timeout :: duration
  c_bootstrap_email :: string
  c_bootstrap_password :: string
  c_log_level :: string

type_synonym environ = "string \<Rightarrow> string"

section \<open>Reading one setting\<close>

definition digit_value :: "char \<Rightarrow> int option" where
  "digit_value c = (let n = int (byte c) in if 48 \<le> n \<and> n \<le> 57 then Some (n - 48) else None)"

fun digits_value :: "int \<Rightarrow> string \<Rightarrow> int option" where
  "digits_value acc [] = Some acc"
| "digits_value acc (c # s) =
     (case digit_value c of None \<Rightarrow> None | Some d \<Rightarrow> digits_value (10 * acc + d) s)"

definition unsigned_value :: "string \<Rightarrow> int option" where
  "unsigned_value s = (if s = [] then None else digits_value 0 s)"

definition parse_int64 :: "string \<Rightarrow> i64 option" where
  "parse_int64 s =
     (let v = (case s of
          [] \<Rightarrow> None
        | c # r \<Rightarrow> (if c = CHR ''+'' then unsigned_value r
                    else if c = CHR ''-'' then map_option uminus (unsigned_value r)
                    else unsigned_value s))
      in case v of None \<Rightarrow> None | Some n \<Rightarrow> if in_i64 n then Some n else None)"

definition env_value :: "environ \<Rightarrow> string \<Rightarrow> string \<Rightarrow> string" where
  "env_value getenv name fallback =
     (let value = trim_space (getenv name) in if value \<noteq> '''' then value else fallback)"

definition env_duration :: "environ \<Rightarrow> (string \<Rightarrow> string + duration) \<Rightarrow> string \<Rightarrow> duration \<Rightarrow> duration res" where
  "env_duration getenv parse name fallback =
     (let raw = trim_space (getenv name) in
      if raw = '''' then Inr fallback
      else case parse raw of
        Inl e \<Rightarrow> Inl (Wrapping (''parse '' @ name @ '': '' @ e) (Plain e))
      | Inr value \<Rightarrow> Inr value)"

text \<open>The error of \<open>strconv.Atoi\<close> and \<open>strconv.ParseInt\<close>, the function that \<open>f\<close> names.\<close>

definition integer_error :: "string \<Rightarrow> string \<Rightarrow> go_error" where
  "integer_error f s =
     (let digits = (case s of [] \<Rightarrow> [] | c # r \<Rightarrow> if c = CHR ''+'' \<or> c = CHR ''-'' then r else s)
      in Plain (''strconv.'' @ f @ '': parsing '' @ go_quote s @ '': '' @
        (if unsigned_value digits = None then ''invalid syntax'' else ''value out of range'')))"

text \<open>\<open>integer\<close> and \<open>bytes\<close> differ in the function that reads the text.\<close>

definition env_number :: "string \<Rightarrow> environ \<Rightarrow> string \<Rightarrow> i64 \<Rightarrow> i64 \<Rightarrow> i64 \<Rightarrow> i64 res" where
  "env_number f getenv name fallback min_value max_value =
     (let raw = trim_space (getenv name) in
      if raw = '''' then Inr fallback
      else case parse_int64 raw of
        None \<Rightarrow> Inl (Wrapping (''parse '' @ name @ '': '' @ error_text (integer_error f raw)) (integer_error f raw))
      | Some value \<Rightarrow>
          if value < min_value \<or> max_value < value then
            Inl (Plain (name @ '' must be between '' @ int_text min_value @ '' and '' @ int_text max_value))
          else Inr value)"

definition env_integer :: "environ \<Rightarrow> string \<Rightarrow> i64 \<Rightarrow> i64 \<Rightarrow> i64 \<Rightarrow> i64 res" where
  "env_integer = env_number ''Atoi''"

definition env_bytes :: "environ \<Rightarrow> string \<Rightarrow> i64 \<Rightarrow> i64 \<Rightarrow> i64 \<Rightarrow> i64 res" where
  "env_bytes = env_number ''ParseInt''"

section \<open>Validation\<close>

definition log_levels :: "string list" where
  "log_levels = [''debug'', ''info'', ''warn'', ''error'']"

definition config_validate :: "config \<Rightarrow> go_error option" where
  "config_validate c =
     (if trim_space (c_address c) = '''' then Some (Plain ''GRIDVAULT_ADDR cannot be empty'')
      else if trim_space (c_database_path c) = '''' then Some (Plain ''GRIDVAULT_DB_PATH cannot be empty'')
      else if c_session_ttl c < 5 * minute \<or> 30 * 24 * hour < c_session_ttl c then
        Some (Plain ''session TTL must be between 5m and 720h'')
      else if c_worker_interval c < 100 * millisecond \<or> minute < c_worker_interval c then
        Some (Plain ''worker interval must be between 100ms and 1m'')
      else if c_worker_lease c \<le> c_worker_interval c then
        Some (Plain ''worker lease must exceed worker interval'')
      else if c_shutdown_timeout c < second \<or> 2 * minute < c_shutdown_timeout c then
        Some (Plain ''shutdown timeout must be between 1s and 2m'')
      else if c_log_level c \<notin> set log_levels then
        Some (Plain (''unsupported log level '' @ go_quote (c_log_level c)))
      else if (c_bootstrap_email c = '''') \<noteq> (c_bootstrap_password c = '''') then
        Some (Plain ''bootstrap email and password must be set together'')
      else if c_bootstrap_password c \<noteq> '''' \<and> length (c_bootstrap_password c) < 12 then
        Some (Plain ''bootstrap password must contain at least 12 characters'')
      else None)"

definition config_load :: "environ \<Rightarrow> (string \<Rightarrow> string + duration) \<Rightarrow> config res" where
  "config_load getenv parse =
     and_then (env_duration getenv parse ''GRIDVAULT_SESSION_TTL'' (12 * hour)) (\<lambda>ttl.
     and_then (env_duration getenv parse ''GRIDVAULT_WORKER_INTERVAL'' (2 * second)) (\<lambda>interval.
     and_then (env_duration getenv parse ''GRIDVAULT_WORKER_LEASE'' (20 * second)) (\<lambda>lease.
     and_then (env_duration getenv parse ''GRIDVAULT_SHUTDOWN_TIMEOUT'' (15 * second)) (\<lambda>shutdown.
     and_then (env_integer getenv ''GRIDVAULT_WORKER_BATCH'' 8 1 100) (\<lambda>batch.
     and_then (env_bytes getenv ''GRIDVAULT_MAX_REQUEST_BYTES'' 1048576 1024 16777216) (\<lambda>size.
       let cfg = \<lparr>c_address = env_value getenv ''GRIDVAULT_ADDR'' '':8080'',
                  c_database_path = env_value getenv ''GRIDVAULT_DB_PATH'' ''data/gridvault.db'',
                  c_session_ttl = ttl, c_worker_interval = interval, c_worker_lease = lease,
                  c_worker_batch_size = batch, c_max_request_bytes = size, c_shutdown_timeout = shutdown,
                  c_bootstrap_email = trim_space (getenv ''GRIDVAULT_BOOTSTRAP_EMAIL''),
                  c_bootstrap_password = getenv ''GRIDVAULT_BOOTSTRAP_PASSWORD'',
                  c_log_level = to_lower (env_value getenv ''GRIDVAULT_LOG_LEVEL'' ''info'')\<rparr>
       in case config_validate cfg of Some e \<Rightarrow> Inl e | None \<Rightarrow> Inr cfg))))))"

section \<open>What a loaded configuration guarantees\<close>

definition config_ok :: "config \<Rightarrow> bool" where
  [inv_defs]: "config_ok c \<longleftrightarrow>
     5 * minute \<le> c_session_ttl c \<and> c_session_ttl c \<le> 30 * 24 * hour
     \<and> 100 * millisecond \<le> c_worker_interval c \<and> c_worker_interval c \<le> minute
     \<and> c_worker_interval c < c_worker_lease c
     \<and> second \<le> c_shutdown_timeout c \<and> c_shutdown_timeout c \<le> 2 * minute
     \<and> 1 \<le> c_worker_batch_size c \<and> c_worker_batch_size c \<le> 100
     \<and> 1024 \<le> c_max_request_bytes c \<and> c_max_request_bytes c \<le> 16777216
     \<and> c_log_level c \<in> set log_levels
     \<and> (c_bootstrap_email c = '''' \<longleftrightarrow> c_bootstrap_password c = '''')
     \<and> (c_bootstrap_password c \<noteq> '''' \<longrightarrow> 12 \<le> length (c_bootstrap_password c))"

lemma env_number_range:
  assumes "env_number f getenv name fallback lo hi = Inr v" "lo \<le> fallback" "fallback \<le> hi"
  shows "lo \<le> v \<and> v \<le> hi"
  using assms by (auto simp: env_number_def Let_def split: if_splits option.splits)

lemma config_load_ok:
  assumes "config_load getenv parse = Inr cfg"
  shows "config_ok cfg"
proof -
  from assms obtain ttl interval lease shutdown batch size where
    b: "env_integer getenv ''GRIDVAULT_WORKER_BATCH'' 8 1 100 = Inr batch"
       "env_bytes getenv ''GRIDVAULT_MAX_REQUEST_BYTES'' 1048576 1024 16777216 = Inr size"
    and v: "config_validate cfg = None"
    and f: "c_worker_batch_size cfg = batch" "c_max_request_bytes cfg = size"
    unfolding config_load_def and_then_Inr Let_def by (auto split: option.splits)
  show ?thesis
    using env_number_range [OF b(1) [unfolded env_integer_def]] env_number_range [OF b(2) [unfolded env_bytes_def]] v
    by (auto simp: config_ok_def config_validate_def f split: if_splits)
qed

text \<open>Decimal texts of 64-bit integers are read back.\<close>

lemma digit_value_digit [simp]: "n < 10 \<Longrightarrow> digit_value (digit n) = Some (int n)"
  by (simp add: digit_value_def digit_def Let_def)

lemma digits_value_append:
  "digits_value acc (s @ t) = (case digits_value acc s of None \<Rightarrow> None | Some v \<Rightarrow> digits_value v t)"
  by (induction acc s rule: digits_value.induct) (auto split: option.split)

lemma digits_value_nat_text: "digits_value 0 (nat_text n) = Some (int n)"
proof (induction n rule: nat_text.induct)
  case (1 n)
  show ?case
  proof (cases "n < 10")
    case True
    then show ?thesis by (subst nat_text.simps) simp
  next
    case False
    then have "digits_value 0 (nat_text (n div 10)) = Some (int (n div 10))" using 1 by blast
    with False show ?thesis
      by (subst nat_text.simps) (simp add: digits_value_append zdiv_int zmod_int)
  qed
qed

lemma nat_text_nonempty [simp]: "nat_text n \<noteq> []"
  by (subst nat_text.simps) simp

lemma hd_nat_text: "\<exists>d r. nat_text n = digit d # r \<and> d < 10"
proof (induction n rule: nat_text.induct)
  case (1 n)
  then show ?case by (subst nat_text.simps) (cases "n < 10"; auto)
qed

lemma digit_not_sign [simp]: "d < 10 \<Longrightarrow> digit d \<noteq> CHR ''+''" "d < 10 \<Longrightarrow> digit d \<noteq> CHR ''-''"
  using digit_value_digit [of d] by (auto simp: digit_value_def Let_def)

lemma parse_int64_int_text: "in_i64 i \<Longrightarrow> parse_int64 (int_text i) = Some i"
proof (cases "i < 0")
  case True
  assume "in_i64 i"
  with True show ?thesis
    by (simp add: parse_int64_def int_text_def unsigned_value_def digits_value_nat_text)
next
  case False
  assume "in_i64 i"
  obtain d r where h: "nat_text (nat i) = digit d # r" "d < 10" using hd_nat_text by blast
  with False \<open>in_i64 i\<close> digits_value_nat_text [of "nat i"] show ?thesis
    by (simp add: parse_int64_def int_text_def unsigned_value_def)
qed

end
