(* ===== verification/HttpCore.thy ===== *)
theory HttpCore
  imports Config Fault
begin

text \<open>
  \<open>internal/httpapi/context.go\<close> and \<open>response.go\<close>, with \<open>queryInt\<close> of \<open>server.go\<close>: what the
  server reads from the headers and the query of a request, and how errors become responses.  The
  JSON decoder and \<open>time.Parse\<close> of the standard library appear through the outcomes of their calls.
\<close>

section \<open>Headers and queries\<close>

text \<open>\<open>strings.Fields\<close>: the maximal texts without white space.\<close>

function fields_from :: "string \<Rightarrow> string \<Rightarrow> string list" where
  "fields_from cur s =
     (if s = [] then (if cur = [] then [] else [cur])
      else case word_at space_words s of
        None \<Rightarrow> fields_from (cur @ [hd s]) (tl s)
      | Some w \<Rightarrow> (if cur = [] then [] else [cur]) @ fields_from [] (drop (length w) s))"
  by pat_completeness auto
termination
  by (relation "measure (\<lambda>(cur, s). length s)") (auto dest: word_at_SomeD)

declare fields_from.simps [simp del]

definition text_fields :: "string \<Rightarrow> string list" where
  "text_fields s = fields_from [] s"

definition bearer_token :: "string \<Rightarrow> string" where
  "bearer_token header =
     (let parts = text_fields header in
      if length parts \<noteq> 2 \<or> map lower_byte (parts ! 0) \<noteq> ''bearer'' then '''' else parts ! 1)"

definition request_id_from :: "string res \<Rightarrow> string \<Rightarrow> string" where
  "request_id_from random header =
     (let value = trim_space header in
      if 8 \<le> length value \<and> length value \<le> 128 then value
      else case random of Inl _ \<Rightarrow> ''request-unknown'' | Inr bytes \<Rightarrow> hex_encode bytes)"

text \<open>\<open>queryInt\<close>; \<open>strconv.Atoi\<close> accepts what \<open>ParseInt\<close> in base 10 accepts.\<close>

definition query_int :: "(string \<Rightarrow> string) \<Rightarrow> string \<Rightarrow> i64 \<Rightarrow> i64 res" where
  "query_int query name fallback =
     (let raw = trim_space (query name) in
      if raw = '''' then Inr fallback
      else case parse_int64 raw of
        None \<Rightarrow> Inl (new_fault Invalid ''invalid_query_integer'' (name @ '' must be an integer''))
      | Some value \<Rightarrow> Inr value)"

section \<open>Bodies\<close>

definition err_eof :: go_error where
  "err_eof = Plain ''EOF''"

text \<open>\<open>decodeJSON\<close>: \<open>target\<close> is the outcome of the first \<open>Decode\<close>, \<open>extra\<close> of the second.\<close>

definition decode_json :: "'a res \<Rightarrow> unit res \<Rightarrow> 'a res" where
  "decode_json target extra =
     (case target of
        Inl e \<Rightarrow>
          if error_is e err_eof then Inl (new_fault Invalid ''body_required'' ''JSON request body is required'')
          else Inl (wrap_fault Invalid ''invalid_json'' ''request body must be valid JSON'' ''httpapi.decodeJSON'' e)
      | Inr value \<Rightarrow>
          if (case extra of Inl e \<Rightarrow> error_is e err_eof | Inr _ \<Rightarrow> False) then Inr value
          else Inl (new_fault Invalid ''multiple_json_values'' ''request body must contain one JSON value''))"

definition parse_rfc3339 :: "(string \<Rightarrow> time res) \<Rightarrow> string \<Rightarrow> time res" where
  "parse_rfc3339 parse value =
     (case parse value of
        Inl e \<Rightarrow> Inl (wrap_fault Invalid ''invalid_time'' ''timestamp must use RFC3339'' ''httpapi.parseTime'' e)
      | Inr t \<Rightarrow> Inr t)"

section \<open>Error responses\<close>

record api_error =
  ae_code :: string
  ae_message :: string
  ae_request_id :: string
  ae_fields :: "fields option"

text \<open>\<open>writeError\<close>: the status and the body; \<open>ended\<close> is the error of the context of the request.\<close>

definition write_error :: "go_error option \<Rightarrow> string \<Rightarrow> go_error \<Rightarrow> nat \<times> api_error" where
  "write_error ended request_id e =
     (let e = (case ended of
          None \<Rightarrow> e
        | Some c \<Rightarrow> if error_is e c
            then wrap_fault Unavailable ''request_cancelled'' ''request was cancelled'' ''httpapi'' e else e)
      in (http_status e, \<lparr>ae_code = code_of e, ae_message = public_message e, ae_request_id = request_id,
            ae_fields = fields_of e\<rparr>))"

section \<open>Facts\<close>

lemma fields_from_blank: "fields_from cur [] = (if cur = [] then [] else [cur])"
  by (subst fields_from.simps) simp

lemma fields_from_visible:
  assumes "\<forall>c \<in> set s. visible c"
  shows "fields_from cur (s @ t) = fields_from (cur @ s) t"
  using assms
proof (induction s arbitrary: cur)
  case (Cons c s)
  have "word_at space_words (c # s @ t) = None"
    using Cons.prems by (intro word_at_visible [of c]) (auto dest: space_words_invisible)
  then have "fields_from cur ((c # s) @ t) = fields_from (cur @ [c]) (s @ t)"
    by (subst fields_from.simps) simp
  with Cons show ?case by simp
qed simp

lemma fields_from_space: "fields_from cur (CHR '' '' # t) = (if cur = [] then [] else [cur]) @ fields_from [] t"
proof -
  have "word_at space_words (CHR '' '' # t) = Some '' ''"
    by (simp add: word_at_def space_words_def starts_with_def)
  then show ?thesis by (subst fields_from.simps) simp
qed

text \<open>A token of visible characters is read back from the header the clients send, in any case of the scheme.\<close>

lemma bearer_token_of_header:
  assumes scheme: "map lower_byte scheme = ''bearer''" "\<forall>c \<in> set scheme. visible c"
    and token: "token \<noteq> []" "\<forall>c \<in> set token. visible c"
  shows "bearer_token (scheme @ '' '' @ token) = token"
proof -
  have "scheme \<noteq> []" using scheme(1) by auto
  then have "text_fields (scheme @ '' '' @ token) = [scheme, token]"
    using scheme(2) token fields_from_visible [of token "[]" "[]"]
    by (simp add: text_fields_def fields_from_visible fields_from_space fields_from_blank)
  then show ?thesis using scheme(1) by (simp add: bearer_token_def Let_def)
qed

lemma bearer_token_empty: "bearer_token '''' = ''''"
  by (simp add: bearer_token_def text_fields_def fields_from_blank)

text \<open>The request identifier is never empty and is cut to at most 128 bytes, given twelve random bytes.\<close>

lemma request_id_from_bounds:
  assumes "\<And>bytes. random = Inr bytes \<Longrightarrow> length bytes = 12"
  shows "8 \<le> length (request_id_from random header) \<and> length (request_id_from random header) \<le> 128"
  using assms by (auto simp: request_id_from_def Let_def split: sum.split)

lemma write_error_status: "fst (write_error ended rid e) \<in> {400, 401, 403, 404, 409, 500, 503}"
  using http_status_range by (simp add: write_error_def Let_def)

text \<open>The text of an unclassified error never reaches the client.\<close>

lemma write_error_hides:
  assumes "as_fault e = None" "\<And>c. ended = Some c \<Longrightarrow> \<not> error_is e c"
  shows "write_error ended rid e = (500, \<lparr>ae_code = ''internal_error'', ae_message = ''internal service error'',
    ae_request_id = rid, ae_fields = None\<rparr>)"
  using assms by (auto simp: write_error_def http_status_def code_of_def public_message_def fields_of_def split: option.split)

end
