(* ===== verification/Timestamp.thy ===== *)
theory Timestamp
  imports GoText "HOL-Library.List_Lexorder" "HOL-Library.Char_ord"
begin

text \<open>
  \<open>encodeTime\<close> of \<open>internal/storage/sqlite/db.go\<close>: the database keeps a time as the text
  \<open>value.UTC().Format(time.RFC3339Nano)\<close> and its statements compare these texts byte by byte.
  The theory computes the text the way Go's \<open>time\<close> package does and settles when the order of
  the texts is the order of the times: whenever the times lie in different seconds, and for
  whole seconds, but not for fractions within one second, because the format drops trailing
  zeros.
\<close>

section \<open>The calendar\<close>

text \<open>
  \<open>absDate\<close>: the year and the day of the year of a day counted from 1 January of the year 1, by
  cycles of 400, 100, 4 and 1 years; the year is counted from 0 here.
\<close>

definition cap3 :: "int \<Rightarrow> int" where
  "cap3 n = n - n div 4"

definition year_day :: "int \<Rightarrow> int \<times> int" where
  "year_day d =
     (let n400 = d div 146097; d = d - 146097 * n400;
          n100 = cap3 (d div 36524); d = d - 36524 * n100;
          n4 = d div 1461; d = d - 1461 * n4;
          n1 = cap3 (d div 365); d = d - 365 * n1
      in (400 * n400 + 100 * n100 + 4 * n4 + n1, d))"

definition is_leap :: "int \<Rightarrow> bool" where
  "is_leap y \<longleftrightarrow> y mod 4 = 0 \<and> (y mod 100 \<noteq> 0 \<or> y mod 400 = 0)"

definition days_before_month :: "nat list" where
  "days_before_month = [0, 31, 59, 90, 120, 151, 181, 212, 243, 273, 304, 334, 365]"

definition month_day :: "bool \<Rightarrow> nat \<Rightarrow> nat \<times> nat" where
  "month_day leap yday =
     (if leap \<and> yday = 59 then (2, 29)
      else
        let day = (if leap \<and> 59 < yday then yday - 1 else yday);
            month = day div 31; finish = days_before_month ! (month + 1)
        in if finish \<le> day then (month + 2, day - finish + 1)
           else (month + 1, day - days_before_month ! month + 1))"

definition days_before_year :: "int \<Rightarrow> int" where
  "days_before_year y = 365 * y + y div 4 - y div 100 + y div 400"

lemma cap3_range: "0 \<le> n \<Longrightarrow> n \<le> 4 \<Longrightarrow> 0 \<le> cap3 n \<and> cap3 n \<le> 3 \<and> cap3 n \<le> n \<and> n \<le> cap3 n + 1 \<and> (n \<le> 3 \<longrightarrow> cap3 n = n)"
  by (auto simp: cap3_def)

text \<open>The cycles invert the count of the days before a year.\<close>

lemma year_day_spec:
  assumes "year_day d = (y, r)"
  shows "d = days_before_year y + r" "0 \<le> r" "r \<le> (if is_leap (y + 1) then 365 else 364)"
proof -
  define a where "a = d div 146097"
  define b where "b = d - 146097 * a"
  define h where "h = cap3 (b div 36524)"
  define c where "c = b - 36524 * h"
  define q where "q = c div 1461"
  define e where "e = c - 1461 * q"
  define s where "s = cap3 (e div 365)"
  have yr: "y = 400 * a + 100 * h + 4 * q + s" "r = e - 365 * s"
    using assms by (auto simp: year_day_def Let_def a_def b_def h_def c_def q_def e_def s_def)
  have b: "0 \<le> b" "b \<le> 146096" unfolding b_def a_def by presburger+
  have hb: "0 \<le> b div 36524" "b div 36524 \<le> 4" using b by linarith+
  note h = cap3_range [OF hb, folded h_def]
  have c: "0 \<le> c" "c \<le> 36524" "c = 36524 \<longrightarrow> h = 3"
  proof -
    obtain m where m: "b div 36524 = m" by blast
    have m': "36524 * m \<le> b" "b < 36524 * m + 36524" using m by linarith+
    have "h = m \<and> m \<le> 3 \<or> h = 3 \<and> m = 4"
      using hb unfolding m h_def cap3_def by (cases "m = 4") auto
    with m' b show "0 \<le> c" "c \<le> 36524" "c = 36524 \<longrightarrow> h = 3" unfolding c_def by auto
  qed
  have q: "0 \<le> q" "q \<le> 24" using c unfolding q_def by linarith+
  have e: "0 \<le> e" "e \<le> 1460" unfolding e_def q_def by presburger+
  have eb: "0 \<le> e div 365" "e div 365 \<le> 4" using e by linarith+
  note s = cap3_range [OF eb, folded s_def]
  have r: "0 \<le> r" "r \<le> 365" "r = 365 \<longrightarrow> s = 3 \<and> e = 1460"
  proof -
    obtain m where m: "e div 365 = m" by blast
    have m': "365 * m \<le> e" "e < 365 * m + 365" using m by linarith+
    have "s = m \<and> m \<le> 3 \<or> s = 3 \<and> m = 4"
      using eb unfolding m s_def cap3_def by (cases "m = 4") auto
    with m' e show "0 \<le> r" "r \<le> 365" "r = 365 \<longrightarrow> s = 3 \<and> e = 1460" unfolding yr by auto
  qed
  have h': "0 \<le> h" "h \<le> 3" and s': "0 \<le> s" "s \<le> 3" using h s by auto
  have divs: "y div 4 = 100 * a + 25 * h + q" "y div 100 = 4 * a + h" "y div 400 = a"
  proof -
    show "y div 4 = 100 * a + 25 * h + q"
      by (rule int_div_pos_eq [where r = s]) (use yr(1) s' in auto)
    show "y div 100 = 4 * a + h"
      by (rule int_div_pos_eq [where r = "4 * q + s"]) (use yr(1) q s' in auto)
    show "y div 400 = a"
      by (rule int_div_pos_eq [where r = "100 * h + 4 * q + s"]) (use yr(1) h' q s' in auto)
  qed
  show "d = days_before_year y + r"
    unfolding days_before_year_def divs by (simp add: yr b_def c_def e_def)
  show "0 \<le> r" by (rule r)
  show "r \<le> (if is_leap (y + 1) then 365 else 364)"
  proof (cases "r = 365")
    case True
    with r have s3: "s = 3" "e = 1460" by auto
    have y1: "y + 1 = 4 * (100 * a + 25 * h + q + 1)" unfolding yr s3 by simp
    then have "4 dvd y + 1" by simp
    moreover have "400 dvd y + 1" if "100 dvd y + 1"
    proof -
      from that obtain k where k: "y + 1 = 100 * k" by (elim dvdE)
      obtain m where m: "k - 4 * a - h = m" by blast
      with k y1 have "q + 1 = 25 * m" unfolding k by (simp add: algebra_simps)
      with q have "q = 24" by presburger
      then have "c = 36524" using s3 by (simp add: e_def)
      then have "h = 3" using c by simp
      with \<open>q = 24\<close> y1 have "y + 1 = 400 * (a + 1)" by simp
      then show "400 dvd y + 1" by simp
    qed
    ultimately have "is_leap (y + 1)" by (auto simp: is_leap_def mod_eq_0_iff_dvd)
    then show ?thesis using True by simp
  qed (use r in auto)
qed

lemma succ_div:
  assumes "0 < (n :: int)"
  shows "(y + 1) div n = y div n + (if n dvd y + 1 then 1 else 0)"
proof (cases "n dvd y + 1")
  case True
  then obtain k where k: "y + 1 = n * k" by (elim dvdE)
  then have "y div n = k - 1"
    using assms by (intro int_div_pos_eq [where r = "n - 1"]) (auto simp: algebra_simps)
  with True k assms show ?thesis by simp
next
  case False
  have y: "y = n * (y div n) + y mod n" by simp
  have "y mod n + 1 \<noteq> n"
  proof
    assume "y mod n + 1 = n"
    with y have "y + 1 = n * (y div n) + n" by linarith
    then have "y + 1 = n * (y div n + 1)" by (simp add: distrib_left)
    with False show False by simp
  qed
  with assms have "0 \<le> y mod n + 1" "y mod n + 1 < n"
    using pos_mod_sign [of n y] pos_mod_bound [of n y] by linarith+
  moreover have "y + 1 = n * (y div n) + (y mod n + 1)" using y by simp
  ultimately have "(y + 1) div n = y div n" by (intro int_div_pos_eq)
  with False show ?thesis by simp
qed

lemma div_gap: "a \<le> b \<Longrightarrow> 365 * a - a div 100 \<le> 365 * b - (b :: int) div 100"
proof (induction b rule: int_ge_induct)
  case (step i)
  have "x \<le> y + 1 \<Longrightarrow> u \<le> v - y \<Longrightarrow> u \<le> v + 365 - x" for u v x y :: int by linarith
  from this [of "(i + 1) div 100" "i div 100", OF _ step.IH] show ?case
    by (simp add: succ_div algebra_simps)
qed simp

lemma days_before_year_step:
  assumes "y < z"
  shows "days_before_year y + (if is_leap (y + 1) then 366 else 365) \<le> days_before_year z"
proof -
  have "z div 4 \<ge> (y + 1) div 4" "z div 400 \<ge> (y + 1) div 400"
    using assms by (auto intro: zdiv_mono1)
  moreover have "365 * (y + 1) - (y + 1) div 100 \<le> 365 * z - z div 100"
    using assms by (intro div_gap) simp
  moreover have "365 * (y + 1) + (y + 1) div 4 - (y + 1) div 100 + (y + 1) div 400
      = days_before_year y + (if is_leap (y + 1) then 366 else 365)"
  proof -
    have "4 dvd (100 :: int)" "100 dvd (400 :: int)" by simp_all
    then have "100 dvd y + 1 \<Longrightarrow> 4 dvd y + 1" "400 dvd y + 1 \<Longrightarrow> 100 dvd y + 1"
      by (blast intro: dvd_trans)+
    then show ?thesis
      unfolding days_before_year_def is_leap_def mod_eq_0_iff_dvd
      by (cases "4 dvd y + 1"; cases "100 dvd y + 1"; cases "400 dvd y + 1") (simp_all add: succ_div)
  qed
  ultimately show ?thesis unfolding days_before_year_def by linarith
qed

lemma year_day_mono:
  assumes "d < d'" "year_day d = (y, r)" "year_day d' = (y', r')"
  shows "y < y' \<or> (y = y' \<and> r < r')"
proof -
  note s = year_day_spec [OF assms(2)] and s' = year_day_spec [OF assms(3)]
  have "\<not> y' < y"
  proof
    assume "y' < y"
    from days_before_year_step [OF this] s s' assms(1) show False by (auto split: if_splits)
  qed
  with s s' assms(1) show ?thesis by auto
qed

text \<open>Within a year the pair of month and day grows with the day of the year.\<close>

definition lex_less :: "nat \<times> nat \<Rightarrow> nat \<times> nat \<Rightarrow> bool" where
  "lex_less a b \<longleftrightarrow> fst a < fst b \<or> (fst a = fst b \<and> snd a < snd b)"

lemma month_day_table:
  assumes "day < 365"
  shows "month_day False day =
    (if day < 31 then (1, day + 1) else if day < 59 then (2, day - 30)
     else if day < 90 then (3, day - 58) else if day < 120 then (4, day - 89)
     else if day < 151 then (5, day - 119) else if day < 181 then (6, day - 150)
     else if day < 212 then (7, day - 180) else if day < 243 then (8, day - 211)
     else if day < 273 then (9, day - 242) else if day < 304 then (10, day - 272)
     else if day < 334 then (11, day - 303) else (12, day - 333))"
proof -
  obtain k where k: "day div 31 = k" by blast
  have d: "31 * k \<le> day" "day < 31 * k + 31" using k by linarith+
  with assms have "k < 12" by linarith
  then have "k = 0 \<or> k = 1 \<or> k = 2 \<or> k = 3 \<or> k = 4 \<or> k = 5 \<or> k = 6 \<or> k = 7 \<or> k = 8
      \<or> k = 9 \<or> k = 10 \<or> k = 11" by presburger
  moreover have "month_day False day = (if days_before_month ! (k + 1) \<le> day
      then (k + 2, day - days_before_month ! (k + 1) + 1) else (k + 1, day - days_before_month ! k + 1))"
    by (simp add: month_day_def Let_def k)
  ultimately show ?thesis
    using d assms by (elim disjE) (simp_all add: days_before_month_def, auto)
qed

lemma month_day_plain_mono: "n < n' \<Longrightarrow> n' < 365 \<Longrightarrow> lex_less (month_day False n) (month_day False n')"
  by (simp add: month_day_table lex_less_def split del: if_split) (auto split: if_splits)

lemma month_day_leap: "month_day True n =
    (if n < 59 then month_day False n else if n = 59 then (2, 29) else month_day False (n - 1))"
  by (auto simp: month_day_def)

lemma month_day_mono:
  assumes "n < n'" "n' \<le> (if leap then 365 else 364)"
  shows "lex_less (month_day leap n) (month_day leap n')"
proof (cases leap)
  case True
  have eq: "month_day False 58 = (2, 28)" "month_day False 59 = (3, 1)"
    by (simp_all add: month_day_table)
  have a: "n < 59 \<Longrightarrow> lex_less (month_day False n) (2, 29)"
  proof -
    assume "n < 59"
    then have "n = 58 \<or> lex_less (month_day False n) (month_day False 58)"
      using month_day_plain_mono [of n 58] by (cases "n = 58") auto
    then show ?thesis by (auto simp: lex_less_def eq)
  qed
  have b: "59 \<le> k \<Longrightarrow> k < 365 \<Longrightarrow> lex_less (2, 29) (month_day False k)" for k
  proof -
    assume "59 \<le> k" "k < 365"
    then have "k = 59 \<or> lex_less (month_day False 59) (month_day False k)"
      using month_day_plain_mono [of 59 k] by (cases "k = 59") auto
    then show ?thesis by (auto simp: lex_less_def eq)
  qed
  have c: "59 < n' \<Longrightarrow> n < n' - 1 \<Longrightarrow> lex_less (month_day False n) (month_day False (n' - 1))"
    using True assms by (intro month_day_plain_mono) auto
  have d: "59 < n \<Longrightarrow> lex_less (month_day False (n - 1)) (month_day False (n' - 1))"
    using True assms by (intro month_day_plain_mono) auto
  have e: "n' < 59 \<Longrightarrow> lex_less (month_day False n) (month_day False n')"
    using True assms by (intro month_day_plain_mono) auto
  show ?thesis
    using True assms a b [of "n' - 1"] c d e by (auto simp: month_day_leap)
next
  case False
  with assms show ?thesis by (simp add: month_day_plain_mono)
qed

lemma month_day_small:
  assumes "n \<le> (if leap then 365 else 364)"
  shows "fst (month_day leap n) < 100" "snd (month_day leap n) < 100"
proof -
  have *: "k < 365 \<Longrightarrow> fst (month_day False k) < 100 \<and> snd (month_day False k) < 100" for k
    by (simp add: month_day_table) auto
  have "n \<noteq> 59 \<Longrightarrow> n < 59 \<or> 59 < n" by auto
  with * [of n] * [of "n - 1"] assms
  show "fst (month_day leap n) < 100" "snd (month_day leap n) < 100"
    by (cases leap; auto simp: month_day_leap split: if_splits)+
qed
section \<open>The text of a time\<close>

text \<open>
  \<open>pad k n\<close> is \<open>n\<close> with \<open>k\<close> decimal digits (\<open>appendInt\<close>; a larger \<open>n\<close> is outside the years and
  fields considered here).
\<close>

fun pad :: "nat \<Rightarrow> nat \<Rightarrow> string" where
  "pad 0 n = []"
| "pad (Suc k) n = pad k (n div 10) @ [digit (n mod 10)]"

definition trim_zeros :: "string \<Rightarrow> string" where
  "trim_zeros s = rev (dropWhile (\<lambda>c. c = CHR ''0'') (rev s))"

definition fraction_text :: "nat \<Rightarrow> string" where
  "fraction_text ns = (if ns = 0 then [] else CHR ''.'' # trim_zeros (pad 9 ns))"

definition second_text :: "int \<Rightarrow> string" where
  "second_text s =
     (let d = s div 86400; sod = nat (s mod 86400); (y, r) = year_day d;
          md = month_day (is_leap (y + 1)) (nat r)
      in pad 4 (nat (y + 1)) @ ''-'' @ pad 2 (fst md) @ ''-'' @ pad 2 (snd md) @ ''T''
         @ pad 2 (sod div 3600) @ '':'' @ pad 2 (sod div 60 mod 60) @ '':'' @ pad 2 (sod mod 60))"

definition encode_time :: "time \<Rightarrow> string" where
  "encode_time t = second_text (t div second) @ fraction_text (nat (t mod second)) @ ''Z''"

lemma length_pad [simp]: "length (pad k n) = k"
  by (induction k arbitrary: n) simp_all

lemma append_less: "length p = length q \<Longrightarrow> p @ x < q @ y \<longleftrightarrow> p < q \<or> (p = q \<and> x < (y :: 'a :: linorder list))"
  by (induction p q rule: list_induct2) (auto simp: Cons_less_Cons)

lemma digit_less: "a < b \<Longrightarrow> b < 10 \<Longrightarrow> digit a < digit b"
  by (simp add: digit_def less_char_def)

lemma pad_less: "a < b \<Longrightarrow> b < 10 ^ k \<Longrightarrow> pad k a < pad k b"
proof (induction k arbitrary: a b)
  case (Suc k)
  then have b: "b div 10 < 10 ^ k" by simp
  show ?case
  proof (cases "a div 10 = b div 10")
    case True
    with Suc.prems have "a mod 10 < b mod 10"
      by (metis div_mult_mod_eq nat_add_left_cancel_less)
    with True show ?thesis by (simp add: append_less digit_less)
  next
    case False
    with Suc.prems have "a div 10 < b div 10" by (simp add: div_le_mono le_neq_implies_less)
    with Suc.IH b have "pad k (a div 10) < pad k (b div 10)" by blast
    then show ?thesis by (simp add: append_less)
  qed
qed simp

lemma pad_mono_cases: "a \<le> b \<Longrightarrow> b < 10 ^ k \<Longrightarrow> pad k a < pad k b \<or> a = b"
  using pad_less [of a b k] by (cases "a = b") auto

lemma length_second_text [simp]: "length (second_text s) = 19"
  by (simp add: second_text_def Let_def split_beta)

lemma year_range:
  assumes "year_day d = (y, r)" "0 \<le> d" "d < 3652059"
  shows "0 \<le> y" "y < 9999"
proof -
  note s = year_day_spec [OF assms(1)]
  have e: "days_before_year 0 = 0" "days_before_year 9999 = 3652059"
    by (simp_all add: days_before_year_def)
  show "0 \<le> y"
  proof (rule ccontr)
    assume "\<not> 0 \<le> y"
    with days_before_year_step [of y 0] s assms e show False by (auto split: if_splits)
  qed
  show "y < 9999"
  proof (rule ccontr)
    assume "\<not> y < 9999"
    then have "y = 9999 \<or> days_before_year 9999 \<le> days_before_year y"
      using days_before_year_step [of 9999 y] by (cases "y = 9999") (auto split: if_splits)
    with s assms e show False by auto
  qed
qed

lemma time_of_day_less:
  assumes "a < b" "b < 86400"
  shows "pad 2 (a div 3600) @ '':'' @ pad 2 (a div 60 mod 60) @ '':'' @ pad 2 (a mod 60)
    < pad 2 (b div 3600) @ '':'' @ pad 2 (b div 60 mod 60) @ '':'' @ pad 2 (b mod 60)"
proof -
  have ab: "n = 3600 * (n div 3600) + 60 * (n div 60 mod 60) + n mod 60" for n :: nat
  proof -
    have "n div 3600 = n div 60 div 60" by (simp add: div_mult2_eq [symmetric])
    moreover have "n div 60 = 60 * (n div 60 div 60) + n div 60 mod 60" by simp
    moreover have "n = 60 * (n div 60) + n mod 60" by simp
    ultimately show ?thesis by linarith
  qed
  have lt: "n div 60 mod 60 < 60" "n mod 60 < 60" for n :: nat by simp_all
  have "a div 3600 \<le> b div 3600" "b div 3600 < 10 ^ 2"
    using assms by (simp_all add: div_le_mono less_mult_imp_div_less)
  from pad_mono_cases [OF this]
  show ?thesis
  proof
    assume "pad 2 (a div 3600) < pad 2 (b div 3600)"
    then show ?thesis by (simp add: append_less)
  next
    assume h: "a div 3600 = b div 3600"
    obtain am bm as bs where v: "a div 60 mod 60 = am" "b div 60 mod 60 = bm" "a mod 60 = as" "b mod 60 = bs"
      by blast
    have less: "am < bm \<or> am = bm \<and> as < bs"
      using ab [of a] ab [of b] lt [of a] lt [of b] assms(1) unfolding h v by linarith
    have "bm < 10 ^ 2" "bs < 10 ^ 2" using lt [of b] unfolding v by simp_all
    with less pad_less [of am bm 2] pad_less [of as bs 2] show ?thesis
      unfolding h v by (auto simp: append_less simp del: pad.simps)
  qed
qed

lemma second_text_less:
  assumes "0 \<le> s" "s < s'" "s' < 315537897600"
  shows "second_text s < second_text s'"
proof -
  obtain y r y' r' where yr: "year_day (s div 86400) = (y, r)" "year_day (s' div 86400) = (y', r')"
    by (metis surj_pair)
  have d: "0 \<le> s div 86400" "s div 86400 \<le> s' div 86400" "s' div 86400 < 3652059"
    using assms by (auto simp: zdiv_mono1)
  then have dd: "0 \<le> s' div 86400" "s div 86400 < 3652059" by auto
  have y: "0 \<le> y" "y' < 9999" "0 \<le> y'"
    using year_range [OF yr(1) d(1) dd(2)] year_range [OF yr(2) dd(1) d(3)] by auto
  show ?thesis
  proof (cases "s div 86400 = s' div 86400")
    case True
    then have eq: "y = y'" "r = r'" using yr by auto
    have "s mod 86400 < s' mod 86400"
      using assms(2) True by (metis add_less_cancel_left mult_div_mod_eq)
    then have "nat (s mod 86400) < nat (s' mod 86400)" "nat (s' mod 86400) < 86400" by auto
    from time_of_day_less [OF this] show ?thesis
      by (simp add: second_text_def Let_def yr eq append_less del: pad.simps)
  next
    case False
    with d have "s div 86400 < s' div 86400" by simp
    from year_day_mono [OF this yr] show ?thesis
    proof
      assume "y < y'"
      then have "nat (y + 1) < nat (y' + 1)" "nat (y' + 1) < 10 ^ 4" using y by auto
      from pad_less [OF this] show ?thesis
        by (simp add: second_text_def Let_def yr append_less del: pad.simps)
    next
      assume eq: "y = y' \<and> r < r'"
      let ?l = "is_leap (y' + 1)"
      have r: "nat r < nat r'" "nat r' \<le> (if ?l then 365 else 364)"
        using eq year_day_spec [OF yr(1)] year_day_spec [OF yr(2)] by auto
      have "lex_less (month_day ?l (nat r)) (month_day ?l (nat r'))" by (rule month_day_mono [OF r])
      moreover have "fst (month_day ?l (nat r')) < 10 ^ 2" "snd (month_day ?l (nat r')) < 10 ^ 2"
        using month_day_small [OF r(2)] by simp_all
      ultimately have "pad 2 (fst (month_day ?l (nat r))) < pad 2 (fst (month_day ?l (nat r')))
          \<or> fst (month_day ?l (nat r)) = fst (month_day ?l (nat r'))
            \<and> pad 2 (snd (month_day ?l (nat r))) < pad 2 (snd (month_day ?l (nat r')))"
        using pad_less unfolding lex_less_def by blast
      then show ?thesis
        using eq by (auto simp: second_text_def Let_def yr append_less simp del: pad.simps)
    qed
  qed
qed

definition time_in_range :: "time \<Rightarrow> bool" where
  "time_in_range t \<longleftrightarrow> 0 \<le> t \<and> t < 315537897600 * second"

lemma encode_time_less_second:
  assumes "time_in_range t" "time_in_range u" "t div second < u div second"
  shows "encode_time t < encode_time u"
proof -
  have "0 \<le> t div second" "u div second < 315537897600"
    using assms(1,2) by (auto simp: time_in_range_def pos_imp_zdiv_nonneg_iff)
  from second_text_less [OF this(1) assms(3) this(2)] show ?thesis
    by (simp add: encode_time_def append_less)
qed

text \<open>A statement that finds one text below another knows the order of the seconds at least.\<close>

lemma encode_time_lessD:
  assumes "time_in_range t" "time_in_range u" "encode_time t < encode_time u"
  shows "t div second \<le> u div second"
  using encode_time_less_second [OF assms(2,1)] assms(3) by (meson not_le order_less_asym)

text \<open>For whole seconds, as an API client writes them, texts and times have one order.\<close>

lemma encode_time_whole_seconds:
  assumes "time_in_range t" "time_in_range u" "t mod second = 0" "u mod second = 0"
  shows "encode_time t < encode_time u \<longleftrightarrow> t < u"
proof -
  have eq: "t = second * (t div second)" "u = second * (u div second)" using assms(3,4) by auto
  show ?thesis
  proof (cases "t div second = u div second")
    case True
    then have "t = u" using eq by metis
    then show ?thesis by simp
  next
    case False
    have "t < u \<longleftrightarrow> t div second < u div second" using eq False by linarith
    moreover have "encode_time t < encode_time u \<longleftrightarrow> t div second < u div second"
      using encode_time_less_second [OF assms(1,2)] encode_time_lessD [OF assms(1,2)] False by fastforce
    ultimately show ?thesis by simp
  qed
qed

text \<open>Within one second the whole second sorts after all its fractions.\<close>

lemma encode_time_fraction:
  assumes "t mod second = 0" "t < u" "u div second = t div second"
  shows "encode_time u < encode_time t"
proof -
  have "u mod second \<noteq> 0"
    using assms by (metis div_mult_mod_eq less_irrefl)
  then have "nat (u mod second) \<noteq> 0"
    using pos_mod_sign [of second u] by auto
  then have "fraction_text (nat (u mod second)) @ ''Z'' < ''Z''"
    by (simp add: fraction_text_def Cons_less_Cons less_char_def)
  with assms show ?thesis by (simp add: encode_time_def append_less fraction_text_def)
qed
end
