(* ===== verification/Identity.thy ===== *)
theory Identity
  imports Fault
begin

text \<open>
  \<open>internal/identity\<close>: roles and their permissions (\<open>role.go\<close>), users and passwords
  (\<open>user.go\<close>) and login sessions (\<open>session.go\<close>).  Password hashing (bcrypt), the digest
  (SHA-256), the address parser of \<open>net/mail\<close>, full Unicode lower-casing of addresses, random
  bytes and fresh UUIDs are arguments of the operations that use them.
\<close>

section \<open>Roles and permissions\<close>

datatype role = RoleDispatcher | RoleOperator | RoleAuditor | RoleOther string

datatype permission =
    PermissionPlanWrite | PermissionPlanApprove | PermissionPlanDispatch
  | PermissionTelemetryWrite | PermissionAlarmManage | PermissionSettlementClose
  | PermissionAuditRead | PermissionSiteManage

fun role_text :: "role \<Rightarrow> string" where
  "role_text RoleDispatcher = ''dispatcher''"
| "role_text RoleOperator = ''operator''"
| "role_text RoleAuditor = ''auditor''"
| "role_text (RoleOther s) = s"

definition role_of_text :: "string \<Rightarrow> role" where
  "role_of_text s =
     (if s = ''dispatcher'' then RoleDispatcher else if s = ''operator'' then RoleOperator
      else if s = ''auditor'' then RoleAuditor else RoleOther s)"

fun permission_text :: "permission \<Rightarrow> string" where
  "permission_text PermissionPlanWrite = ''plan:write''"
| "permission_text PermissionPlanApprove = ''plan:approve''"
| "permission_text PermissionPlanDispatch = ''plan:dispatch''"
| "permission_text PermissionTelemetryWrite = ''telemetry:write''"
| "permission_text PermissionAlarmManage = ''alarm:manage''"
| "permission_text PermissionSettlementClose = ''settlement:close''"
| "permission_text PermissionAuditRead = ''audit:read''"
| "permission_text PermissionSiteManage = ''site:manage''"

text \<open>The map \<open>grants\<close>; a missing key is \<open>None\<close>.\<close>

fun grants :: "role \<Rightarrow> permission list option" where
  "grants RoleDispatcher = Some
     [PermissionPlanWrite, PermissionTelemetryWrite, PermissionAlarmManage, PermissionAuditRead]"
| "grants RoleOperator = Some
     [PermissionPlanApprove, PermissionPlanDispatch, PermissionTelemetryWrite,
      PermissionAlarmManage, PermissionSettlementClose, PermissionAuditRead, PermissionSiteManage]"
| "grants RoleAuditor = Some [PermissionAuditRead]"
| "grants (RoleOther s) = None"

definition role_valid :: "role \<Rightarrow> bool" where
  "role_valid r \<longleftrightarrow> grants r \<noteq> None"

definition parse_role :: "string \<Rightarrow> role res" where
  "parse_role value =
     (let role = role_of_text (to_lower (trim_space value)) in
      if \<not> role_valid role then
        Inl (with_fields (new_fault Invalid ''invalid_role'' ''role must be dispatcher, operator, or auditor'')
          [(''role'', value)])
      else Inr role)"

text \<open>Reading a missing key of a Go map yields the empty slice.\<close>

definition granted :: "role \<Rightarrow> permission list" where
  "granted r = (case grants r of Some ps \<Rightarrow> ps | None \<Rightarrow> [])"

definition role_allows :: "role \<Rightarrow> permission \<Rightarrow> bool" where
  "role_allows r p \<longleftrightarrow> p \<in> set (granted r)"

definition require_permission :: "role \<Rightarrow> permission \<Rightarrow> unit res" where
  "require_permission role p =
     (if \<not> role_valid role then Inl err_unauthorized
      else if \<not> role_allows role p then
        Inl (with_fields err_permission [(''role'', role_text role), (''permission'', permission_text p)])
      else Inr ())"

definition permissions :: "role \<Rightarrow> permission list" where
  "permissions role = granted role"

lemma role_of_text_text: "role_valid r \<Longrightarrow> role_of_text (role_text r) = r"
  by (cases r) (auto simp: role_of_text_def role_valid_def)

lemma require_Inr: "require_permission r p = Inr u \<longleftrightarrow> role_allows r p"
  by (cases r) (auto simp: require_permission_def role_valid_def role_allows_def granted_def)

lemma require_status:
  "require_permission r p = Inl e \<Longrightarrow> http_status e = (if role_valid r then 403 else 401)"
  by (auto simp: require_permission_def err_unauthorized_def err_permission_def split: if_splits)

text \<open>
  Separation of duties: no role may both write and approve a plan, so one actor cannot do both
  within one role.
\<close>

lemma write_approve_disjoint:
  "\<not> (role_allows r PermissionPlanWrite \<and> role_allows r PermissionPlanApprove)"
  by (cases r) (auto simp: role_allows_def granted_def)

section \<open>Users\<close>

record user =
  u_id :: string
  u_email :: string
  u_password_hash :: string
  u_display_name :: string
  u_role :: role
  u_active :: bool
  u_version :: i64
  u_created_at :: time
  u_updated_at :: time

record new_user =
  nu_email :: string
  nu_password :: string
  nu_display_name :: string
  nu_role :: role

definition normalize_email ::
    "(string \<Rightarrow> string) \<Rightarrow> (string \<Rightarrow> string option) \<Rightarrow> string \<Rightarrow> string res" where
  "normalize_email lower parse_address value =
     (let normalized = lower (trim_space value) in
      case parse_address normalized of
        None \<Rightarrow> Inl (new_fault Invalid ''invalid_email'' ''email address is invalid'')
      | Some address \<Rightarrow>
          if address \<noteq> normalized \<or> 254 < length normalized
          then Inl (new_fault Invalid ''invalid_email'' ''email address is invalid'')
          else Inr normalized)"

text \<open>
  The \<open>switch\<close> of the password loop: an ASCII lower-case letter, capital or digit, and
  everything else, every byte of a longer rune included, is a symbol.
\<close>

definition pw_lower :: "char \<Rightarrow> bool" where
  "pw_lower c \<longleftrightarrow> 97 \<le> byte c \<and> byte c \<le> 122"

definition pw_upper :: "char \<Rightarrow> bool" where
  "pw_upper c \<longleftrightarrow> 65 \<le> byte c \<and> byte c \<le> 90"

definition pw_digit :: "char \<Rightarrow> bool" where
  "pw_digit c \<longleftrightarrow> 48 \<le> byte c \<and> byte c \<le> 57"

definition pw_symbol :: "char \<Rightarrow> bool" where
  "pw_symbol c \<longleftrightarrow> \<not> pw_lower c \<and> \<not> pw_upper c \<and> \<not> pw_digit c"

definition validate_password :: "string \<Rightarrow> unit res" where
  "validate_password password =
     (if length password < 12 \<or> 128 < length password then
        Inl (new_fault Invalid ''weak_password'' ''password must contain 12 to 128 characters'')
      else if \<not> list_ex pw_lower password \<or> \<not> list_ex pw_upper password
          \<or> \<not> list_ex pw_digit password \<or> \<not> list_ex pw_symbol password then
        Inl (new_fault Invalid ''weak_password''
          ''password must include lower, upper, digit, and symbol characters'')
      else Inr ())"

definition display_name_error :: go_error where
  "display_name_error =
     new_fault Invalid ''invalid_display_name'' ''display name must contain 2 to 80 characters''"

definition create_user ::
    "(string \<Rightarrow> string) \<Rightarrow> (string \<Rightarrow> string option) \<Rightarrow> (string \<Rightarrow> string res) \<Rightarrow> string
     \<Rightarrow> new_user \<Rightarrow> time \<Rightarrow> user res" where
  "create_user lower parse_address bcrypt uuid input now =
     (case normalize_email lower parse_address (nu_email input) of
        Inl e \<Rightarrow> Inl e
      | Inr email \<Rightarrow>
          let name = trim_space (nu_display_name input); count = rune_count name in
          if count < 2 \<or> 80 < count then Inl display_name_error
          else if \<not> role_valid (nu_role input) then
            Inl (new_fault Invalid ''invalid_role'' ''user role is not supported'')
          else case validate_password (nu_password input) of
            Inl e \<Rightarrow> Inl e
          | Inr _ \<Rightarrow>
              (case bcrypt (nu_password input) of
                 Inl e \<Rightarrow> Inl (wrap_fault Internal ''password_hash_failed''
                   ''could not secure password'' ''identity.CreateUser'' e)
               | Inr hash \<Rightarrow> Inr \<lparr>u_id = uuid, u_email = email, u_password_hash = hash,
                   u_display_name = name, u_role = nu_role input, u_active = True,
                   u_version = 1, u_created_at = now, u_updated_at = now\<rparr>))"

definition verify_password :: "(string \<Rightarrow> string \<Rightarrow> bool) \<Rightarrow> user \<Rightarrow> string \<Rightarrow> unit res" where
  "verify_password bcrypt_matches u password =
     (if \<not> u_active u then Inl (new_fault Forbidden ''account_inactive'' ''account is inactive'')
      else if \<not> bcrypt_matches (u_password_hash u) password then
        Inl (new_fault Unauthenticated ''invalid_credentials'' ''email or password is incorrect'')
      else Inr ())"

definition user_can :: "user \<Rightarrow> permission \<Rightarrow> unit res" where
  "user_can u p =
     (if \<not> u_active u then Inl (new_fault Forbidden ''account_inactive'' ''account is inactive'')
      else require_permission (u_role u) p)"

definition deactivate :: "user \<Rightarrow> time \<Rightarrow> user" where
  "deactivate u now = u\<lparr>u_active := False, u_version := incr64 (u_version u), u_updated_at := now\<rparr>"

definition rename_user :: "user \<Rightarrow> string \<Rightarrow> time \<Rightarrow> user res" where
  "rename_user u name now =
     (let name = trim_space name; count = rune_count name in
      if count < 2 \<or> 80 < count then Inl display_name_error
      else Inr (u\<lparr>u_display_name := name, u_version := incr64 (u_version u), u_updated_at := now\<rparr>))"

definition user_ok :: "user \<Rightarrow> bool" where
  [inv_defs]: "user_ok u \<longleftrightarrow> role_valid (u_role u)
     \<and> 2 \<le> rune_count (u_display_name u) \<and> rune_count (u_display_name u) \<le> 80
     \<and> trim_space (u_display_name u) = u_display_name u \<and> length (u_email u) \<le> 254
     \<and> u_created_at u \<le> u_updated_at u"

lemma validate_password_Inr: "validate_password pw = Inr () \<longleftrightarrow>
    12 \<le> length pw \<and> length pw \<le> 128 \<and> list_ex pw_lower pw \<and> list_ex pw_upper pw
    \<and> list_ex pw_digit pw \<and> list_ex pw_symbol pw"
  by (auto simp: validate_password_def)

lemma normalize_email_Inr:
  "normalize_email lower parse_address v = Inr e \<Longrightarrow>
   e = lower (trim_space v) \<and> parse_address e = Some e \<and> length e \<le> 254"
  by (auto simp: normalize_email_def Let_def split: option.splits if_splits)

lemma create_user_Inr:
  assumes "create_user lower parse_address bcrypt uuid input now = Inr u"
  shows "user_ok u \<and> u_active u \<and> u_version u = 1 \<and> u_role u = nu_role input
    \<and> validate_password (nu_password input) = Inr () \<and> bcrypt (nu_password input) = Inr (u_password_hash u)"
  using assms
  by (auto simp: create_user_def inv_defs Let_def trim_space_idem
      split: sum.splits if_splits dest: normalize_email_Inr)

lemma user_can_Inr: "user_can u p = Inr x \<longleftrightarrow> u_active u \<and> role_allows (u_role u) p"
  by (auto simp: user_can_def require_Inr)

section \<open>Sessions\<close>

record session =
  ss_id :: string
  ss_user_id :: string
  ss_token_hash :: string
  ss_expires_at :: time
  ss_revoked_at :: "time option"
  ss_last_seen_at :: time
  ss_created_at :: time

record issued_session =
  is_session :: session
  is_token :: string

text \<open>\<open>base64.RawURLEncoding\<close>: six bits per character, no padding.\<close>

definition base64_char :: "nat \<Rightarrow> char" where
  "base64_char n = (if n < 26 then char_of (65 + n) else if n < 52 then char_of (71 + n)
     else if n < 62 then char_of (n - 4) else if n = 62 then CHR ''-'' else CHR ''_'')"

fun base64_url :: "string \<Rightarrow> string" where
  "base64_url (a # b # c # s) =
     (let n = byte a * 65536 + byte b * 256 + byte c in
      base64_char (n div 262144) # base64_char (n div 4096 mod 64)
      # base64_char (n div 64 mod 64) # base64_char (n mod 64) # base64_url s)"
| "base64_url [a, b] =
     (let n = byte a * 1024 + byte b * 4 in
      [base64_char (n div 4096), base64_char (n div 64 mod 64), base64_char (n mod 64)])"
| "base64_url [a] = (let n = byte a * 16 in [base64_char (n div 64), base64_char (n mod 64)])"
| "base64_url [] = []"

definition hash_token :: "(string \<Rightarrow> string) \<Rightarrow> string \<Rightarrow> string" where
  "hash_token sha256 token = hex_encode (sha256 token)"

definition issue_session ::
    "(string \<Rightarrow> string) \<Rightarrow> string res \<Rightarrow> string \<Rightarrow> string \<Rightarrow> time \<Rightarrow> duration \<Rightarrow> issued_session res" where
  "issue_session sha256 random uuid user_id now ttl =
     (if blank user_id then Inl (new_fault Invalid ''missing_user'' ''session user is required'')
      else if ttl < minute \<or> 30 * 24 * hour < ttl then
        Inl (new_fault Invalid ''invalid_session_ttl'' ''session lifetime is outside policy'')
      else case random of
        Inl e \<Rightarrow> Inl (wrap_fault Internal ''token_generation_failed'' ''could not issue session''
          ''identity.IssueSession'' e)
      | Inr bytes \<Rightarrow>
          let token = base64_url bytes in
          Inr \<lparr>is_session = \<lparr>ss_id = uuid, ss_user_id = user_id, ss_token_hash = hash_token sha256 token,
                 ss_expires_at = time_add now ttl, ss_revoked_at = None, ss_last_seen_at = now,
                 ss_created_at = now\<rparr>,
               is_token = token\<rparr>)"

definition secure_hash_matches :: "(string \<Rightarrow> string) \<Rightarrow> string \<Rightarrow> string \<Rightarrow> bool" where
  "secure_hash_matches sha256 token expected_hash =
     (case hex_decode (hash_token sha256 token) of
        None \<Rightarrow> False
      | Some actual \<Rightarrow>
          (case hex_decode expected_hash of
             None \<Rightarrow> False
           | Some expected \<Rightarrow> if length actual \<noteq> length expected then False else actual = expected))"

definition session_validate :: "session \<Rightarrow> time \<Rightarrow> unit res" where
  "session_validate s now =
     (if ss_revoked_at s \<noteq> None then
        Inl (new_fault Unauthenticated ''session_revoked'' ''session has been revoked'')
      else if \<not> now < ss_expires_at s then
        Inl (new_fault Unauthenticated ''session_expired'' ''session has expired'')
      else Inr ())"

definition session_revoke :: "session \<Rightarrow> time \<Rightarrow> session" where
  "session_revoke s now = (if ss_revoked_at s = None then s\<lparr>ss_revoked_at := Some now\<rparr> else s)"

definition session_touch :: "session \<Rightarrow> time \<Rightarrow> duration \<Rightarrow> session \<times> bool" where
  "session_touch s now interval =
     (if time_sub now (ss_last_seen_at s) < interval then (s, False)
      else (s\<lparr>ss_last_seen_at := now\<rparr>, True))"

lemma secure_hash_matches_iff:
  "secure_hash_matches sha256 token h \<longleftrightarrow> hex_decode h = Some (sha256 token)"
  by (auto simp: secure_hash_matches_def hash_token_def split: option.split)

lemma session_validate_Inr: "session_validate s now = Inr u \<longleftrightarrow> ss_revoked_at s = None \<and> now < ss_expires_at s"
  by (auto simp: session_validate_def)

text \<open>A session is accepted from the instant it is issued until just before it expires.\<close>

lemma issued_session_valid:
  assumes "issue_session sha256 random uuid user_id now ttl = Inr i" "now \<le> t"
  shows "session_validate (is_session i) t = Inr () \<longleftrightarrow> t < now + ttl"
  using assms
  by (auto simp: issue_session_def session_validate_def time_add_def Let_def split: sum.splits if_splits)

lemma revoked_session_invalid:
  "session_validate (session_revoke s now) t = Inl (new_fault Unauthenticated ''session_revoked'' ''session has been revoked'')"
  by (auto simp: session_validate_def session_revoke_def)

lemma session_revoke_idem: "session_revoke (session_revoke s a) b = session_revoke s a"
  by (simp add: session_revoke_def)

lemma session_touch_frame:
  "session_touch s now i = (s', b) \<Longrightarrow> ss_id s' = ss_id s \<and> ss_expires_at s' = ss_expires_at s
     \<and> ss_revoked_at s' = ss_revoked_at s \<and> ss_token_hash s' = ss_token_hash s \<and> ss_user_id s' = ss_user_id s"
  by (auto simp: session_touch_def split: if_splits)

end
