(* ===== verification/Interfaces.thy ===== *)
theory Interfaces
  imports Prelude
begin

text \<open>
  The contracts several components share, stated once.

  \<open>machine\<close> is a state machine with an invariant its steps keep; \<open>lifecycle\<close> adds terminal
  states and a version that every step advances, as all entities with a \<open>Version\<close> column have;
  \<open>versioned_store\<close> is the conditional update \<open>UPDATE ... WHERE id = ? AND version = ?\<close> on
  which the program builds its optimistic concurrency control.
\<close>

section \<open>State machines with an invariant\<close>

locale machine =
  fixes init :: "'s \<Rightarrow> bool"
    and step :: "'s \<Rightarrow> 's \<Rightarrow> bool"
    and inv :: "'s \<Rightarrow> bool"
  assumes init_inv: "init s \<Longrightarrow> inv s"
    and step_inv: "inv s \<Longrightarrow> step s t \<Longrightarrow> inv t"
begin

lemma steps_inv: "step\<^sup>*\<^sup>* s t \<Longrightarrow> inv s \<Longrightarrow> inv t"
  by (induction rule: rtranclp_induct) (auto intro: step_inv)

lemma reachable_inv: "init s \<Longrightarrow> step\<^sup>*\<^sup>* s t \<Longrightarrow> inv t"
  by (blast intro: init_inv steps_inv)

end

locale lifecycle = machine +
  fixes version :: "'s \<Rightarrow> i64"
    and terminal :: "'s \<Rightarrow> bool"
  assumes step_version: "step s t \<Longrightarrow> version t = incr64 (version s)"
    and terminal_stuck: "terminal s \<Longrightarrow> \<not> step s t"
begin

lemma step_changes_version: "step s t \<Longrightarrow> version t \<noteq> version s"
  by (simp add: step_version)

lemma terminal_forever: "step\<^sup>*\<^sup>* s t \<Longrightarrow> terminal s \<Longrightarrow> t = s"
  by (induction rule: converse_rtranclp_induct) (auto simp: terminal_stuck)

text \<open>Before the counter wraps, the version counts the steps.\<close>

lemma relpowp_version:
  assumes "(step ^^ n) s t" "in_i64 (version s)" "version s + int n \<le> 9223372036854775807"
  shows "version t = version s + int n"
  using assms
proof (induction n arbitrary: t)
  case (Suc n)
  from Suc.prems(1) obtain u where u: "(step ^^ n) s u" "step u t" by auto
  with Suc have "version u = version s + int n" by simp
  with u(2) Suc.prems show ?case
    by (simp add: step_version incr64_def in_i64_def)
qed simp

end

section \<open>Conditional updates\<close>

locale versioned_store =
  fixes wf :: "'db \<Rightarrow> bool"
    and lookup :: "'db \<Rightarrow> 'k \<Rightarrow> 'r option"
    and update :: "'db \<Rightarrow> 'r \<Rightarrow> i64 \<Rightarrow> 'db option"
    and key :: "'r \<Rightarrow> 'k"
    and version :: "'r \<Rightarrow> i64"
  assumes update_wf: "wf db \<Longrightarrow> update db r e = Some db' \<Longrightarrow> wf db'"
    and update_expected: "wf db \<Longrightarrow> update db r e = Some db' \<Longrightarrow>
      \<exists>old. lookup db (key r) = Some old \<and> version old = e"
    and lookup_updated: "wf db \<Longrightarrow> update db r e = Some db' \<Longrightarrow>
      \<exists>new. lookup db' (key r) = Some new \<and> version new = version r"
    and lookup_other: "wf db \<Longrightarrow> update db r e = Some db' \<Longrightarrow> k \<noteq> key r \<Longrightarrow> lookup db' k = lookup db k"
begin

text \<open>Of two writers that read the same version, the second one to write is refused.\<close>

lemma second_writer_refused:
  assumes "wf db" "update db r e = Some db'" "version r \<noteq> e" "key r' = key r"
  shows "update db' r' e = None"
proof (cases "update db' r' e")
  case (Some db'')
  then obtain old where "lookup db' (key r') = Some old" "version old = e"
    using update_expected update_wf assms by blast
  with assms show ?thesis using lookup_updated [OF assms(1,2)] by auto
qed simp

text \<open>
  A run of conditional updates, the refused ones leaving the store as it is: of any number of
  writers that expect one version of one row, at most one is accepted.
\<close>

fun run_updates :: "'db \<Rightarrow> ('r \<times> i64) list \<Rightarrow> 'db \<times> bool list" where
  "run_updates db [] = (db, [])"
| "run_updates db ((r, e) # us) =
     (case update db r e of
        None \<Rightarrow> (let (db', bs) = run_updates db us in (db', False # bs))
      | Some db1 \<Rightarrow> (let (db', bs) = run_updates db1 us in (db', True # bs)))"

lemma stale_writers_refused:
  assumes "wf db" "lookup db k = Some old" "version old \<noteq> e"
    and "\<And>r e'. (r, e') \<in> set us \<Longrightarrow> key r = k \<and> e' = e"
  shows "run_updates db us = (db, replicate (length us) False)"
  using assms
proof (induction us)
  case (Cons u us)
  obtain r e' where u: "u = (r, e')" by force
  with Cons.prems(4) have ke: "key r = k" "e' = e" by auto
  have "update db r e = None"
  proof (cases "update db r e")
    case (Some db')
    from update_expected [OF Cons.prems(1) Some] ke(1) Cons.prems(2,3) show ?thesis by simp
  qed simp
  moreover have "run_updates db us = (db, replicate (length us) False)"
    by (rule Cons.IH [OF Cons.prems(1-3)]) (rule Cons.prems(4), simp)
  ultimately show ?case by (simp add: u ke)
qed simp

lemma one_writer_wins:
  assumes "wf db" "\<And>r e'. (r, e') \<in> set us \<Longrightarrow> key r = k \<and> e' = e \<and> version r \<noteq> e"
  shows "count_where id (snd (run_updates db us)) \<le> 1"
  using assms
proof (induction us)
  case (Cons u us)
  obtain r e' where u: "u = (r, e')" by force
  with Cons.prems have ke: "key r = k" "e' = e" "version r \<noteq> e" by auto
  show ?case
  proof (cases "update db r e")
    case None
    have "count_where id (snd (run_updates db us)) \<le> 1"
      by (rule Cons.IH [OF Cons.prems(1)]) (rule Cons.prems(2), simp)
    with None show ?thesis by (simp add: u ke split_beta id_def)
  next
    case (Some db1)
    from lookup_updated [OF Cons.prems(1) Some] ke obtain new
      where new: "lookup db1 k = Some new" "version new \<noteq> e" by auto
    have "run_updates db1 us = (db1, replicate (length us) False)"
    proof (rule stale_writers_refused [OF update_wf [OF Cons.prems(1) Some] new])
      fix r e' assume "(r, e') \<in> set us"
      with Cons.prems(2) [of r e'] show "key r = k \<and> e' = e" by simp
    qed
    moreover have "count_where id (replicate n False) = 0" for n by simp
    ultimately show ?thesis by (simp add: u ke Some split_beta)
  qed
qed simp

end

end
