(* ===== verification/Site.thy ===== *)
theory Site
  imports Fault Interfaces
begin

text \<open>
  \<open>internal/site\<close>: sites with their grid limit and reserved power (\<open>site.go\<close>), battery
  clusters (\<open>cluster.go\<close>) and the list filter (\<open>query.go\<close>).  The time-zone database is an
  argument: \<open>load_location zone\<close> is the error of \<open>time.LoadLocation\<close>, if any.
\<close>

section \<open>Sites\<close>

datatype site_status =
  StatusCommissioning | StatusActive | StatusSuspended | StatusRetired | StatusOther string

fun site_status_text :: "site_status \<Rightarrow> string" where
  "site_status_text StatusCommissioning = ''commissioning''"
| "site_status_text StatusActive = ''active''"
| "site_status_text StatusSuspended = ''suspended''"
| "site_status_text StatusRetired = ''retired''"
| "site_status_text (StatusOther s) = s"

record site =
  s_id :: string
  s_code :: string
  s_name :: string
  s_timezone :: string
  s_grid_limit :: i64
  s_reserved :: i64
  s_status :: site_status
  s_version :: i64
  s_created_at :: time
  s_updated_at :: time

record new_site =
  ns_code :: string
  ns_name :: string
  ns_timezone :: string
  ns_grid_limit :: i64

definition site_create ::
    "(string \<Rightarrow> go_error option) \<Rightarrow> string \<Rightarrow> new_site \<Rightarrow> time \<Rightarrow> site res" where
  "site_create load_location uuid input now =
     (let code = to_upper (trim_space (ns_code input)) in
      if \<not> code_pattern code then
        Inl (new_fault Invalid ''invalid_site_code''
          ''site code must use 3 to 32 uppercase letters, digits, or hyphens'')
      else let name = trim_space (ns_name input); size = rune_count name in
      if size < 2 \<or> 120 < size then
        Inl (new_fault Invalid ''invalid_site_name'' ''site name must contain 2 to 120 characters'')
      else let zone = trim_space (ns_timezone input) in
      case load_location zone of
        Some e \<Rightarrow> Inl (wrap_fault Invalid ''invalid_timezone'' ''site timezone is not recognized'' ''site.Create'' e)
      | None \<Rightarrow>
      if ns_grid_limit input < 10 \<or> 10000000 < ns_grid_limit input then
        Inl (new_fault Invalid ''invalid_grid_limit'' ''grid limit must be between 10 and 10000000 kW'')
      else Inr \<lparr>s_id = uuid, s_code = code, s_name = name, s_timezone = zone,
        s_grid_limit = ns_grid_limit input, s_reserved = 0, s_status = StatusCommissioning,
        s_version = 1, s_created_at = now, s_updated_at = now\<rparr>)"

definition available_kw :: "site \<Rightarrow> i64" where
  "available_kw s = (let value = wrap64 (s_grid_limit s - s_reserved s) in if value < 0 then 0 else value)"

definition can_accept_plans :: "site \<Rightarrow> unit res" where
  "can_accept_plans s =
     (if s_status s \<noteq> StatusActive then
        Inl (with_fields (new_fault Conflict ''site_not_active''
          ''site cannot accept dispatch plans in its current state'')
          [(''status'', site_status_text (s_status s))])
      else Inr ())"

definition site_reserve :: "site \<Rightarrow> i64 \<Rightarrow> time \<Rightarrow> site res" where
  "site_reserve s kw now =
     (case can_accept_plans s of Inl e \<Rightarrow> Inl e | Inr _ \<Rightarrow>
      if kw \<le> 0 then
        Inl (new_fault Invalid ''invalid_reservation_power'' ''reserved power must be positive'')
      else if available_kw s < kw then
        Inl (with_fields (new_fault Conflict ''grid_capacity_exceeded''
          ''requested power exceeds available grid capacity'')
          [(''requested_kw'', int_text kw), (''available_kw'', int_text (available_kw s))])
      else Inr (s\<lparr>s_reserved := wrap64 (s_reserved s + kw), s_version := incr64 (s_version s),
        s_updated_at := now\<rparr>))"

definition site_release :: "site \<Rightarrow> i64 \<Rightarrow> time \<Rightarrow> site res" where
  "site_release s kw now =
     (if kw \<le> 0 then
        Inl (new_fault Invalid ''invalid_release_power'' ''released power must be positive'')
      else if s_reserved s < kw then
        Inl (new_fault Conflict ''reservation_underflow'' ''released power exceeds current reservation'')
      else Inr (s\<lparr>s_reserved := wrap64 (s_reserved s - kw), s_version := incr64 (s_version s),
        s_updated_at := now\<rparr>))"

text \<open>The map \<open>allowed\<close> of \<open>Transition\<close>.\<close>

fun allowed_next :: "site_status \<Rightarrow> site_status list" where
  "allowed_next StatusCommissioning = [StatusActive, StatusRetired]"
| "allowed_next StatusActive = [StatusSuspended, StatusRetired]"
| "allowed_next StatusSuspended = [StatusActive, StatusRetired]"
| "allowed_next StatusRetired = []"
| "allowed_next (StatusOther s) = []"

definition site_transition :: "site \<Rightarrow> site_status \<Rightarrow> time \<Rightarrow> site res" where
  "site_transition s next now =
     (if next \<in> set (allowed_next (s_status s)) then
        if next = StatusRetired \<and> s_reserved s \<noteq> 0 then
          Inl (new_fault Conflict ''site_has_reservations'' ''site with active reservations cannot be retired'')
        else Inr (s\<lparr>s_status := next, s_version := incr64 (s_version s), s_updated_at := now\<rparr>)
      else
        Inl (with_fields (new_fault Conflict ''invalid_site_transition'' ''site status transition is not allowed'')
          [(''current'', site_status_text (s_status s)), (''next'', site_status_text next)]))"

definition local_time :: "(string \<Rightarrow> go_error option) \<Rightarrow> site \<Rightarrow> time \<Rightarrow> time res" where
  "local_time load_location s at =
     (case load_location (s_timezone s) of
        Some e \<Rightarrow> Inl (wrap_fault Internal ''timezone_unavailable'' ''site timezone could not be loaded''
          ''site.LocalTime'' e)
      | None \<Rightarrow> Inr at)"

subsection \<open>The invariant of a site\<close>

definition site_ok :: "site \<Rightarrow> bool" where
  [inv_defs]: "site_ok s \<longleftrightarrow> code_pattern (s_code s)
     \<and> 10 \<le> s_grid_limit s \<and> s_grid_limit s \<le> 10000000
     \<and> 0 \<le> s_reserved s \<and> s_reserved s \<le> s_grid_limit s
     \<and> s_status s \<in> {StatusCommissioning, StatusActive, StatusSuspended, StatusRetired}
     \<and> (s_status s = StatusRetired \<longrightarrow> s_reserved s = 0)"

lemma site_create_ok: "site_create load_location uuid input now = Inr s \<Longrightarrow>
    site_ok s \<and> s_version s = 1 \<and> s_status s = StatusCommissioning \<and> s_reserved s = 0"
  by (auto simp: site_create_def inv_defs Let_def split: if_splits option.splits)

lemma available_kw_ok: "site_ok s \<Longrightarrow> available_kw s = s_grid_limit s - s_reserved s"
  by (auto simp: available_kw_def inv_defs in_i64_def Let_def)

lemma site_reserve_Inr:
  assumes "site_ok s"
  shows "site_reserve s p now = Inr t \<longleftrightarrow>
    s_status s = StatusActive \<and> 0 < p \<and> s_reserved s + p \<le> s_grid_limit s
    \<and> t = s\<lparr>s_reserved := s_reserved s + p, s_version := incr64 (s_version s), s_updated_at := now\<rparr>"
proof -
  have "in_i64 (s_reserved s + p)" if "0 < p" "s_reserved s + p \<le> s_grid_limit s"
    using assms that by (auto simp: inv_defs in_i64_def)
  then show ?thesis
    using assms by (auto simp: site_reserve_def can_accept_plans_def available_kw_ok split: if_splits)
qed

lemma site_release_Inr:
  assumes "site_ok s"
  shows "site_release s p now = Inr t \<longleftrightarrow> 0 < p \<and> p \<le> s_reserved s
    \<and> t = s\<lparr>s_reserved := s_reserved s - p, s_version := incr64 (s_version s), s_updated_at := now\<rparr>"
proof -
  have "in_i64 (s_reserved s - p)" if "0 < p" "p \<le> s_reserved s"
    using assms that by (auto simp: inv_defs in_i64_def)
  then show ?thesis by (auto simp: site_release_def split: if_splits)
qed

lemma site_transition_Inr: "site_transition s next now = Inr t \<longleftrightarrow>
    next \<in> set (allowed_next (s_status s)) \<and> (next = StatusRetired \<longrightarrow> s_reserved s = 0)
    \<and> t = s\<lparr>s_status := next, s_version := incr64 (s_version s), s_updated_at := now\<rparr>"
  by (auto simp: site_transition_def)

subsection \<open>The lifecycle of a site\<close>

inductive site_step :: "site \<Rightarrow> site \<Rightarrow> bool" where
  reserve: "site_reserve s p now = Inr t \<Longrightarrow> site_step s t"
| release: "site_release s p now = Inr t \<Longrightarrow> site_step s t"
| transition: "site_transition s next now = Inr t \<Longrightarrow> site_step s t"

inductive_simps site_step_iff: "site_step s t"

definition site_init :: "site \<Rightarrow> bool" where
  "site_init s \<longleftrightarrow> (\<exists>load_location uuid input now. site_create load_location uuid input now = Inr s)"

lemma site_step_ok: "site_ok s \<Longrightarrow> site_step s t \<Longrightarrow> site_ok t"
  unfolding site_step_iff
  by (cases "s_status s") (auto simp: site_reserve_Inr site_release_Inr site_transition_Inr inv_defs)

lemma site_step_version: "site_step s t \<Longrightarrow> s_version t = incr64 (s_version s)"
  by (auto simp: site_step_iff site_reserve_def site_release_def site_transition_def can_accept_plans_def
      split: sum.splits if_splits)

text \<open>A retired site is left by no step: reserving needs an active site, releasing a reservation.\<close>

definition site_terminal :: "site \<Rightarrow> bool" where
  "site_terminal s \<longleftrightarrow> site_ok s \<and> s_status s = StatusRetired"

lemma site_terminal_stuck: "site_terminal s \<Longrightarrow> \<not> site_step s t"
  by (auto simp: site_terminal_def site_step_iff site_reserve_Inr site_release_Inr site_transition_Inr inv_defs)

interpretation site_life: lifecycle site_init site_step site_ok s_version site_terminal
  by unfold_locales
    (auto simp: site_init_def dest: site_create_ok intro: site_step_ok site_step_version
      site_terminal_stuck [THEN notE])

section \<open>Battery clusters\<close>

datatype cluster_status = ClusterAvailable | ClusterReserved | ClusterRunning | ClusterDegraded | ClusterOffline

fun cluster_status_text :: "cluster_status \<Rightarrow> string" where
  "cluster_status_text ClusterAvailable = ''available''"
| "cluster_status_text ClusterReserved = ''reserved''"
| "cluster_status_text ClusterRunning = ''running''"
| "cluster_status_text ClusterDegraded = ''degraded''"
| "cluster_status_text ClusterOffline = ''offline''"

record cluster =
  c_id :: string
  c_site_id :: string
  c_code :: string
  c_rated_kw :: i64
  c_capacity_kwh :: i64
  c_min_soc :: i64
  c_max_soc :: i64
  c_soc :: i64
  c_status :: cluster_status
  c_sequence :: i64
  c_telemetry_at :: "time option"
  c_version :: i64
  c_created_at :: time
  c_updated_at :: time

record operating_margin =
  om_below :: i64
  om_above :: i64
  om_within :: bool

definition cluster_margin :: "cluster \<Rightarrow> operating_margin" where
  "cluster_margin c =
     \<lparr>om_below = (if c_soc c < c_min_soc c then wrap64 (c_min_soc c - c_soc c) else 0),
      om_above = (if c_max_soc c < c_soc c then wrap64 (c_soc c - c_max_soc c) else 0),
      om_within = (c_min_soc c \<le> c_soc c \<and> c_soc c \<le> c_max_soc c)\<rparr>"

record new_cluster =
  nc_site_id :: string
  nc_code :: string
  nc_rated_kw :: i64
  nc_capacity_kwh :: i64
  nc_min_soc :: i64
  nc_max_soc :: i64
  nc_initial_soc :: i64

definition cluster_create :: "string \<Rightarrow> new_cluster \<Rightarrow> time \<Rightarrow> cluster res" where
  "cluster_create uuid input now =
     (if blank (nc_site_id input) then Inl (new_fault Invalid ''missing_site'' ''cluster site is required'')
      else let code = to_upper (trim_space (nc_code input)) in
      if \<not> code_pattern code then
        Inl (new_fault Invalid ''invalid_cluster_code''
          ''cluster code must use 3 to 32 uppercase letters, digits, or hyphens'')
      else if nc_rated_kw input < 1 \<or> 2000000 < nc_rated_kw input then
        Inl (new_fault Invalid ''invalid_rated_power'' ''rated power is outside supported range'')
      else if nc_capacity_kwh input < 1 \<or> 20000000 < nc_capacity_kwh input then
        Inl (new_fault Invalid ''invalid_capacity'' ''energy capacity is outside supported range'')
      else if nc_min_soc input < 0 \<or> 100 < nc_max_soc input \<or> nc_max_soc input \<le> nc_min_soc input then
        Inl (new_fault Invalid ''invalid_soc_window'' ''SOC window must be ordered within 0 to 100'')
      else if nc_initial_soc input < nc_min_soc input \<or> nc_max_soc input < nc_initial_soc input then
        Inl (new_fault Invalid ''initial_soc_outside_window'' ''initial SOC is outside operating window'')
      else Inr \<lparr>c_id = uuid, c_site_id = nc_site_id input, c_code = code,
        c_rated_kw = nc_rated_kw input, c_capacity_kwh = nc_capacity_kwh input,
        c_min_soc = nc_min_soc input, c_max_soc = nc_max_soc input, c_soc = nc_initial_soc input,
        c_status = ClusterAvailable, c_sequence = 0, c_telemetry_at = None, c_version = 1,
        c_created_at = now, c_updated_at = now\<rparr>)"

definition cluster_eligible :: "cluster \<Rightarrow> string \<Rightarrow> i64 \<Rightarrow> unit res" where
  "cluster_eligible c direction requested =
     (if c_status c \<noteq> ClusterAvailable then
        Inl (with_fields (new_fault Conflict ''cluster_unavailable'' ''battery cluster is not available'')
          [(''status'', cluster_status_text (c_status c))])
      else if requested \<le> 0 \<or> c_rated_kw c < requested then
        Inl (with_fields (new_fault Conflict ''cluster_power_exceeded'' ''requested power exceeds cluster rating'')
          [(''rated_kw'', int_text (c_rated_kw c))])
      else if direction = ''charge'' then
        if c_max_soc c \<le> c_soc c then
          Inl (new_fault Conflict ''cluster_soc_high'' ''cluster cannot charge above maximum SOC'')
        else Inr ()
      else if direction = ''discharge'' then
        if c_soc c \<le> c_min_soc c then
          Inl (new_fault Conflict ''cluster_soc_low'' ''cluster cannot discharge below minimum SOC'')
        else Inr ()
      else Inl (new_fault Invalid ''invalid_direction'' ''direction must be charge or discharge''))"

definition set_cluster_status :: "cluster_status \<Rightarrow> cluster \<Rightarrow> time \<Rightarrow> cluster" where
  "set_cluster_status st c now =
     c\<lparr>c_status := st, c_version := incr64 (c_version c), c_updated_at := now\<rparr>"

definition cluster_reserve :: "cluster \<Rightarrow> time \<Rightarrow> cluster res" where
  "cluster_reserve c now =
     (if c_status c \<noteq> ClusterAvailable then
        Inl (new_fault Conflict ''cluster_unavailable'' ''only available clusters can be reserved'')
      else Inr (set_cluster_status ClusterReserved c now))"

definition cluster_start :: "cluster \<Rightarrow> time \<Rightarrow> cluster res" where
  "cluster_start c now =
     (if c_status c \<noteq> ClusterReserved then
        Inl (new_fault Conflict ''cluster_not_reserved'' ''cluster must be reserved before execution'')
      else Inr (set_cluster_status ClusterRunning c now))"

definition cluster_release :: "cluster \<Rightarrow> time \<Rightarrow> cluster res" where
  "cluster_release c now =
     (if c_status c \<noteq> ClusterReserved \<and> c_status c \<noteq> ClusterRunning then
        Inl (new_fault Conflict ''cluster_not_held'' ''cluster is not held by a dispatch'')
      else Inr (set_cluster_status ClusterAvailable c now))"

definition cluster_apply_telemetry :: "cluster \<Rightarrow> i64 \<Rightarrow> i64 \<Rightarrow> time \<Rightarrow> time \<Rightarrow> cluster res" where
  "cluster_apply_telemetry c sequence soc observed now =
     (if sequence \<le> c_sequence c then
        Inl (new_fault Conflict ''telemetry_sequence_conflict'' ''telemetry sequence must increase'')
      else if time_add now (2 * minute) < observed \<or> observed < time_add now (- (24 * hour)) then
        Inl (new_fault Invalid ''telemetry_time_outside_window''
          ''telemetry observation time is outside the accepted window'')
      else if soc < 0 \<or> 100 < soc then
        Inl (new_fault Invalid ''invalid_soc'' ''SOC must be between 0 and 100'')
      else Inr (c\<lparr>c_sequence := sequence, c_soc := soc, c_telemetry_at := Some observed,
        c_version := incr64 (c_version c), c_updated_at := now\<rparr>))"

definition cluster_degrade :: "cluster \<Rightarrow> time \<Rightarrow> cluster" where
  "cluster_degrade c now = set_cluster_status ClusterDegraded c now"

definition cluster_recover :: "cluster \<Rightarrow> time \<Rightarrow> cluster res" where
  "cluster_recover c now =
     (if c_status c \<noteq> ClusterDegraded \<and> c_status c \<noteq> ClusterOffline then
        Inl (new_fault Conflict ''cluster_not_degraded'' ''only degraded or offline clusters can recover'')
      else if c_soc c < c_min_soc c \<or> c_max_soc c < c_soc c then
        Inl (new_fault Conflict ''soc_not_recovered'' ''SOC remains outside the operating window'')
      else Inr (set_cluster_status ClusterAvailable c now))"

subsection \<open>The invariant and the steps of a cluster\<close>

definition cluster_ok :: "cluster \<Rightarrow> bool" where
  [inv_defs]: "cluster_ok c \<longleftrightarrow> code_pattern (c_code c)
     \<and> 1 \<le> c_rated_kw c \<and> c_rated_kw c \<le> 2000000
     \<and> 1 \<le> c_capacity_kwh c \<and> c_capacity_kwh c \<le> 20000000
     \<and> 0 \<le> c_min_soc c \<and> c_min_soc c < c_max_soc c \<and> c_max_soc c \<le> 100
     \<and> 0 \<le> c_soc c \<and> c_soc c \<le> 100
     \<and> 0 \<le> c_sequence c \<and> (c_telemetry_at c = None \<longleftrightarrow> c_sequence c = 0)"

inductive cluster_step :: "cluster \<Rightarrow> cluster \<Rightarrow> bool" where
  reserve: "cluster_reserve c now = Inr d \<Longrightarrow> cluster_step c d"
| start: "cluster_start c now = Inr d \<Longrightarrow> cluster_step c d"
| release: "cluster_release c now = Inr d \<Longrightarrow> cluster_step c d"
| telemetry: "cluster_apply_telemetry c sequence soc observed now = Inr d \<Longrightarrow> cluster_step c d"
| degrade: "cluster_step c (cluster_degrade c now)"
| recover: "cluster_recover c now = Inr d \<Longrightarrow> cluster_step c d"

inductive_simps cluster_step_iff: "cluster_step c d"

definition cluster_init :: "cluster \<Rightarrow> bool" where
  "cluster_init c \<longleftrightarrow> (\<exists>uuid input now. cluster_create uuid input now = Inr c)"

lemmas cluster_op_defs = cluster_reserve_def cluster_start_def cluster_release_def
  cluster_apply_telemetry_def cluster_degrade_def cluster_recover_def set_cluster_status_def

lemma cluster_create_ok: "cluster_create uuid input now = Inr c \<Longrightarrow>
    cluster_ok c \<and> c_status c = ClusterAvailable \<and> c_version c = 1 \<and> c_min_soc c \<le> c_soc c \<and> c_soc c \<le> c_max_soc c"
  by (auto simp: cluster_create_def inv_defs Let_def split: if_splits)

lemma cluster_step_ok: "cluster_ok c \<Longrightarrow> cluster_step c d \<Longrightarrow> cluster_ok d"
  by (auto simp: cluster_step_iff cluster_op_defs inv_defs split: if_splits)

lemma cluster_step_version: "cluster_step c d \<Longrightarrow> c_version d = incr64 (c_version c)"
  by (auto simp: cluster_step_iff cluster_op_defs split: if_splits)

lemma cluster_step_sequence: "cluster_step c d \<Longrightarrow> c_sequence c \<le> c_sequence d"
  by (auto simp: cluster_step_iff cluster_op_defs split: if_splits)

interpretation cluster_life: lifecycle cluster_init cluster_step cluster_ok c_version "\<lambda>_. False"
  by unfold_locales (auto simp: cluster_init_def dest: cluster_create_ok intro: cluster_step_ok cluster_step_version)

lemma cluster_steps_sequence: "cluster_step\<^sup>*\<^sup>* c d \<Longrightarrow> c_sequence c \<le> c_sequence d"
  by (induction rule: rtranclp_induct) (auto dest: cluster_step_sequence)

text \<open>The margin of a well-formed cluster: the distance to the operating window, on one side at most.\<close>

lemma cluster_margin_ok:
  assumes "cluster_ok c"
  shows "cluster_margin c = \<lparr>om_below = max 0 (c_min_soc c - c_soc c),
    om_above = max 0 (c_soc c - c_max_soc c), om_within = (c_min_soc c \<le> c_soc c \<and> c_soc c \<le> c_max_soc c)\<rparr>"
  using assms by (auto simp: cluster_margin_def inv_defs in_i64_def max_def)

lemma cluster_eligible_Inr: "cluster_eligible c d p = Inr u \<longleftrightarrow>
    c_status c = ClusterAvailable \<and> 0 < p \<and> p \<le> c_rated_kw c
    \<and> (d = ''charge'' \<and> c_soc c < c_max_soc c \<or> d = ''discharge'' \<and> c_min_soc c < c_soc c)"
  by (auto simp: cluster_eligible_def)

lemma apply_telemetry_Inr: "cluster_apply_telemetry c q soc obs now = Inr d \<longleftrightarrow>
    c_sequence c < q \<and> obs \<le> now + 2 * minute \<and> now - 24 * hour \<le> obs \<and> 0 \<le> soc \<and> soc \<le> 100
    \<and> d = c\<lparr>c_sequence := q, c_soc := soc, c_telemetry_at := Some obs,
        c_version := incr64 (c_version c), c_updated_at := now\<rparr>"
  by (auto simp: cluster_apply_telemetry_def time_add_def)

section \<open>The list filter\<close>

text \<open>
  \<open>Status\<close> and \<open>Sort\<close> of a filter come from the query string, so they are texts; the empty
  text is an absent parameter.
\<close>

record site_filter =
  sf_status :: string
  sf_search :: string
  sf_sort :: string
  sf_limit :: i64
  sf_offset :: i64

definition site_sorts :: "string list" where
  "site_sorts = [''code_asc'', ''code_desc'', ''updated_newest'', ''updated_oldest'']"

definition site_status_names :: "string list" where
  "site_status_names = [''commissioning'', ''active'', ''suspended'', ''retired'']"

definition site_filter_normalize :: "site_filter \<Rightarrow> site_filter res" where
  "site_filter_normalize f =
     (let f = f\<lparr>sf_search := trim_space (sf_search f)\<rparr> in
      if 120 < length (sf_search f) then
        Inl (new_fault Invalid ''search_too_long'' ''search text cannot exceed 120 characters'')
      else let f = (if sf_limit f = 0 then f\<lparr>sf_limit := 50\<rparr> else f) in
      if sf_limit f < 1 \<or> 200 < sf_limit f then
        Inl (new_fault Invalid ''invalid_page_limit'' ''page limit must be between 1 and 200'')
      else if sf_offset f < 0 \<or> 1000000 < sf_offset f then
        Inl (new_fault Invalid ''invalid_page_offset'' ''page offset is outside supported range'')
      else let f = (if sf_sort f = '''' then f\<lparr>sf_sort := ''code_asc''\<rparr> else f) in
      if sf_sort f \<notin> set site_sorts then
        Inl (new_fault Invalid ''invalid_sort'' ''site sort option is not supported'')
      else if sf_status f \<noteq> '''' \<and> sf_status f \<notin> set site_status_names then
        Inl (new_fault Invalid ''invalid_site_status'' ''site status filter is not supported'')
      else Inr f)"

text \<open>The normal form of a filter, and that normalizing yields it and keeps it.\<close>

definition site_filter_normal :: "site_filter \<Rightarrow> bool" where
  [inv_defs]: "site_filter_normal f \<longleftrightarrow> trim_space (sf_search f) = sf_search f \<and> length (sf_search f) \<le> 120
     \<and> 1 \<le> sf_limit f \<and> sf_limit f \<le> 200 \<and> 0 \<le> sf_offset f \<and> sf_offset f \<le> 1000000
     \<and> sf_sort f \<in> set site_sorts \<and> (sf_status f = '''' \<or> sf_status f \<in> set site_status_names)"

lemma site_sorts_default [simp]: "''code_asc'' \<in> set site_sorts" "'''' \<notin> set site_sorts"
  by (simp_all add: site_sorts_def)

lemma site_filter_normalize_normal:
  assumes "site_filter_normalize f = Inr g"
  shows "site_filter_normal g"
proof (cases f)
  case (fields status search sort limit offset)
  then show ?thesis
    using assms by (auto simp: site_filter_normalize_def site_filter_normal_def Let_def trim_space_idem split: if_splits)
qed

lemma site_filter_normal_fixed: "site_filter_normal g \<Longrightarrow> site_filter_normalize g = Inr g"
  by (cases g) (auto simp: site_filter_normalize_def site_filter_normal_def Let_def)

lemma site_filter_normalize_idem:
  "site_filter_normalize f = Inr g \<Longrightarrow> site_filter_normalize g = Inr g"
  by (rule site_filter_normal_fixed, rule site_filter_normalize_normal)

end
