(* ===== verification/Clock.thy ===== *)
theory Clock
  imports Prelude
begin

text \<open>
  \<open>internal/clock\<close>: half-open time windows and the controllable clock.  The system clock is an
  input of the operations that read it: an operation that calls \<open>Now\<close> several times takes its
  readings as a function from the number of the call to the time it returned.
\<close>

record window =
  w_start :: time
  w_end :: time

definition new_window :: "time \<Rightarrow> time \<Rightarrow> window option" where
  "new_window start end = (if \<not> start < end then None else Some \<lparr>w_start = start, w_end = end\<rparr>)"

definition window_contains :: "window \<Rightarrow> time \<Rightarrow> bool" where
  "window_contains w at \<longleftrightarrow> \<not> at < w_start w \<and> at < w_end w"

definition window_overlaps :: "window \<Rightarrow> window \<Rightarrow> bool" where
  "window_overlaps w other \<longleftrightarrow> w_start w < w_end other \<and> w_start other < w_end w"

definition window_duration :: "window \<Rightarrow> duration" where
  "window_duration w = time_sub (w_end w) (w_start w)"

definition window_is_zero :: "window \<Rightarrow> bool" where
  "window_is_zero w \<longleftrightarrow> w_start w = 0 \<and> w_end w = 0"

definition window_ok :: "window \<Rightarrow> bool" where
  [inv_defs]: "window_ok w \<longleftrightarrow> w_start w < w_end w"

lemma new_window_Some [simp]:
  "new_window a b = Some w \<longleftrightarrow> a < b \<and> w = \<lparr>w_start = a, w_end = b\<rparr>"
  by (auto simp: new_window_def)

lemma new_window_None [simp]: "new_window a b = None \<longleftrightarrow> b \<le> a"
  by (auto simp: new_window_def)

lemma overlaps_sym: "window_overlaps v w \<longleftrightarrow> window_overlaps w v"
  by (auto simp: window_overlaps_def)

text \<open>Two proper windows overlap exactly when some instant lies in both.\<close>

lemma overlaps_iff_common_instant:
  assumes "window_ok v" "window_ok w"
  shows "window_overlaps v w \<longleftrightarrow> (\<exists>t. window_contains v t \<and> window_contains w t)"
proof
  assume "window_overlaps v w"
  with assms have "window_contains v (max (w_start v) (w_start w))
      \<and> window_contains w (max (w_start v) (w_start w))"
    by (auto simp: window_overlaps_def window_contains_def window_ok_def)
  then show "\<exists>t. window_contains v t \<and> window_contains w t" by blast
qed (auto simp: window_overlaps_def window_contains_def)

section \<open>The manual clock\<close>

record manual_clock =
  mc_now :: time

definition new_manual :: "time \<Rightarrow> manual_clock" where
  "new_manual now = \<lparr>mc_now = now\<rparr>"

definition manual_now :: "manual_clock \<Rightarrow> time" where
  "manual_now m = mc_now m"

definition manual_set :: "time \<Rightarrow> manual_clock \<Rightarrow> manual_clock" where
  "manual_set now m = m\<lparr>mc_now := now\<rparr>"

definition manual_advance :: "duration \<Rightarrow> manual_clock \<Rightarrow> manual_clock \<times> time" where
  "manual_advance d m = (let m' = m\<lparr>mc_now := time_add (mc_now m) d\<rparr> in (m', mc_now m'))"

lemma manual_advance_now: "manual_advance d m = (m', t) \<Longrightarrow> t = manual_now m' \<and> t = manual_now m + d"
  by (auto simp: manual_advance_def manual_now_def time_add_def Let_def)

end
