(* ===== verification/Plan.thy ===== *)
theory Plan
  imports Fault Clock Interfaces
begin

text \<open>
  \<open>internal/dispatch/plan.go\<close> and \<open>query.go\<close>: dispatch plans, their approval by a second
  person, their lifecycle and the list filter.  A UUID is an argument of the constructor.
\<close>

datatype direction = Charge | Discharge | DirectionOther string

fun direction_text :: "direction \<Rightarrow> string" where
  "direction_text Charge = ''charge''"
| "direction_text Discharge = ''discharge''"
| "direction_text (DirectionOther s) = s"

datatype plan_status =
    PlanDraft | PlanSubmitted | PlanApproved | PlanDispatched | PlanRunning
  | PlanCompleted | PlanFailed | PlanCancelled

fun plan_status_text :: "plan_status \<Rightarrow> string" where
  "plan_status_text PlanDraft = ''draft''"
| "plan_status_text PlanSubmitted = ''submitted''"
| "plan_status_text PlanApproved = ''approved''"
| "plan_status_text PlanDispatched = ''dispatched''"
| "plan_status_text PlanRunning = ''running''"
| "plan_status_text PlanCompleted = ''completed''"
| "plan_status_text PlanFailed = ''failed''"
| "plan_status_text PlanCancelled = ''cancelled''"

record plan =
  p_id :: string
  p_site_id :: string
  p_name :: string
  p_direction :: direction
  p_requested_kw :: i64
  p_target_kwh :: i64
  p_window :: window
  p_status :: plan_status
  p_created_by :: string
  p_approved_by :: string
  p_approved_at :: "time option"
  p_version :: i64
  p_created_at :: time
  p_updated_at :: time

record new_plan =
  np_site_id :: string
  np_name :: string
  np_direction :: direction
  np_requested_kw :: i64
  np_target_kwh :: i64
  np_starts_at :: time
  np_ends_at :: time
  np_created_by :: string

definition plan_transition_error :: "plan_status \<Rightarrow> plan_status \<Rightarrow> go_error" where
  "plan_transition_error current next =
     with_fields (new_fault Conflict ''invalid_plan_transition'' ''dispatch plan transition is not allowed'')
       [(''current'', plan_status_text current), (''next'', plan_status_text next)]"

definition plan_name_error :: go_error where
  "plan_name_error = new_fault Invalid ''invalid_plan_name'' ''plan name must contain 3 to 120 characters''"

text \<open>\<open>RequestedKW * int64(Duration/time.Minute) / 60\<close>, in 64 bits.\<close>

definition maximum_energy :: "i64 \<Rightarrow> window \<Rightarrow> i64" where
  "maximum_energy requested w = go_div (wrap64 (requested * go_div (window_duration w) minute)) 60"

definition plan_create :: "string \<Rightarrow> new_plan \<Rightarrow> time \<Rightarrow> plan res" where
  "plan_create uuid input now =
     (if blank (np_site_id input) \<or> blank (np_created_by input) then
        Inl (new_fault Invalid ''missing_plan_owner'' ''site and creator are required'')
      else let name = trim_space (np_name input); size = rune_count name in
      if size < 3 \<or> 120 < size then Inl plan_name_error
      else if np_direction input \<noteq> Charge \<and> np_direction input \<noteq> Discharge then
        Inl (new_fault Invalid ''invalid_direction'' ''direction must be charge or discharge'')
      else if np_requested_kw input \<le> 0 \<or> 10000000 < np_requested_kw input then
        Inl (new_fault Invalid ''invalid_requested_power'' ''requested power is outside supported range'')
      else if np_target_kwh input \<le> 0 \<or> 100000000 < np_target_kwh input then
        Inl (new_fault Invalid ''invalid_target_energy'' ''target energy is outside supported range'')
      else case new_window (np_starts_at input) (np_ends_at input) of
        None \<Rightarrow> Inl (new_fault Invalid ''invalid_plan_window'' ''plan end must follow its start'')
      | Some w \<Rightarrow>
      if w_start w < time_add now (- minute) then
        Inl (new_fault Invalid ''plan_starts_in_past'' ''plan cannot start in the past'')
      else if window_duration w < minute \<or> 7 * 24 * hour < window_duration w then
        Inl (new_fault Invalid ''invalid_plan_duration'' ''plan duration must be between one minute and seven days'')
      else let maximum = maximum_energy (np_requested_kw input) w in
      if maximum \<le> 0 \<or> maximum < np_target_kwh input then
        Inl (with_fields (new_fault Invalid ''target_energy_unreachable''
          ''target energy cannot be delivered in the requested window'')
          [(''maximum_kwh'', int_text maximum)])
      else Inr \<lparr>p_id = uuid, p_site_id = np_site_id input, p_name = name,
        p_direction = np_direction input, p_requested_kw = np_requested_kw input,
        p_target_kwh = np_target_kwh input, p_window = w, p_status = PlanDraft,
        p_created_by = np_created_by input, p_approved_by = '''', p_approved_at = None,
        p_version = 1, p_created_at = now, p_updated_at = now\<rparr>)"

definition plan_editable_by :: "plan \<Rightarrow> string \<Rightarrow> unit res" where
  "plan_editable_by p actor =
     (if p_status p \<noteq> PlanDraft then
        Inl (new_fault Conflict ''plan_not_editable'' ''only draft plans can be edited'')
      else if actor \<noteq> p_created_by p then
        Inl (new_fault Forbidden ''plan_owner_required'' ''only the plan creator can edit this draft'')
      else Inr ())"

definition plan_rename :: "plan \<Rightarrow> string \<Rightarrow> string \<Rightarrow> time \<Rightarrow> plan res" where
  "plan_rename p actor name now =
     (case plan_editable_by p actor of Inl e \<Rightarrow> Inl e | Inr _ \<Rightarrow>
      let name = trim_space name; size = rune_count name in
      if size < 3 \<or> 120 < size then Inl plan_name_error
      else Inr (p\<lparr>p_name := name, p_version := incr64 (p_version p), p_updated_at := now\<rparr>))"

text \<open>The common tail of the transitions: new status, next version, time of the change.\<close>

definition set_plan_status :: "plan_status \<Rightarrow> plan \<Rightarrow> time \<Rightarrow> plan" where
  "set_plan_status st p now = p\<lparr>p_status := st, p_version := incr64 (p_version p), p_updated_at := now\<rparr>"

definition plan_submit :: "plan \<Rightarrow> i64 \<Rightarrow> i64 \<Rightarrow> time \<Rightarrow> plan res" where
  "plan_submit p cluster_count reserved now =
     (if p_status p \<noteq> PlanDraft then Inl (plan_transition_error (p_status p) PlanSubmitted)
      else if cluster_count \<le> 0 then
        Inl (new_fault Conflict ''plan_has_no_clusters'' ''plan needs at least one battery cluster'')
      else if reserved \<noteq> p_requested_kw p then
        Inl (with_fields (new_fault Conflict ''reservation_power_mismatch''
          ''cluster reservations must cover requested power exactly'')
          [(''requested_kw'', int_text (p_requested_kw p)), (''reserved_kw'', int_text reserved)])
      else Inr (set_plan_status PlanSubmitted p now))"

definition plan_approve :: "plan \<Rightarrow> string \<Rightarrow> i64 \<Rightarrow> time \<Rightarrow> plan res" where
  "plan_approve p actor expected now =
     (if p_version p \<noteq> expected then Inl err_version_conflict
      else if p_status p \<noteq> PlanSubmitted then Inl (plan_transition_error (p_status p) PlanApproved)
      else if actor = p_created_by p then
        Inl (new_fault Forbidden ''four_eyes_required'' ''plan creator cannot approve the same plan'')
      else Inr (p\<lparr>p_status := PlanApproved, p_approved_by := actor, p_approved_at := Some now,
        p_version := incr64 (p_version p), p_updated_at := now\<rparr>))"

definition plan_dispatch :: "plan \<Rightarrow> i64 \<Rightarrow> i64 \<Rightarrow> time \<Rightarrow> plan res" where
  "plan_dispatch p job_count reservation_count now =
     (if p_status p \<noteq> PlanApproved then Inl (plan_transition_error (p_status p) PlanDispatched)
      else if job_count = 0 \<or> job_count \<noteq> reservation_count then
        Inl (new_fault Conflict ''execution_job_mismatch'' ''each reservation needs exactly one execution job'')
      else Inr (set_plan_status PlanDispatched p now))"

definition plan_start :: "plan \<Rightarrow> i64 \<Rightarrow> i64 \<Rightarrow> time \<Rightarrow> plan res" where
  "plan_start p successful total_jobs now =
     (if p_status p \<noteq> PlanDispatched then Inl (plan_transition_error (p_status p) PlanRunning)
      else if total_jobs \<le> 0 \<or> successful \<noteq> total_jobs then
        Inl (new_fault Conflict ''jobs_not_started'' ''all execution jobs must start successfully'')
      else Inr (set_plan_status PlanRunning p now))"

definition plan_complete :: "plan \<Rightarrow> i64 \<Rightarrow> i64 \<Rightarrow> i64 \<Rightarrow> time \<Rightarrow> plan res" where
  "plan_complete p actual_wh total_jobs successful now =
     (if p_status p \<noteq> PlanRunning \<and> p_status p \<noteq> PlanDispatched then
        Inl (plan_transition_error (p_status p) PlanCompleted)
      else if total_jobs \<le> 0 \<or> successful \<noteq> total_jobs then
        Inl (new_fault Conflict ''execution_incomplete'' ''all execution jobs must succeed before completion'')
      else if actual_wh \<le> 0 then
        Inl (new_fault Conflict ''energy_not_recorded'' ''positive executed energy is required before completion'')
      else Inr (set_plan_status PlanCompleted p now))"

definition plan_fail :: "plan \<Rightarrow> string \<Rightarrow> time \<Rightarrow> plan res" where
  "plan_fail p reason now =
     (if p_status p \<noteq> PlanDispatched \<and> p_status p \<noteq> PlanRunning then
        Inl (plan_transition_error (p_status p) PlanFailed)
      else if blank reason then
        Inl (new_fault Invalid ''failure_reason_required'' ''failure reason is required'')
      else Inr (set_plan_status PlanFailed p now))"

definition plan_cancel :: "plan \<Rightarrow> time \<Rightarrow> plan res" where
  "plan_cancel p now =
     (case p_status p of
        PlanDraft \<Rightarrow> Inr (set_plan_status PlanCancelled p now)
      | PlanSubmitted \<Rightarrow> Inr (set_plan_status PlanCancelled p now)
      | PlanApproved \<Rightarrow> Inr (set_plan_status PlanCancelled p now)
      | _ \<Rightarrow> Inl (plan_transition_error (p_status p) PlanCancelled))"

definition plan_is_terminal :: "plan \<Rightarrow> bool" where
  "plan_is_terminal p \<longleftrightarrow>
     p_status p = PlanCompleted \<or> p_status p = PlanFailed \<or> p_status p = PlanCancelled"

section \<open>The invariant of a plan\<close>

text \<open>
  A plan can deliver its target energy in its window at its requested power, lasts between a
  minute and a week, and carries an approval by somebody other than its creator as soon as it
  has an approval time, which every status from \<open>PlanApproved\<close> to \<open>PlanFailed\<close> requires.
\<close>

definition plan_ok :: "plan \<Rightarrow> bool" where
  [inv_defs]: "plan_ok p \<longleftrightarrow>
     3 \<le> rune_count (p_name p) \<and> rune_count (p_name p) \<le> 120
     \<and> p_direction p \<in> {Charge, Discharge}
     \<and> 0 < p_requested_kw p \<and> p_requested_kw p \<le> 10000000
     \<and> 0 < p_target_kwh p \<and> p_target_kwh p \<le> 100000000
     \<and> minute \<le> w_end (p_window p) - w_start (p_window p)
     \<and> w_end (p_window p) - w_start (p_window p) \<le> 7 * 24 * hour
     \<and> p_target_kwh p \<le> p_requested_kw p * ((w_end (p_window p) - w_start (p_window p)) div minute) div 60
     \<and> (p_approved_at p = None \<longrightarrow> p_approved_by p = '''')
     \<and> (p_approved_at p \<noteq> None \<longrightarrow> p_approved_by p \<noteq> p_created_by p)
     \<and> (p_status p \<in> {PlanApproved, PlanDispatched, PlanRunning, PlanCompleted, PlanFailed}
        \<longrightarrow> p_approved_at p \<noteq> None)
     \<and> (p_status p \<in> {PlanDraft, PlanSubmitted} \<longrightarrow> p_approved_at p = None)"

lemma maximum_energy_exact:
  assumes "0 < kw" "kw \<le> 10000000" "0 \<le> w_end w - w_start w" "w_end w - w_start w \<le> 7 * 24 * hour"
  shows "maximum_energy kw w = kw * ((w_end w - w_start w) div minute) div 60"
proof -
  let ?d = "w_end w - w_start w"
  let ?m = "?d div minute"
  have m: "0 \<le> ?m" "?m \<le> 10080" using assms by auto
  then have "0 \<le> kw * ?m" "kw * ?m \<le> 10000000 * 10080"
    using assms mult_mono [of kw 10000000 ?m 10080] by auto
  then have "in_i64 (kw * ?m)" by (simp add: in_i64_def)
  moreover have "window_duration w = ?d"
    using assms by (simp add: window_duration_def time_sub_exact in_i64_def)
  ultimately show ?thesis
    using assms m \<open>0 \<le> kw * ?m\<close> by (simp add: maximum_energy_def go_div_nonneg)
qed

lemma window_duration_range:
  "minute \<le> window_duration w \<Longrightarrow> window_duration w \<le> 7 * 24 * hour \<Longrightarrow>
   minute \<le> w_end w - w_start w \<and> w_end w - w_start w \<le> 7 * 24 * hour"
  by (simp add: window_duration_def time_sub_ge_iff time_sub_le_iff in_i64_def)

lemma plan_create_fields:
  assumes "plan_create uuid input now = Inr p"
  shows "p_status p = PlanDraft \<and> p_version p = 1 \<and> p_approved_by p = '''' \<and> p_approved_at p = None
    \<and> p_created_by p = np_created_by input \<and> \<not> blank (p_created_by p) \<and> p_site_id p = np_site_id input
    \<and> now - minute \<le> w_start (p_window p) \<and> p_id p = uuid
    \<and> 3 \<le> rune_count (p_name p) \<and> rune_count (p_name p) \<le> 120
    \<and> p_direction p \<in> {Charge, Discharge} \<and> 0 < p_target_kwh p \<and> p_target_kwh p \<le> 100000000"
  using assms
  by (auto simp: plan_create_def Let_def time_add_def split: if_splits option.splits)

lemma plan_create_ok:
  assumes "plan_create uuid input now = Inr p"
  shows "plan_ok p"
proof -
  let ?w = "p_window p" and ?kw = "p_requested_kw p"
  from assms have dur: "minute \<le> window_duration ?w" "window_duration ?w \<le> 7 * 24 * hour"
    and kw: "0 < ?kw" "?kw \<le> 10000000"
    and energy: "p_target_kwh p \<le> maximum_energy ?kw ?w"
    by (auto simp: plan_create_def Let_def split: if_splits option.splits)
  note range = window_duration_range [OF dur]
  with kw have "maximum_energy ?kw ?w = ?kw * ((w_end ?w - w_start ?w) div minute) div 60"
    by (intro maximum_energy_exact) auto
  with energy range kw show ?thesis
    using plan_create_fields [OF assms] by (simp add: plan_ok_def)
qed

section \<open>The lifecycle of a plan\<close>

inductive plan_step :: "plan \<Rightarrow> plan \<Rightarrow> bool" where
  rename: "plan_rename p actor name now = Inr q \<Longrightarrow> plan_step p q"
| submit: "plan_submit p n kw now = Inr q \<Longrightarrow> plan_step p q"
| approve: "plan_approve p actor expected now = Inr q \<Longrightarrow> plan_step p q"
| dispatch: "plan_dispatch p jobs reservations now = Inr q \<Longrightarrow> plan_step p q"
| start: "plan_start p good all_jobs now = Inr q \<Longrightarrow> plan_step p q"
| complete: "plan_complete p wh all_jobs good now = Inr q \<Longrightarrow> plan_step p q"
| fail: "plan_fail p reason now = Inr q \<Longrightarrow> plan_step p q"
| cancel: "plan_cancel p now = Inr q \<Longrightarrow> plan_step p q"

inductive_simps plan_step_iff: "plan_step p q"

definition plan_init :: "plan \<Rightarrow> bool" where
  "plan_init p \<longleftrightarrow> (\<exists>uuid input now. plan_create uuid input now = Inr p)"

text \<open>Each operation, when it succeeds, is one of three shapes of change.\<close>

lemma plan_rename_Inr: "plan_rename p a n now = Inr q \<longleftrightarrow>
    p_status p = PlanDraft \<and> a = p_created_by p
    \<and> 3 \<le> rune_count (trim_space n) \<and> rune_count (trim_space n) \<le> 120
    \<and> q = p\<lparr>p_name := trim_space n, p_version := incr64 (p_version p), p_updated_at := now\<rparr>"
  by (auto simp: plan_rename_def plan_editable_by_def Let_def)

lemma plan_submit_Inr: "plan_submit p n kw now = Inr q \<longleftrightarrow>
    p_status p = PlanDraft \<and> 0 < n \<and> kw = p_requested_kw p \<and> q = set_plan_status PlanSubmitted p now"
  by (auto simp: plan_submit_def)

lemma plan_approve_Inr: "plan_approve p a v now = Inr q \<longleftrightarrow>
    p_version p = v \<and> p_status p = PlanSubmitted \<and> a \<noteq> p_created_by p
    \<and> q = p\<lparr>p_status := PlanApproved, p_approved_by := a, p_approved_at := Some now,
        p_version := incr64 (p_version p), p_updated_at := now\<rparr>"
  by (auto simp: plan_approve_def)

lemma plan_dispatch_Inr: "plan_dispatch p j r now = Inr q \<longleftrightarrow>
    p_status p = PlanApproved \<and> j \<noteq> 0 \<and> j = r \<and> q = set_plan_status PlanDispatched p now"
  by (auto simp: plan_dispatch_def)

lemma plan_start_Inr: "plan_start p g t now = Inr q \<longleftrightarrow>
    p_status p = PlanDispatched \<and> 0 < t \<and> g = t \<and> q = set_plan_status PlanRunning p now"
  by (auto simp: plan_start_def)

lemma plan_complete_Inr: "plan_complete p wh t g now = Inr q \<longleftrightarrow>
    p_status p \<in> {PlanRunning, PlanDispatched} \<and> 0 < t \<and> g = t \<and> 0 < wh
    \<and> q = set_plan_status PlanCompleted p now"
  by (auto simp: plan_complete_def)

lemma plan_fail_Inr: "plan_fail p r now = Inr q \<longleftrightarrow>
    p_status p \<in> {PlanRunning, PlanDispatched} \<and> \<not> blank r \<and> q = set_plan_status PlanFailed p now"
  by (auto simp: plan_fail_def)

lemma plan_cancel_Inr: "plan_cancel p now = Inr q \<longleftrightarrow>
    p_status p \<in> {PlanDraft, PlanSubmitted, PlanApproved} \<and> q = set_plan_status PlanCancelled p now"
  by (cases "p_status p") (auto simp: plan_cancel_def)

lemmas plan_step_simps = plan_step_iff plan_rename_Inr plan_submit_Inr plan_approve_Inr plan_dispatch_Inr
  plan_start_Inr plan_complete_Inr plan_fail_Inr plan_cancel_Inr

text \<open>
  The frame of the invariant: everything in it but the status and the approval is unchanged by
  a step, except the name, whose new length was checked.
\<close>

lemma plan_ok_status:
  assumes "plan_ok p" "p_status p \<notin> {PlanDraft, PlanSubmitted} \<or> st = PlanSubmitted \<or> st = PlanCancelled"
    and "st \<in> {PlanSubmitted} \<Longrightarrow> p_status p = PlanDraft" "st \<noteq> PlanDraft"
    and "p_status p = PlanCancelled \<Longrightarrow> st = PlanCancelled"
  shows "plan_ok (set_plan_status st p now)"
  using assms by (cases "p_status p"; cases st) (auto simp: inv_defs set_plan_status_def)

lemma plan_step_ok: "plan_ok p \<Longrightarrow> plan_step p q \<Longrightarrow> plan_ok q"
  unfolding plan_step_simps by (auto intro: plan_ok_status) (auto simp: inv_defs)

lemma plan_step_version: "plan_step p q \<Longrightarrow> p_version q = incr64 (p_version p)"
  unfolding plan_step_simps by (auto simp: set_plan_status_def)

lemma plan_step_frame: "plan_step p q \<Longrightarrow> p_id q = p_id p \<and> p_site_id q = p_site_id p
    \<and> p_created_by q = p_created_by p \<and> p_requested_kw q = p_requested_kw p
    \<and> p_target_kwh q = p_target_kwh p \<and> p_window q = p_window p \<and> p_direction q = p_direction p"
  unfolding plan_step_simps by (auto simp: set_plan_status_def)

lemma plan_terminal_stuck: "plan_is_terminal p \<Longrightarrow> \<not> plan_step p q"
  unfolding plan_step_simps by (auto simp: plan_is_terminal_def)

interpretation plan_life: lifecycle plan_init plan_step plan_ok p_version plan_is_terminal
  by unfold_locales
    (auto simp: plan_init_def dest: plan_create_ok intro: plan_step_ok plan_step_version
      plan_terminal_stuck [THEN notE])


section \<open>The list filter\<close>

record plan_filter =
  pf_site_id :: string
  pf_status :: string
  pf_from :: "time option"
  pf_until :: "time option"
  pf_search :: string
  pf_limit :: i64
  pf_offset :: i64
  pf_newest :: bool

definition plan_status_names :: "string list" where
  "plan_status_names = map plan_status_text
     [PlanDraft, PlanSubmitted, PlanApproved, PlanDispatched, PlanRunning, PlanCompleted, PlanFailed, PlanCancelled]"

definition empty_window :: "time option \<Rightarrow> time option \<Rightarrow> bool" where
  "empty_window from until = (case (from, until) of (Some f, Some u) \<Rightarrow> \<not> f < u | _ \<Rightarrow> False)"

definition plan_filter_normalize :: "plan_filter \<Rightarrow> plan_filter res" where
  "plan_filter_normalize f =
     (let f = f\<lparr>pf_site_id := trim_space (pf_site_id f), pf_search := trim_space (pf_search f)\<rparr> in
      if 120 < length (pf_search f) then
        Inl (new_fault Invalid ''search_too_long'' ''search text cannot exceed 120 characters'')
      else let f = (if pf_limit f = 0 then f\<lparr>pf_limit := 50\<rparr> else f) in
      if pf_limit f < 1 \<or> 200 < pf_limit f then
        Inl (new_fault Invalid ''invalid_page_limit'' ''page limit must be between 1 and 200'')
      else if pf_offset f < 0 \<or> 1000000 < pf_offset f then
        Inl (new_fault Invalid ''invalid_page_offset'' ''page offset is outside supported range'')
      else if empty_window (pf_from f) (pf_until f) then
        Inl (new_fault Invalid ''invalid_filter_window'' ''filter end must follow its start'')
      else if pf_status f \<noteq> '''' \<and> pf_status f \<notin> set plan_status_names then
        Inl (new_fault Invalid ''invalid_plan_status'' ''plan status filter is not supported'')
      else Inr f)"

definition plan_filter_normal :: "plan_filter \<Rightarrow> bool" where
  [inv_defs]: "plan_filter_normal f \<longleftrightarrow> trim_space (pf_site_id f) = pf_site_id f
     \<and> trim_space (pf_search f) = pf_search f \<and> length (pf_search f) \<le> 120
     \<and> 1 \<le> pf_limit f \<and> pf_limit f \<le> 200 \<and> 0 \<le> pf_offset f \<and> pf_offset f \<le> 1000000
     \<and> \<not> empty_window (pf_from f) (pf_until f)
     \<and> (pf_status f = '''' \<or> pf_status f \<in> set plan_status_names)"

lemma plan_filter_normalize_normal:
  assumes "plan_filter_normalize f = Inr g"
  shows "plan_filter_normal g"
  using assms by (cases f) (auto simp: plan_filter_normalize_def plan_filter_normal_def Let_def
      trim_space_idem split: if_splits)

lemma plan_filter_normal_fixed: "plan_filter_normal g \<Longrightarrow> plan_filter_normalize g = Inr g"
  by (cases g) (auto simp: plan_filter_normalize_def plan_filter_normal_def Let_def)
end
