(* ===== verification/Reservation.thy ===== *)
theory Reservation
  imports Fault Clock Interfaces "HOL-Library.Multiset"
begin

text \<open>
  \<open>internal/dispatch/reservation.go\<close>: capacity reservations of a cluster for a plan's window,
  and \<open>AllocatePower\<close>, which splits a requested power over clusters.
\<close>

section \<open>Reservations\<close>

datatype reservation_status = ReservationHeld | ReservationConsumed | ReservationReleased

record reservation =
  r_id :: string
  r_plan_id :: string
  r_cluster_id :: string
  r_kw :: i64
  r_window :: window
  r_status :: reservation_status
  r_created_at :: time
  r_updated_at :: time

definition new_reservation ::
    "string \<Rightarrow> string \<Rightarrow> string \<Rightarrow> i64 \<Rightarrow> window \<Rightarrow> time \<Rightarrow> reservation res" where
  "new_reservation uuid plan_id cluster_id kw w now =
     (if blank plan_id \<or> blank cluster_id then
        Inl (new_fault Invalid ''missing_reservation_owner'' ''plan and cluster are required'')
      else if kw \<le> 0 then
        Inl (new_fault Invalid ''invalid_reservation_power'' ''reserved power must be positive'')
      else if window_is_zero w \<or> \<not> w_start w < w_end w then
        Inl (new_fault Invalid ''invalid_reservation_window'' ''reservation window is invalid'')
      else Inr \<lparr>r_id = uuid, r_plan_id = plan_id, r_cluster_id = cluster_id, r_kw = kw, r_window = w,
        r_status = ReservationHeld, r_created_at = now, r_updated_at = now\<rparr>)"

definition reservation_conflicts :: "reservation \<Rightarrow> reservation \<Rightarrow> bool" where
  "reservation_conflicts r other =
     (if r_cluster_id r \<noteq> r_cluster_id other then False
      else if r_status r = ReservationReleased \<or> r_status other = ReservationReleased then False
      else window_overlaps (r_window r) (r_window other))"

definition reservation_consume :: "reservation \<Rightarrow> time \<Rightarrow> reservation res" where
  "reservation_consume r now =
     (if r_status r \<noteq> ReservationHeld then
        Inl (new_fault Conflict ''reservation_not_held'' ''only held reservations can be consumed'')
      else Inr (r\<lparr>r_status := ReservationConsumed, r_updated_at := now\<rparr>))"

definition reservation_release :: "reservation \<Rightarrow> time \<Rightarrow> reservation res" where
  "reservation_release r now =
     (if r_status r = ReservationReleased then Inr r
      else if r_status r \<noteq> ReservationHeld \<and> r_status r \<noteq> ReservationConsumed then
        Inl (new_fault Conflict ''reservation_not_releasable'' ''reservation cannot be released'')
      else Inr (r\<lparr>r_status := ReservationReleased, r_updated_at := now\<rparr>))"

definition reservation_ok :: "reservation \<Rightarrow> bool" where
  [inv_defs]: "reservation_ok r \<longleftrightarrow> 0 < r_kw r \<and> window_ok (r_window r)
     \<and> \<not> blank (r_plan_id r) \<and> \<not> blank (r_cluster_id r)"

lemma new_reservation_Inr: "new_reservation uuid p c kw w now = Inr r \<longleftrightarrow>
    \<not> blank p \<and> \<not> blank c \<and> 0 < kw \<and> window_ok w \<and>
    r = \<lparr>r_id = uuid, r_plan_id = p, r_cluster_id = c, r_kw = kw, r_window = w,
        r_status = ReservationHeld, r_created_at = now, r_updated_at = now\<rparr>"
  by (auto simp: new_reservation_def window_is_zero_def window_ok_def)

lemma new_reservation_ok: "new_reservation uuid p c kw w now = Inr r \<Longrightarrow> reservation_ok r"
  by (auto simp: new_reservation_Inr inv_defs)

lemma reservation_conflicts_sym: "reservation_conflicts r s \<longleftrightarrow> reservation_conflicts s r"
  by (auto simp: reservation_conflicts_def overlaps_sym)

text \<open>Two reservations conflict exactly when both bind one cluster at a common instant.\<close>

lemma reservation_conflicts_iff:
  assumes "reservation_ok r" "reservation_ok s"
  shows "reservation_conflicts r s \<longleftrightarrow> r_cluster_id r = r_cluster_id s
    \<and> r_status r \<noteq> ReservationReleased \<and> r_status s \<noteq> ReservationReleased
    \<and> (\<exists>t. window_contains (r_window r) t \<and> window_contains (r_window s) t)"
  using assms overlaps_iff_common_instant
  by (auto simp: reservation_conflicts_def reservation_ok_def)

lemma release_total: "\<exists>s. reservation_release r now = Inr s \<and> r_status s = ReservationReleased"
  by (cases "r_status r") (auto simp: reservation_release_def)

lemma release_idem: "reservation_release r now = Inr s \<Longrightarrow> reservation_release s later = Inr s"
  by (auto simp: reservation_release_def split: if_splits)

lemma released_never_conflicts:
  "reservation_release r now = Inr s \<Longrightarrow> \<not> reservation_conflicts s t"
  by (auto simp: reservation_release_def reservation_conflicts_def split: if_splits)

section \<open>AllocatePower\<close>

text \<open>
  The ratings are a Go map from cluster IDs to powers.  Each of the three \<open>range\<close> loops visits
  the entries in an order of its own that Go leaves unspecified, so the model takes the three
  visiting orders, lists of the same entries, as its arguments.
\<close>

type_synonym ratings = "(string \<times> i64) list"

text \<open>The first loop: validate the entries and add the ratings up.\<close>

fun alloc_total :: "ratings \<Rightarrow> i64 \<Rightarrow> i64 res" where
  "alloc_total [] total_rating = Inr total_rating"
| "alloc_total ((cid, rating) # rs) total_rating =
     (if blank cid \<or> rating \<le> 0 then
        Inl (new_fault Invalid ''invalid_cluster_rating'' ''cluster ratings must be positive'')
      else alloc_total rs (wrap64 (total_rating + rating)))"

text \<open>
  The second loop: the proportional share of what remains, at least 1 while power remains, at
  most the rating.  Go's integer division panics when the remaining rating is zero.
\<close>

fun alloc_shares ::
    "ratings \<Rightarrow> i64 \<Rightarrow> i64 \<Rightarrow> (string \<rightharpoonup> i64) \<Rightarrow> ((string \<rightharpoonup> i64) \<times> i64) res" where
  "alloc_shares [] remaining remaining_rating result = Inr (result, remaining)"
| "alloc_shares ((cid, rating) # rs) remaining remaining_rating result =
     (if remaining_rating = 0 then Inl (Panic ''integer divide by zero'')
      else
        let share = wrap64 (go_div (wrap64 (remaining * rating)) remaining_rating);
            share = (if share = 0 \<and> 0 < remaining then 1 else share);
            share = (if rating < share then rating else share)
        in alloc_shares rs (wrap64 (remaining - share)) (wrap64 (remaining_rating - rating))
             (result(cid \<mapsto> share)))"

definition share_of :: "(string \<rightharpoonup> i64) \<Rightarrow> string \<Rightarrow> i64" where
  "share_of result cid = (case result cid of Some x \<Rightarrow> x | None \<Rightarrow> 0)"

text \<open>The third loop, entered when power is left: fill up the clusters that have room.\<close>

fun alloc_fill :: "ratings \<Rightarrow> i64 \<Rightarrow> (string \<rightharpoonup> i64) \<Rightarrow> (string \<rightharpoonup> i64) \<times> i64" where
  "alloc_fill [] remaining result = (result, remaining)"
| "alloc_fill ((cid, rating) # rs) remaining result =
     (let available = wrap64 (rating - share_of result cid) in
      if available \<le> 0 then alloc_fill rs remaining result
      else
        let addition = (if available < remaining then available else remaining);
            result = result(cid \<mapsto> wrap64 (share_of result cid + addition));
            remaining = wrap64 (remaining - addition)
        in if remaining = 0 then (result, remaining) else alloc_fill rs remaining result)"

definition allocate_power ::
    "i64 \<Rightarrow> ratings \<Rightarrow> ratings \<Rightarrow> ratings \<Rightarrow> (string \<rightharpoonup> i64) res" where
  "allocate_power total_kw order1 order2 order3 =
     (if total_kw \<le> 0 then
        Inl (new_fault Invalid ''invalid_requested_power'' ''requested power must be positive'')
      else if order1 = [] then
        Inl (new_fault Invalid ''clusters_required'' ''at least one cluster is required'')
      else and_then (alloc_total order1 0) (\<lambda>total_rating.
        if total_rating < total_kw then
          Inl (new_fault Conflict ''insufficient_cluster_power'' ''selected clusters cannot provide requested power'')
        else and_then (alloc_shares order2 total_kw total_rating Map.empty) (\<lambda>(result, remaining).
          let (result, remaining) =
            (if remaining \<noteq> 0 then alloc_fill order3 remaining result else (result, remaining)) in
          if remaining \<noteq> 0 then
            Inl (new_fault Internal ''power_allocation_failed'' ''could not allocate requested power'')
          else Inr result)))"

subsection \<open>The loop invariant\<close>

text \<open>The share of one cluster, without the wrap-around the bounds below exclude.\<close>

definition plain_share :: "int \<Rightarrow> int \<Rightarrow> int \<Rightarrow> int" where
  "plain_share remaining remaining_rating rating =
     (let q = remaining * rating div remaining_rating;
          s = (if q = 0 \<and> 0 < remaining then 1 else q)
      in if rating < s then rating else s)"

lemma quotient_bounds:
  fixes m M r :: int
  assumes "0 \<le> m" "m \<le> M" "0 < r" "r \<le> M"
  shows "0 \<le> m * r div M" "m * r div M \<le> r" "m * r div M \<le> m" "m - m * r div M \<le> M - r"
proof -
  have M: "0 < M" using assms by linarith
  show "0 \<le> m * r div M" using assms M by (simp add: pos_imp_zdiv_nonneg_iff)
  have "m * r div M \<le> M * r div M" using assms M by (intro zdiv_mono1 mult_right_mono) auto
  then show "m * r div M \<le> r" using M by simp
  have "m * r div M \<le> m * M div M" using assms M by (intro zdiv_mono1 mult_left_mono) auto
  then show "m * r div M \<le> m" using M by simp
  have "0 \<le> (M - m) * (M - r)" using assms by (intro mult_nonneg_nonneg) auto
  then have "(m + r - M) * M \<le> m * r" by (simp add: algebra_simps)
  then have "(m + r - M) * M div M \<le> m * r div M" using M by (intro zdiv_mono1) auto
  then show "m - m * r div M \<le> M - r" using M by simp
qed

lemma plain_share_bounds:
  assumes "0 \<le> m" "m \<le> M" "0 < r" "r \<le> M"
  shows "0 \<le> plain_share m M r" "plain_share m M r \<le> r" "plain_share m M r \<le> m"
    "m - plain_share m M r \<le> M - r"
  using quotient_bounds [OF assms] assms by (auto simp: plain_share_def Let_def)

text \<open>
  The ranges in which the program calls the routine: a plan's requested power is at most
  10,000,000 kW and a cluster's rating at most 2,000,000 kW, so a product fits 64 bits easily.
\<close>

definition ratings_ok :: "ratings \<Rightarrow> bool" where
  [inv_defs]: "ratings_ok rs \<longleftrightarrow> distinct (map fst rs) \<and> (\<forall>(c, r) \<in> set rs. \<not> blank c \<and> 0 < r \<and> r \<le> 2000000)
     \<and> in_i64 (sum_list (map snd rs))"

lemma sum_ratings_nonneg: "\<forall>(c, r) \<in> set rs. 0 < r \<Longrightarrow> 0 \<le> sum_list (map snd (rs :: ratings))"
  by (induction rs) auto

lemma ratings_ok_Cons:
  assumes "ratings_ok ((c, r) # rs)"
  shows "ratings_ok rs" "0 < r" "r \<le> 2000000" "c \<notin> fst ` set rs" "0 \<le> sum_list (map snd rs)"
    "\<not> blank c"
proof -
  have nn: "0 \<le> sum_list (map snd rs)"
    using assms by (intro sum_ratings_nonneg) (auto simp: ratings_ok_def)
  then show "0 \<le> sum_list (map snd rs)" .
  show "ratings_ok rs" "0 < r" "r \<le> 2000000" "c \<notin> fst ` set rs" "\<not> blank c"
    using assms nn by (auto simp: ratings_ok_def in_i64_def)
qed

lemma alloc_total_sum:
  assumes "ratings_ok rs" "0 \<le> t" "in_i64 (t + sum_list (map snd rs))"
  shows "alloc_total rs t = Inr (t + sum_list (map snd rs))"
  using assms
proof (induction rs arbitrary: t)
  case Nil
  then show ?case by simp
next
  case (Cons x rs)
  obtain c r where x: "x = (c, r)" by force
  note ok = ratings_ok_Cons [OF Cons.prems(1) [unfolded x]]
  let ?R = "sum_list (map snd rs)"
  from Cons.prems(3) have all: "in_i64 (t + r + ?R)" by (simp add: x add.assoc)
  have "0 \<le> t + r" "t + r \<le> t + r + ?R" using Cons.prems(2) ok(2,5) by linarith+
  then have "in_i64 (t + r)" using all by (rule in_i64_nonneg_le)
  moreover have "alloc_total rs (t + r) = Inr (t + r + ?R)"
    using Cons.IH [OF ok(1) \<open>0 \<le> t + r\<close> all] .
  ultimately show ?case using ok(2,6) by (simp add: x add.assoc)
qed

lemma alloc_shares_step:
  assumes "0 \<le> m" "m \<le> M" "m \<le> 10000000" "0 < r" "r \<le> 2000000" "r \<le> M" "in_i64 M"
  shows "alloc_shares ((c, r) # rs) m M result =
    alloc_shares rs (m - plain_share m M r) (M - r) (result(c \<mapsto> plain_share m M r))"
proof -
  have "m * r \<le> 10000000 * 2000000" using assms by (intro mult_mono) auto
  moreover have "0 \<le> m * r" using assms by simp
  ultimately have p: "in_i64 (m * r)" by (simp add: in_i64_def)
  note q = quotient_bounds [OF assms(1,2,4,6)] and s = plain_share_bounds [OF assms(1,2,4,6)]
  have "in_i64 (m * r div M)" "in_i64 (m - plain_share m M r)" "in_i64 (M - r)"
    using q s assms by (auto simp: in_i64_def)
  with p q assms show ?thesis by (simp add: plain_share_def Let_def go_div_nonneg)
qed

text \<open>
  The loop in the bounds: it never divides by zero, leaves no power, and gives every cluster a
  share between zero and its rating; the shares add up to the power it started with.
\<close>

lemma alloc_shares_exact:
  assumes "ratings_ok rs" "0 \<le> m" "m \<le> sum_list (map snd rs)" "m \<le> 10000000"
  shows "\<exists>result'. alloc_shares rs m (sum_list (map snd rs)) result = Inr (result', 0)
    \<and> (\<forall>c. c \<notin> fst ` set rs \<longrightarrow> result' c = result c)
    \<and> (\<forall>(c, r) \<in> set rs. \<exists>x. result' c = Some x \<and> 0 \<le> x \<and> x \<le> r)
    \<and> sum_list (map (share_of result' \<circ> fst) rs) = m"
  using assms
proof (induction rs arbitrary: m result)
  case Nil
  then show ?case by simp
next
  case (Cons x rs)
  obtain c r where x: "x = (c, r)" by force
  let ?R = "sum_list (map snd rs)"
  note ok = ratings_ok_Cons [OF Cons.prems(1) [unfolded x]]
  have M: "m \<le> r + ?R" "r \<le> r + ?R" "in_i64 (r + ?R)"
    using Cons.prems ok by (auto simp: x ratings_ok_def)
  let ?s = "plain_share m (r + ?R) r"
  note s = plain_share_bounds [OF Cons.prems(2) M(1) ok(2) M(2)]
  have "0 \<le> m - ?s" "m - ?s \<le> ?R" "m - ?s \<le> 10000000"
    using s Cons.prems(4) by linarith+
  from Cons.IH [OF ok(1) this, of "result(c \<mapsto> ?s)"] obtain result' where
    run: "alloc_shares rs (m - ?s) ?R (result(c \<mapsto> ?s)) = Inr (result', 0)"
    and frame: "\<And>d. d \<notin> fst ` set rs \<Longrightarrow> result' d = (result(c \<mapsto> ?s)) d"
    and bounds: "\<forall>(d, q) \<in> set rs. \<exists>y. result' d = Some y \<and> 0 \<le> y \<and> y \<le> q"
    and sum: "sum_list (map (share_of result' \<circ> fst) rs) = m - ?s"
    by blast
  have c: "result' c = Some ?s" using frame ok(4) by simp
  have "alloc_shares (x # rs) m (sum_list (map snd (x # rs))) result = Inr (result', 0)"
    using alloc_shares_step [OF Cons.prems(2) M(1) Cons.prems(4) ok(2,3) M(2,3)] run by (simp add: x)
  moreover have "\<forall>d. d \<notin> fst ` set (x # rs) \<longrightarrow> result' d = result d"
    using frame by (auto simp: x)
  moreover have "\<forall>(d, q) \<in> set (x # rs). \<exists>y. result' d = Some y \<and> 0 \<le> y \<and> y \<le> q"
    using bounds c s by (auto simp: x)
  moreover have "sum_list (map (share_of result' \<circ> fst) (x # rs)) = m"
    using c sum by (simp add: x share_of_def)
  ultimately show ?case by blast
qed

lemma ratings_ok_mset: "ratings_ok rs \<Longrightarrow> mset rs = mset os \<Longrightarrow> ratings_ok os"
proof -
  assume ok: "ratings_ok rs" and m: "mset rs = mset os"
  have "mset (map fst rs) = mset (map fst os)" "mset (map snd rs) = mset (map snd os)"
    using m by simp_all
  then have "distinct (map fst rs) = distinct (map fst os)" "sum_list (map snd os) = sum_list (map snd rs)"
    by (metis mset_eq_imp_distinct_iff, metis sum_mset_sum_list)
  moreover have "set os = set rs" using m by (metis set_mset_mset)
  ultimately show ?thesis using ok by (simp add: ratings_ok_def)
qed

lemma sum_ratings_mset: "mset rs = mset os \<Longrightarrow> sum_list (map snd (rs :: ratings)) = sum_list (map snd os)"
  by (metis mset_map sum_mset_sum_list)

text \<open>
  Whatever the three visiting orders, a request within the total rating is split exactly: every
  selected cluster has a share within its rating, and the shares add up to the request.  The
  third loop and the error \<open>power_allocation_failed\<close> are never reached.
\<close>

lemma allocate_power_exact:
  assumes "ratings_ok order1" "mset order2 = mset order1"
    and "0 < kw" "kw \<le> 10000000" "kw \<le> sum_list (map snd order1)"
  shows "\<exists>result. allocate_power kw order1 order2 order3 = Inr result
    \<and> dom result = fst ` set order1
    \<and> (\<forall>(c, r) \<in> set order1. 0 \<le> share_of result c \<and> share_of result c \<le> r)
    \<and> sum_list (map (share_of result \<circ> fst) order1) = kw"
proof -
  let ?R = "sum_list (map snd order1)"
  have ok2: "ratings_ok order2" using assms by (metis ratings_ok_mset)
  have set2: "set order2 = set order1" using assms(2) by (metis set_mset_mset)
  have R2: "sum_list (map snd order2) = ?R" using assms(2) by (rule sum_ratings_mset)
  have total: "alloc_total order1 0 = Inr ?R"
    using alloc_total_sum [OF assms(1), of 0] assms(1) by (simp add: ratings_ok_def)
  from alloc_shares_exact [OF ok2, of kw Map.empty] assms R2 obtain result where
    run: "alloc_shares order2 kw ?R Map.empty = Inr (result, 0)"
    and frame: "\<forall>c. c \<notin> fst ` set order2 \<longrightarrow> result c = None"
    and bounds: "\<forall>(c, r) \<in> set order2. \<exists>x. result c = Some x \<and> 0 \<le> x \<and> x \<le> r"
    and sum: "sum_list (map (share_of result \<circ> fst) order2) = kw"
    by auto
  have "order1 \<noteq> []" using assms by auto
  then have "allocate_power kw order1 order2 order3 = Inr result"
    using assms by (simp add: allocate_power_def total run)
  moreover have "dom result = fst ` set order1"
    using frame bounds set2 by (fastforce simp: dom_def)
  moreover have "\<forall>(c, r) \<in> set order1. 0 \<le> share_of result c \<and> share_of result c \<le> r"
    using bounds set2 by (fastforce simp: share_of_def)
  moreover have "sum_list (map (share_of result \<circ> fst) order1) = kw"
    using sum assms(2) by (metis mset_map sum_mset_sum_list)
  ultimately show ?thesis by blast
qed

text \<open>A request beyond the total rating is refused, again in every order.\<close>

lemma allocate_power_insufficient:
  assumes "ratings_ok order1" "order1 \<noteq> []" "sum_list (map snd order1) < kw"
  shows "allocate_power kw order1 order2 order3 =
    Inl (new_fault Conflict ''insufficient_cluster_power'' ''selected clusters cannot provide requested power'')"
proof -
  have "alloc_total order1 0 = Inr (sum_list (map snd order1))"
    using alloc_total_sum [OF assms(1), of 0] assms(1) by (simp add: ratings_ok_def)
  moreover have "0 \<le> sum_list (map snd order1)"
    using assms(1) by (intro sum_ratings_nonneg) (auto simp: ratings_ok_def)
  ultimately show ?thesis using assms by (simp add: allocate_power_def)
qed

subsection \<open>Proportionality\<close>

text \<open>
  When the exact proportional share of every cluster is at least 1, no share is ever rounded up,
  the ratio of remaining power to remaining rating never falls below that of the whole request,
  and so no cluster gets less than its proportional share, rounded down.
\<close>

lemma quotient_mult_le: "0 < (b::int) \<Longrightarrow> a div b * b \<le> a"
  using pos_mod_sign [of b a] div_mult_mod_eq [of a b] by linarith

lemma plain_share_at_least:
  assumes "0 \<le> m" "m \<le> M" "0 < r" "r \<le> M" "kw * M \<le> m * R" "0 < R" "R \<le> kw * r"
  shows "kw * r div R \<le> plain_share m M r" "kw * (M - r) \<le> (m - plain_share m M r) * R"
proof -
  have M: "0 < M" using assms by linarith
  have "M * R \<le> M * (kw * r)" using assms(7) M by simp
  also have "\<dots> = (kw * M) * r" by simp
  also have "\<dots> \<le> (m * R) * r" using assms by (intro mult_right_mono) auto
  finally have "R * M \<le> R * (m * r)" by (simp add: mult_ac)
  then have "M \<le> m * r" using assms(6) by simp
  then have q1: "1 \<le> m * r div M" using M by (simp add: pos_imp_zdiv_pos_iff int_one_le_iff_zero_less)
  note q = quotient_bounds [OF assms(1-4)]
  have eq: "plain_share m M r = m * r div M"
    using q q1 by (simp add: plain_share_def Let_def)
  have "(kw * r div R) * R \<le> kw * r" using assms(6) by (rule quotient_mult_le)
  then have "(kw * r div R) * R * M \<le> kw * r * M" using M by simp
  also have "\<dots> = (kw * M) * r" by simp
  also have "\<dots> \<le> (m * R) * r" using assms by (intro mult_right_mono) auto
  finally have "R * ((kw * r div R) * M) \<le> R * (m * r)" by (simp add: mult_ac)
  then have "(kw * r div R) * M \<le> m * r" using assms(6) by simp
  then have "(kw * r div R) * M div M \<le> m * r div M" using M by (intro zdiv_mono1) auto
  then show "kw * r div R \<le> plain_share m M r" using M eq by simp
  have "(m * r div M) * M \<le> m * r" using M by (rule quotient_mult_le)
  then have "m * (M - r) \<le> (m - m * r div M) * M" by (simp add: algebra_simps)
  then have "m * (M - r) * R \<le> (m - m * r div M) * M * R" using assms(6) by simp
  moreover have "kw * M * (M - r) \<le> m * R * (M - r)" using assms by (intro mult_right_mono) auto
  ultimately have "M * (kw * (M - r)) \<le> M * ((m - m * r div M) * R)" by (simp add: mult_ac)
  then show "kw * (M - r) \<le> (m - plain_share m M r) * R" using M eq by simp
qed

lemma alloc_shares_at_least:
  assumes "ratings_ok rs" "0 \<le> m" "m \<le> sum_list (map snd rs)" "m \<le> 10000000"
    and "kw * sum_list (map snd rs) \<le> m * R" "0 < R" "\<forall>(c, r) \<in> set rs. R \<le> kw * r"
    and "alloc_shares rs m (sum_list (map snd rs)) result = Inr (result', rest)"
  shows "(\<forall>c. c \<notin> fst ` set rs \<longrightarrow> result' c = result c)
    \<and> (\<forall>(c, r) \<in> set rs. kw * r div R \<le> share_of result' c)"
  using assms
proof (induction rs arbitrary: m result)
  case Nil
  then show ?case by simp
next
  case (Cons x rs)
  obtain c r where x: "x = (c, r)" by force
  let ?R = "sum_list (map snd rs)"
  note ok = ratings_ok_Cons [OF Cons.prems(1) [unfolded x]]
  have M: "m \<le> r + ?R" "r \<le> r + ?R" "in_i64 (r + ?R)" "R \<le> kw * r"
    and ratio: "kw * (r + ?R) \<le> m * R"
    using Cons.prems ok by (auto simp: x ratings_ok_def)
  let ?s = "plain_share m (r + ?R) r"
  note s = plain_share_bounds [OF Cons.prems(2) M(1) ok(2) M(2)]
  note least = plain_share_at_least [OF Cons.prems(2) M(1) ok(2) M(2) ratio Cons.prems(6) M(4)]
  have run: "alloc_shares rs (m - ?s) ?R (result(c \<mapsto> ?s)) = Inr (result', rest)"
    using Cons.prems(8) alloc_shares_step [OF Cons.prems(2) M(1) Cons.prems(4) ok(2,3) M(2,3)]
    by (simp add: x)
  have "0 \<le> m - ?s" "m - ?s \<le> ?R" "m - ?s \<le> 10000000"
    using s Cons.prems(4) by linarith+
  moreover have "kw * ?R \<le> (m - ?s) * R" using least(2) by simp
  ultimately have "0 \<le> m - ?s" "m - ?s \<le> ?R" "m - ?s \<le> 10000000" "kw * ?R \<le> (m - ?s) * R" .
  from Cons.IH [OF ok(1) this Cons.prems(6) _ run] Cons.prems(7)
  have IH: "\<forall>d. d \<notin> fst ` set rs \<longrightarrow> result' d = (result(c \<mapsto> ?s)) d"
    "\<forall>(d, q) \<in> set rs. kw * q div R \<le> share_of result' d" by auto
  then have "result' c = Some ?s" using ok(4) by simp
  with IH least(1) show ?case by (auto simp: x share_of_def)
qed

lemma allocate_power_proportional:
  assumes "ratings_ok order1" "mset order2 = mset order1"
    and "0 < kw" "kw \<le> 10000000" "kw \<le> sum_list (map snd order1)"
    and "\<forall>(c, r) \<in> set order1. sum_list (map snd order1) \<le> kw * r"
    and "allocate_power kw order1 order2 order3 = Inr result"
  shows "\<forall>(c, r) \<in> set order1. 0 < share_of result c
    \<and> kw * r div sum_list (map snd order1) \<le> share_of result c"
proof -
  let ?R = "sum_list (map snd order1)"
  have ok2: "ratings_ok order2" using assms by (metis ratings_ok_mset)
  have set2: "set order2 = set order1" using assms(2) by (metis set_mset_mset)
  have R2: "sum_list (map snd order2) = ?R" using assms(2) by (rule sum_ratings_mset)
  have R: "0 < ?R" "order1 \<noteq> []" using assms by auto
  have total: "alloc_total order1 0 = Inr ?R"
    using alloc_total_sum [OF assms(1), of 0] assms(1) by (simp add: ratings_ok_def)
  from alloc_shares_exact [OF ok2, of kw Map.empty] assms R2 obtain result' where
    run: "alloc_shares order2 kw ?R Map.empty = Inr (result', 0)" by auto
  with assms R total have [simp]: "result' = result" by (simp add: allocate_power_def)
  have least: "kw * r div ?R \<le> share_of result c" if "(c, r) \<in> set order1" for c r
    using alloc_shares_at_least [OF ok2, of kw kw ?R Map.empty result 0] assms R R2 set2 run that by auto
  have "0 < kw * r div ?R" if "(c, r) \<in> set order1" for c r
    using assms(6) R that by (auto simp: pos_imp_zdiv_pos_iff)
  with least show ?thesis by fastforce
qed

subsection \<open>The visiting order matters\<close>

text \<open>
  Below that bound the outcome depends on the order in which Go happens to visit the map: three
  kilowatts over three clusters rated 1000, 1 and 1 leave nothing for the last one when the big
  cluster comes first, and one kilowatt for each when it comes last.
\<close>

lemma allocate_power_big_first:
  "allocate_power 3 [(''a'', 1000), (''b'', 1), (''c'', 1)]
     [(''a'', 1000), (''b'', 1), (''c'', 1)] o3 = Inr [''a'' \<mapsto> 2, ''b'' \<mapsto> 1, ''c'' \<mapsto> 0]"
  by (simp add: allocate_power_def wrap64_def go_div_def Let_def visible_def cong: let_weak_cong)

lemma allocate_power_big_last:
  "allocate_power 3 [(''a'', 1000), (''b'', 1), (''c'', 1)]
     [(''b'', 1), (''c'', 1), (''a'', 1000)] o3 = Inr [''b'' \<mapsto> 1, ''c'' \<mapsto> 1, ''a'' \<mapsto> 1]"
  by (simp add: allocate_power_def wrap64_def go_div_def Let_def visible_def cong: let_weak_cong)

text \<open>Outside those ranges a wrapped total makes the second loop divide by zero.\<close>

lemma allocate_power_panics:
  "allocate_power 5
     [(''a'', 5), (''b'', 4611686018427387904), (''c'', 4611686018427387904),
      (''d'', 4611686018427387904), (''e'', 4611686018427387904)]
     [(''a'', 5), (''b'', 4611686018427387904), (''c'', 4611686018427387904),
      (''d'', 4611686018427387904), (''e'', 4611686018427387904)] o3
   = Inl (Panic ''integer divide by zero'')"
  by (simp add: allocate_power_def wrap64_def go_div_def Let_def visible_def cong: let_weak_cong)

end
