(* ===== verification/Job.thy ===== *)
theory Job
  imports Fault Interfaces
begin

text \<open>
  \<open>internal/dispatch/job.go\<close>: execution jobs, the leases by which workers hold them, and the
  backoff between attempts.
\<close>

datatype job_status = JobPending | JobLeased | JobSucceeded | JobRetryable | JobPermanentFailure | JobCancelled

record job =
  j_id :: string
  j_plan_id :: string
  j_cluster_id :: string
  j_status :: job_status
  j_attempts :: i64
  j_max_attempts :: i64
  j_next_attempt_at :: time
  j_lease_owner :: string
  j_lease_until :: "time option"
  j_last_error :: string
  j_command_key :: string
  j_version :: i64
  j_created_at :: time
  j_updated_at :: time

definition new_job :: "string \<Rightarrow> string \<Rightarrow> string \<Rightarrow> i64 \<Rightarrow> time \<Rightarrow> job res" where
  "new_job uuid plan_id cluster_id max_attempts now =
     (if blank plan_id \<or> blank cluster_id then
        Inl (new_fault Invalid ''missing_job_owner'' ''plan and cluster are required'')
      else if max_attempts < 1 \<or> 20 < max_attempts then
        Inl (new_fault Invalid ''invalid_attempt_limit'' ''attempt limit must be between 1 and 20'')
      else Inr \<lparr>j_id = uuid, j_plan_id = plan_id, j_cluster_id = cluster_id, j_status = JobPending,
        j_attempts = 0, j_max_attempts = max_attempts, j_next_attempt_at = now, j_lease_owner = '''',
        j_lease_until = None, j_last_error = '''',
        j_command_key = ''dispatch:'' @ plan_id @ '':'' @ cluster_id,
        j_version = 1, j_created_at = now, j_updated_at = now\<rparr>)"

fun lease_expired_by :: "time option \<Rightarrow> time \<Rightarrow> bool" where
  "lease_expired_by None now = False"
| "lease_expired_by (Some until) now \<longleftrightarrow> \<not> now < until"

definition job_claimable :: "job \<Rightarrow> time \<Rightarrow> bool" where
  "job_claimable j now =
     (case j_status j of
        JobPending \<Rightarrow> \<not> now < j_next_attempt_at j
      | JobRetryable \<Rightarrow> \<not> now < j_next_attempt_at j
      | JobLeased \<Rightarrow> lease_expired_by (j_lease_until j) now
      | _ \<Rightarrow> False)"

definition job_lease :: "job \<Rightarrow> string \<Rightarrow> time \<Rightarrow> duration \<Rightarrow> job res" where
  "job_lease j owner now d =
     (let owner = trim_space owner in
      if owner = '''' then Inl (new_fault Invalid ''lease_owner_required'' ''lease owner is required'')
      else if d < second \<or> 10 * minute < d then
        Inl (new_fault Invalid ''invalid_lease_duration'' ''lease duration is outside policy'')
      else if \<not> job_claimable j now then
        Inl (new_fault Conflict ''job_not_claimable'' ''execution job is not ready for a lease'')
      else Inr (j\<lparr>j_status := JobLeased, j_lease_owner := owner, j_lease_until := Some (time_add now d),
        j_attempts := incr64 (j_attempts j), j_version := incr64 (j_version j), j_updated_at := now\<rparr>))"

definition lease_not_owned :: go_error where
  "lease_not_owned = new_fault Conflict ''lease_not_owned'' ''worker does not own this job lease''"

definition job_renew :: "job \<Rightarrow> string \<Rightarrow> time \<Rightarrow> duration \<Rightarrow> job res" where
  "job_renew j owner now d =
     (if j_status j \<noteq> JobLeased \<or> j_lease_owner j \<noteq> owner then Inl lease_not_owned
      else case j_lease_until j of None \<Rightarrow> Inl lease_not_owned
      | Some until \<Rightarrow>
      if \<not> now < until then Inl (new_fault Conflict ''lease_expired'' ''job lease already expired'')
      else Inr (j\<lparr>j_lease_until := Some (time_add now d), j_version := incr64 (j_version j),
        j_updated_at := now\<rparr>))"

definition verify_lease :: "job \<Rightarrow> string \<Rightarrow> time \<Rightarrow> unit res" where
  "verify_lease j owner now =
     (if j_status j \<noteq> JobLeased \<or> j_lease_owner j \<noteq> owner then Inl lease_not_owned
      else case j_lease_until j of None \<Rightarrow> Inl lease_not_owned
      | Some until \<Rightarrow>
      if until < now then Inl (new_fault Conflict ''lease_expired'' ''job lease expired before completion'')
      else Inr ())"

text \<open>\<open>Backoff\<close>: the base doubled per attempt, at most eight times, in 64-bit durations.\<close>

definition backoff :: "duration \<Rightarrow> i64 \<Rightarrow> duration" where
  "backoff base attempt =
     (let base = (if base \<le> 0 then second else base);
          attempt = (if attempt < 1 then 1 else attempt);
          shift = wrap64 (attempt - 1);
          shift = (if 8 < shift then 8 else shift);
          value = wrap64 (base * 2 ^ nat shift)
      in if 15 * minute < value then 15 * minute else value)"

definition job_succeed :: "job \<Rightarrow> string \<Rightarrow> time \<Rightarrow> job res" where
  "job_succeed j owner now =
     (case verify_lease j owner now of Inl e \<Rightarrow> Inl e | Inr _ \<Rightarrow>
      Inr (j\<lparr>j_status := JobSucceeded, j_lease_owner := '''', j_lease_until := None, j_last_error := '''',
        j_version := incr64 (j_version j), j_updated_at := now\<rparr>))"

definition job_fail :: "job \<Rightarrow> string \<Rightarrow> go_error option \<Rightarrow> bool \<Rightarrow> time \<Rightarrow> duration \<Rightarrow> job res" where
  "job_fail j owner cause retryable now base =
     (case verify_lease j owner now of Inl e \<Rightarrow> Inl e | Inr _ \<Rightarrow>
      case cause of
        None \<Rightarrow> Inl (new_fault Invalid ''job_error_required'' ''job failure needs an error'')
      | Some c \<Rightarrow>
          let k = j\<lparr>j_lease_owner := '''', j_lease_until := None, j_last_error := error_text c\<rparr>;
              k = (if retryable \<and> j_attempts k < j_max_attempts k
                   then k\<lparr>j_status := JobRetryable, j_next_attempt_at := time_add now (backoff base (j_attempts k))\<rparr>
                   else k\<lparr>j_status := JobPermanentFailure\<rparr>)
          in Inr (k\<lparr>j_version := incr64 (j_version k), j_updated_at := now\<rparr>))"

definition job_cancel :: "job \<Rightarrow> time \<Rightarrow> job res" where
  "job_cancel j now =
     (if j_status j = JobSucceeded \<or> j_status j = JobPermanentFailure then
        Inl (new_fault Conflict ''terminal_job'' ''terminal execution job cannot be cancelled'')
      else Inr (j\<lparr>j_status := JobCancelled, j_lease_owner := '''', j_lease_until := None,
        j_version := incr64 (j_version j), j_updated_at := now\<rparr>))"

section \<open>Backoff\<close>

lemma backoff_eq:
  assumes "0 < base" "base \<le> 15 * minute" "1 \<le> n" "in_i64 n"
  shows "backoff base n = min (15 * minute) (base * 2 ^ nat (min 8 (n - 1)))"
proof -
  have s: "in_i64 (n - 1)" using assms by (simp add: in_i64_def)
  have p: "(2::int) ^ nat (min 8 (n - 1)) \<le> 2 ^ 8" by (intro power_increasing) auto
  then have "base * 2 ^ nat (min 8 (n - 1)) \<le> 15 * minute * 2 ^ 8"
    using assms by (intro mult_mono) auto
  moreover have "0 < base * 2 ^ nat (min 8 (n - 1))" using assms by simp
  ultimately have "in_i64 (base * 2 ^ nat (min 8 (n - 1)))" by (simp add: in_i64_def)
  then have w: "wrap64 (base * 2 ^ nat (min 8 (n - 1))) = base * 2 ^ nat (min 8 (n - 1))" by simp
  have "(if 8 < n - 1 then 8 else n - 1) = min 8 (n - 1)" by simp
  then have "backoff base n = (let v = wrap64 (base * 2 ^ nat (min 8 (n - 1))) in
      if 15 * minute < v then 15 * minute else v)"
    using assms s unfolding backoff_def Let_def by simp
  then show ?thesis unfolding w by (simp add: Let_def min_def)
qed

lemma backoff_bounds:
  assumes "0 < base" "base \<le> 15 * minute" "1 \<le> n" "in_i64 n"
  shows "base \<le> backoff base n" "backoff base n \<le> 15 * minute"
proof -
  have "base * 1 \<le> base * 2 ^ nat (min 8 (n - 1))" using assms by (intro mult_left_mono) auto
  then show "base \<le> backoff base n" "backoff base n \<le> 15 * minute"
    using assms by (simp_all add: backoff_eq)
qed

lemma backoff_mono:
  assumes "0 < base" "base \<le> 15 * minute" "1 \<le> m" "m \<le> n" "in_i64 n"
  shows "backoff base m \<le> backoff base n"
proof -
  have m: "in_i64 m" using assms by (auto simp: in_i64_def)
  have "(2::int) ^ nat (min 8 (m - 1)) \<le> 2 ^ nat (min 8 (n - 1))"
    using assms by (intro power_increasing) auto
  then have "base * 2 ^ nat (min 8 (m - 1)) \<le> base * 2 ^ nat (min 8 (n - 1))"
    using assms by (intro mult_left_mono) auto
  with assms m show ?thesis by (simp add: backoff_eq min.coboundedI2)
qed

text \<open>A base beyond those bounds can overflow: 2^56 ns doubled seven times is a negative pause.\<close>

lemma backoff_overflow: "backoff 72057594037927936 8 = - 9223372036854775808"
  by (simp add: backoff_def wrap64_def Let_def)

section \<open>What each operation needs and does\<close>

lemma new_job_Inr: "new_job uuid p c n now = Inr j \<longleftrightarrow>
    \<not> blank p \<and> \<not> blank c \<and> 1 \<le> n \<and> n \<le> 20 \<and>
    j = \<lparr>j_id = uuid, j_plan_id = p, j_cluster_id = c, j_status = JobPending, j_attempts = 0,
        j_max_attempts = n, j_next_attempt_at = now, j_lease_owner = '''', j_lease_until = None,
        j_last_error = '''', j_command_key = ''dispatch:'' @ p @ '':'' @ c,
        j_version = 1, j_created_at = now, j_updated_at = now\<rparr>"
  by (auto simp: new_job_def)

lemma job_claimable_iff: "job_claimable j now \<longleftrightarrow>
    (j_status j \<in> {JobPending, JobRetryable} \<and> j_next_attempt_at j \<le> now)
    \<or> (j_status j = JobLeased \<and> (\<exists>u. j_lease_until j = Some u \<and> u \<le> now))"
  by (cases "j_status j"; cases "j_lease_until j") (auto simp: job_claimable_def)

lemma job_lease_Inr: "job_lease j owner now d = Inr k \<longleftrightarrow>
    \<not> blank owner \<and> second \<le> d \<and> d \<le> 10 * minute \<and> job_claimable j now \<and>
    k = j\<lparr>j_status := JobLeased, j_lease_owner := trim_space owner, j_lease_until := Some (now + d),
        j_attempts := incr64 (j_attempts j), j_version := incr64 (j_version j), j_updated_at := now\<rparr>"
  by (auto simp: job_lease_def Let_def time_add_def blank_def)

lemma verify_lease_Inr: "verify_lease j owner now = Inr u \<longleftrightarrow>
    j_status j = JobLeased \<and> j_lease_owner j = owner \<and> (\<exists>t. j_lease_until j = Some t \<and> now \<le> t)"
  by (auto simp: verify_lease_def split: option.split)

lemma verify_lease_cases: "verify_lease j owner now = Inr () \<or> (\<exists>e. verify_lease j owner now = Inl e)"
  by (cases "verify_lease j owner now") auto

lemma job_renew_Inr: "job_renew j owner now d = Inr k \<longleftrightarrow>
    j_status j = JobLeased \<and> j_lease_owner j = owner \<and> (\<exists>t. j_lease_until j = Some t \<and> now < t)
    \<and> k = j\<lparr>j_lease_until := Some (now + d), j_version := incr64 (j_version j), j_updated_at := now\<rparr>"
  by (auto simp: job_renew_def time_add_def split: option.split)

lemma job_succeed_Inr: "job_succeed j owner now = Inr k \<longleftrightarrow> verify_lease j owner now = Inr ()
    \<and> k = j\<lparr>j_status := JobSucceeded, j_lease_owner := '''', j_lease_until := None, j_last_error := '''',
        j_version := incr64 (j_version j), j_updated_at := now\<rparr>"
  by (auto simp: job_succeed_def split: sum.split)

lemma job_fail_Inr: "job_fail j owner cause retryable now base = Inr k \<longleftrightarrow>
    verify_lease j owner now = Inr () \<and> (\<exists>c. cause = Some c
    \<and> (retryable \<and> j_attempts j < j_max_attempts j \<and>
         k = j\<lparr>j_lease_owner := '''', j_lease_until := None, j_last_error := error_text c,
            j_status := JobRetryable, j_next_attempt_at := now + backoff base (j_attempts j),
            j_version := incr64 (j_version j), j_updated_at := now\<rparr>
       \<or> \<not> (retryable \<and> j_attempts j < j_max_attempts j) \<and>
         k = j\<lparr>j_lease_owner := '''', j_lease_until := None, j_last_error := error_text c,
            j_status := JobPermanentFailure, j_version := incr64 (j_version j), j_updated_at := now\<rparr>))"
  by (auto simp: job_fail_def Let_def time_add_def split: sum.split option.split)

lemma job_cancel_Inr: "job_cancel j now = Inr k \<longleftrightarrow> j_status j \<notin> {JobSucceeded, JobPermanentFailure}
    \<and> k = j\<lparr>j_status := JobCancelled, j_lease_owner := '''', j_lease_until := None,
        j_version := incr64 (j_version j), j_updated_at := now\<rparr>"
  by (auto simp: job_cancel_def)

section \<open>The lifecycle of a job\<close>

inductive job_step :: "job \<Rightarrow> job \<Rightarrow> bool" where
  lease: "job_lease j owner now d = Inr k \<Longrightarrow> job_step j k"
| renew: "job_renew j owner now d = Inr k \<Longrightarrow> job_step j k"
| succeed: "job_succeed j owner now = Inr k \<Longrightarrow> job_step j k"
| fail: "job_fail j owner cause retryable now base = Inr k \<Longrightarrow> job_step j k"
| cancel: "job_cancel j now = Inr k \<Longrightarrow> job_step j k"

inductive_simps job_step_iff: "job_step j k"

lemmas job_step_simps = job_step_iff job_lease_Inr job_renew_Inr job_succeed_Inr job_fail_Inr job_cancel_Inr

definition job_init :: "job \<Rightarrow> bool" where
  "job_init j \<longleftrightarrow> (\<exists>uuid p c n now. new_job uuid p c n now = Inr j)"

text \<open>
  A job is leased exactly while it has an owner and a deadline; a job that was never attempted is
  pending, and a retryable one has attempts left.
\<close>

definition job_ok :: "job \<Rightarrow> bool" where
  [inv_defs]: "job_ok j \<longleftrightarrow> 1 \<le> j_max_attempts j \<and> j_max_attempts j \<le> 20
     \<and> (j_status j = JobLeased \<longleftrightarrow> j_lease_until j \<noteq> None)
     \<and> (j_status j = JobLeased \<longleftrightarrow> j_lease_owner j \<noteq> '''')
     \<and> (j_status j = JobPending \<longrightarrow> j_attempts j = 0)
     \<and> (j_status j = JobRetryable \<longrightarrow> j_attempts j < j_max_attempts j)"

definition job_terminal :: "job \<Rightarrow> bool" where
  "job_terminal j \<longleftrightarrow> j_status j \<in> {JobSucceeded, JobPermanentFailure}"

lemma job_step_ok: "job_ok j \<Longrightarrow> job_step j k \<Longrightarrow> job_ok k"
  by (erule job_step.cases)
    (simp_all add: job_lease_Inr job_renew_Inr job_succeed_Inr job_fail_Inr job_cancel_Inr verify_lease_Inr
      inv_defs blank_def, auto)

lemma job_step_version: "job_step j k \<Longrightarrow> j_version k = incr64 (j_version j)"
  unfolding job_step_simps by (auto split: if_splits)

lemma job_step_frame: "job_step j k \<Longrightarrow> j_id k = j_id j \<and> j_plan_id k = j_plan_id j
    \<and> j_cluster_id k = j_cluster_id j \<and> j_command_key k = j_command_key j \<and> j_max_attempts k = j_max_attempts j"
  unfolding job_step_simps by (auto split: if_splits)

lemma job_terminal_stuck: "job_terminal j \<Longrightarrow> \<not> job_step j k"
  unfolding job_step_simps by (auto simp: job_terminal_def job_claimable_iff verify_lease_Inr)

interpretation job_life: lifecycle job_init job_step job_ok j_version job_terminal
proof unfold_locales
  show "job_init j \<Longrightarrow> job_ok j" for j by (auto simp: job_init_def new_job_Inr inv_defs)
qed (auto intro: job_step_ok job_step_version job_terminal_stuck [THEN notE])

text \<open>
  A lease excludes the others: until its deadline passes, no worker but the owner renews,
  completes or fails the job, and nobody leases it again.
\<close>

lemma lease_excludes:
  assumes "job_lease j owner now d = Inr k" "now \<le> t" "t < now + d" "other \<noteq> trim_space owner"
  shows "\<not> job_claimable k t" "verify_lease k other t = Inl lease_not_owned"
    "job_renew k other t d' = Inl lease_not_owned"
  using assms by (auto simp: job_lease_Inr job_claimable_iff verify_lease_def job_renew_def)

text \<open>At the deadline itself both the owner may still complete and another worker may lease.\<close>

lemma lease_boundary:
  assumes "job_lease j owner now d = Inr k"
  shows "job_claimable k (now + d) \<and> verify_lease k (trim_space owner) (now + d) = Inr ()"
  using assms by (auto simp: job_lease_Inr job_claimable_iff verify_lease_Inr)

text \<open>
  \<open>Lease\<close> does not look at the attempt limit: a worker that dies holding the lease leaves the job
  claimable, however many attempts it has used.
\<close>

lemma lease_ignores_limit:
  assumes "job_ok j" "j_status j = JobLeased" "j_lease_until j = Some u" "u \<le> now"
    and "\<not> blank owner" "second \<le> d" "d \<le> 10 * minute" "j_max_attempts j \<le> j_attempts j" "j_attempts j < 1000"
  shows "\<exists>k. job_lease j owner now d = Inr k \<and> j_attempts k = j_attempts j + 1 \<and> j_max_attempts k < j_attempts k"
proof -
  have "in_i64 (j_attempts j)" using assms by (auto simp: inv_defs in_i64_def)
  then show ?thesis
    using assms by (auto simp: job_lease_Inr job_claimable_iff incr64_small)
qed

section \<open>Summaries\<close>

record job_summary =
  js_total :: i64
  js_pending :: i64
  js_leased :: i64
  js_succeeded :: i64
  js_retryable :: i64
  js_permanent_failure :: i64
  js_cancelled :: i64

fun tally_job :: "job_summary \<Rightarrow> job_status \<Rightarrow> job_summary" where
  "tally_job s JobPending = s\<lparr>js_pending := js_pending s + 1\<rparr>"
| "tally_job s JobLeased = s\<lparr>js_leased := js_leased s + 1\<rparr>"
| "tally_job s JobSucceeded = s\<lparr>js_succeeded := js_succeeded s + 1\<rparr>"
| "tally_job s JobRetryable = s\<lparr>js_retryable := js_retryable s + 1\<rparr>"
| "tally_job s JobPermanentFailure = s\<lparr>js_permanent_failure := js_permanent_failure s + 1\<rparr>"
| "tally_job s JobCancelled = s\<lparr>js_cancelled := js_cancelled s + 1\<rparr>"

definition summarize_jobs :: "job list \<Rightarrow> job_summary" where
  "summarize_jobs jobs = foldl (\<lambda>s j. tally_job s (j_status j))
     \<lparr>js_total = int (length jobs), js_pending = 0, js_leased = 0, js_succeeded = 0, js_retryable = 0,
      js_permanent_failure = 0, js_cancelled = 0\<rparr> jobs"

abbreviation status_count :: "job_status \<Rightarrow> job list \<Rightarrow> int" where
  "status_count st jobs \<equiv> int (count_where (\<lambda>j. j_status j = st) jobs)"

lemma tally_jobs: "foldl (\<lambda>s j. tally_job s (j_status j)) s jobs =
    \<lparr>js_total = js_total s, js_pending = js_pending s + status_count JobPending jobs,
     js_leased = js_leased s + status_count JobLeased jobs,
     js_succeeded = js_succeeded s + status_count JobSucceeded jobs,
     js_retryable = js_retryable s + status_count JobRetryable jobs,
     js_permanent_failure = js_permanent_failure s + status_count JobPermanentFailure jobs,
     js_cancelled = js_cancelled s + status_count JobCancelled jobs\<rparr>"
proof (induction jobs arbitrary: s)
  case (Cons j jobs)
  then show ?case by (cases "j_status j") simp_all
qed simp

lemma summarize_jobs_total: "summarize_jobs jobs = s \<Longrightarrow>
    js_total s = js_pending s + js_leased s + js_succeeded s + js_retryable s + js_permanent_failure s + js_cancelled s"
proof -
  have "int (length jobs) = status_count JobPending jobs + status_count JobLeased jobs
      + status_count JobSucceeded jobs + status_count JobRetryable jobs
      + status_count JobPermanentFailure jobs + status_count JobCancelled jobs"
  proof (induction jobs)
    case (Cons j jobs)
    then show ?case by (cases "j_status j") simp_all
  qed simp
  then show "summarize_jobs jobs = s \<Longrightarrow> ?thesis" by (auto simp: summarize_jobs_def tally_jobs)
qed

end
