(* ===== verification/Telemetry.thy ===== *)
theory Telemetry
  imports Fault Interfaces
begin

text \<open>
  \<open>internal/telemetry\<close>: snapshots of a cluster, the alarm thresholds, their evaluation and the
  page filter.
\<close>

record snapshot =
  t_id :: string
  t_cluster_id :: string
  t_sequence :: i64
  t_observed_at :: time
  t_soc :: i64
  t_power_kw :: i64
  t_temperature :: i64
  t_energy_wh :: i64
  t_received_at :: time

record reading =
  rd_cluster_id :: string
  rd_sequence :: i64
  rd_observed_at :: time
  rd_soc :: i64
  rd_power_kw :: i64
  rd_temperature :: i64
  rd_energy_wh :: i64

definition new_snapshot :: "string \<Rightarrow> reading \<Rightarrow> time \<Rightarrow> snapshot res" where
  "new_snapshot uuid input received =
     (if blank (rd_cluster_id input) then
        Inl (new_fault Invalid ''missing_cluster'' ''telemetry cluster is required'')
      else if rd_sequence input \<le> 0 then
        Inl (new_fault Invalid ''invalid_sequence'' ''telemetry sequence must be positive'')
      else if rd_observed_at input = 0 then
        Inl (new_fault Invalid ''missing_observed_at'' ''telemetry observation time is required'')
      else if time_add received (2 * minute) < rd_observed_at input
          \<or> rd_observed_at input < time_add received (- (24 * hour)) then
        Inl (new_fault Invalid ''observation_outside_window''
          ''telemetry observation time is outside the accepted window'')
      else if rd_soc input < 0 \<or> 100 < rd_soc input then
        Inl (new_fault Invalid ''invalid_soc'' ''SOC must be between 0 and 100'')
      else if rd_power_kw input < - 10000000 \<or> 10000000 < rd_power_kw input then
        Inl (new_fault Invalid ''invalid_power'' ''telemetry power is outside supported range'')
      else if rd_temperature input < - 50000 \<or> 150000 < rd_temperature input then
        Inl (new_fault Invalid ''invalid_temperature'' ''temperature is outside supported range'')
      else Inr \<lparr>t_id = uuid, t_cluster_id = rd_cluster_id input, t_sequence = rd_sequence input,
        t_observed_at = rd_observed_at input, t_soc = rd_soc input, t_power_kw = rd_power_kw input,
        t_temperature = rd_temperature input, t_energy_wh = rd_energy_wh input, t_received_at = received\<rparr>)"

definition snapshot_ok :: "snapshot \<Rightarrow> bool" where
  [inv_defs]: "snapshot_ok s \<longleftrightarrow> \<not> blank (t_cluster_id s) \<and> 0 < t_sequence s
     \<and> t_observed_at s \<le> t_received_at s + 2 * minute \<and> t_received_at s - 24 * hour \<le> t_observed_at s
     \<and> 0 \<le> t_soc s \<and> t_soc s \<le> 100 \<and> - 50000 \<le> t_temperature s \<and> t_temperature s \<le> 150000"

lemma new_snapshot_ok: "new_snapshot uuid input now = Inr s \<Longrightarrow> snapshot_ok s \<and> t_received_at s = now
    \<and> t_cluster_id s = rd_cluster_id input \<and> t_sequence s = rd_sequence input \<and> t_soc s = rd_soc input
    \<and> t_observed_at s = rd_observed_at input \<and> t_temperature s = rd_temperature input \<and> t_id s = uuid"
  by (auto simp: new_snapshot_def inv_defs time_add_def split: if_splits)

section \<open>Thresholds and conditions\<close>

record thresholds =
  th_low_soc :: i64
  th_high_soc :: i64
  th_high_temperature :: i64
  th_critical_temperature :: i64

definition default_thresholds :: thresholds where
  "default_thresholds = \<lparr>th_low_soc = 10, th_high_soc = 95, th_high_temperature = 50000,
     th_critical_temperature = 60000\<rparr>"

definition thresholds_validate :: "thresholds \<Rightarrow> unit res" where
  "thresholds_validate t =
     (if th_low_soc t < 0 \<or> 50 < th_low_soc t \<or> th_high_soc t < 50 \<or> 100 < th_high_soc t
          \<or> th_high_soc t \<le> th_low_soc t then
        Inl (new_fault Invalid ''invalid_soc_thresholds'' ''SOC alarm thresholds are invalid'')
      else if th_high_temperature t < 20000 \<or> 150000 < th_critical_temperature t
          \<or> th_critical_temperature t \<le> th_high_temperature t then
        Inl (new_fault Invalid ''invalid_temperature_thresholds'' ''temperature alarm thresholds are invalid'')
      else Inr ())"

record condition =
  cd_type :: string
  cd_severity :: string
  cd_fingerprint :: string
  cd_message :: string

definition soc_low_condition :: "snapshot \<Rightarrow> thresholds \<Rightarrow> condition" where
  "soc_low_condition s t =
     \<lparr>cd_type = ''soc_low'', cd_severity = ''critical'', cd_fingerprint = t_cluster_id s @ '':soc_low'',
      cd_message = ''cluster SOC '' @ int_text (t_soc s) @ ''% is at or below '' @ int_text (th_low_soc t) @ ''%''\<rparr>"

definition soc_high_condition :: "snapshot \<Rightarrow> thresholds \<Rightarrow> condition" where
  "soc_high_condition s t =
     \<lparr>cd_type = ''soc_high'', cd_severity = ''warning'', cd_fingerprint = t_cluster_id s @ '':soc_high'',
      cd_message = ''cluster SOC '' @ int_text (t_soc s) @ ''% is at or above '' @ int_text (th_high_soc t) @ ''%''\<rparr>"

definition temperature_critical_condition :: "snapshot \<Rightarrow> condition" where
  "temperature_critical_condition s =
     \<lparr>cd_type = ''temperature_high'', cd_severity = ''critical'',
      cd_fingerprint = t_cluster_id s @ '':temperature_high'',
      cd_message = ''cluster temperature '' @ int_text (t_temperature s) @ '' mC is critical''\<rparr>"

definition temperature_high_condition :: "snapshot \<Rightarrow> condition" where
  "temperature_high_condition s =
     \<lparr>cd_type = ''temperature_high'', cd_severity = ''warning'',
      cd_fingerprint = t_cluster_id s @ '':temperature_high'',
      cd_message = ''cluster temperature '' @ int_text (t_temperature s) @ '' mC is high''\<rparr>"

definition evaluate :: "snapshot \<Rightarrow> thresholds \<Rightarrow> condition list res" where
  "evaluate s t =
     (case thresholds_validate t of Inl e \<Rightarrow> Inl e | Inr _ \<Rightarrow>
      Inr ((if t_soc s \<le> th_low_soc t then [soc_low_condition s t] else [])
         @ (if th_high_soc t \<le> t_soc s then [soc_high_condition s t] else [])
         @ (if th_critical_temperature t \<le> t_temperature s then [temperature_critical_condition s]
            else if th_high_temperature t \<le> t_temperature s then [temperature_high_condition s]
            else [])))"

definition is_healthy :: "snapshot \<Rightarrow> thresholds \<Rightarrow> bool" where
  "is_healthy s t = (case evaluate s t of Inl _ \<Rightarrow> False | Inr cs \<Rightarrow> cs = [])"

lemmas condition_defs = soc_low_condition_def soc_high_condition_def
  temperature_critical_condition_def temperature_high_condition_def

lemma thresholds_validate_Inr: "thresholds_validate t = Inr u \<longleftrightarrow>
    0 \<le> th_low_soc t \<and> th_low_soc t \<le> 50 \<and> 50 \<le> th_high_soc t \<and> th_high_soc t \<le> 100
    \<and> th_low_soc t < th_high_soc t \<and> 20000 \<le> th_high_temperature t
    \<and> th_critical_temperature t \<le> 150000 \<and> th_high_temperature t < th_critical_temperature t"
  by (auto simp: thresholds_validate_def)

lemma default_thresholds_valid: "thresholds_validate default_thresholds = Inr ()"
  by (simp add: thresholds_validate_def default_thresholds_def)

lemma evaluate_Inr: "evaluate s t = Inr cs \<Longrightarrow> thresholds_validate t = Inr ()"
  by (auto simp: evaluate_def split: sum.splits)

text \<open>
  At most two conditions hold at once, the state of charge being out on one side only, and their
  fingerprints differ; a snapshot is healthy exactly inside the open band of the thresholds.
\<close>

lemma evaluate_conditions:
  assumes "evaluate s t = Inr cs"
  shows "length cs \<le> 2" "distinct (map cd_fingerprint cs)"
    "\<And>c. c \<in> set cs \<Longrightarrow> cd_fingerprint c = t_cluster_id s @ '':'' @ cd_type c"
proof -
  have valid: "thresholds_validate t = Inr ()" using assms by (rule evaluate_Inr)
  then have "\<not> (t_soc s \<le> th_low_soc t \<and> th_high_soc t \<le> t_soc s)"
    by (auto simp: thresholds_validate_Inr)
  then show "length cs \<le> 2" "distinct (map cd_fingerprint cs)"
    "\<And>c. c \<in> set cs \<Longrightarrow> cd_fingerprint c = t_cluster_id s @ '':'' @ cd_type c"
    using assms valid by (auto simp: evaluate_def condition_defs split: if_splits)
qed

lemma is_healthy_iff: "thresholds_validate t = Inr () \<Longrightarrow> is_healthy s t \<longleftrightarrow>
    th_low_soc t < t_soc s \<and> t_soc s < th_high_soc t \<and> t_temperature s < th_high_temperature t"
proof -
  assume valid: "thresholds_validate t = Inr ()"
  then have "th_high_temperature t < th_critical_temperature t" by (simp add: thresholds_validate_Inr)
  with valid show ?thesis by (auto simp: is_healthy_def evaluate_def)
qed

section \<open>The page filter\<close>

record page_filter =
  pf_cluster_id :: string
  pf_from :: "time option"
  pf_until :: "time option"
  pf_limit :: i64
  pf_offset :: i64

text \<open>\<open>copy.From != nil && copy.Until != nil && !copy.From.Before(*copy.Until)\<close>.\<close>

definition bounds_disordered :: "time option \<Rightarrow> time option \<Rightarrow> bool" where
  "bounds_disordered from_time until_time =
     (case (from_time, until_time) of (Some a, Some b) \<Rightarrow> \<not> a < b | _ \<Rightarrow> False)"

definition page_filter_normalize :: "page_filter \<Rightarrow> page_filter res" where
  "page_filter_normalize f =
     (let f = f\<lparr>pf_cluster_id := trim_space (pf_cluster_id f)\<rparr> in
      if pf_cluster_id f = '''' then
        Inl (new_fault Invalid ''missing_cluster'' ''telemetry cluster is required'')
      else let f = (if pf_limit f = 0 then f\<lparr>pf_limit := 100\<rparr> else f) in
      if pf_limit f < 1 \<or> 1000 < pf_limit f then
        Inl (new_fault Invalid ''invalid_page_limit'' ''page limit must be between 1 and 1000'')
      else if pf_offset f < 0 then
        Inl (new_fault Invalid ''invalid_page_offset'' ''page offset cannot be negative'')
      else if bounds_disordered (pf_from f) (pf_until f) then
        Inl (new_fault Invalid ''invalid_filter_window'' ''filter end must follow start'')
      else Inr f)"

lemma page_filter_normalize_ok: "page_filter_normalize f = Inr g \<Longrightarrow>
    page_filter_normalize g = Inr g \<and> 1 \<le> pf_limit g \<and> pf_limit g \<le> 1000 \<and> 0 \<le> pf_offset g"
  by (auto simp: page_filter_normalize_def Let_def trim_space_idem split: if_splits)

end
