(* ===== verification/Alarm.thy ===== *)
theory Alarm
  imports Fault Interfaces
begin

text \<open>
  \<open>internal/alarm\<close>: alarms, their acknowledgement and resolution, the list filter and the
  results of batch operations.
\<close>

datatype alarm_status = AlarmOpen | AlarmAcknowledged | AlarmResolved

datatype severity = SeverityWarning | SeverityCritical | SeverityOther string

fun alarm_status_text :: "alarm_status \<Rightarrow> string" where
  "alarm_status_text AlarmOpen = ''open''"
| "alarm_status_text AlarmAcknowledged = ''acknowledged''"
| "alarm_status_text AlarmResolved = ''resolved''"

record alarm =
  a_id :: string
  a_site_id :: string
  a_cluster_id :: string
  a_type :: string
  a_severity :: severity
  a_status :: alarm_status
  a_fingerprint :: string
  a_message :: string
  a_opened_at :: time
  a_acknowledged_by :: string
  a_acknowledged_at :: "time option"
  a_resolved_by :: string
  a_resolved_at :: "time option"
  a_version :: i64
  a_updated_at :: time

record new_alarm =
  na_site_id :: string
  na_cluster_id :: string
  na_type :: string
  na_fingerprint :: string
  na_message :: string
  na_severity :: severity

definition alarm_create :: "string \<Rightarrow> new_alarm \<Rightarrow> time \<Rightarrow> alarm res" where
  "alarm_create uuid input now =
     (if blank (na_site_id input) \<or> blank (na_cluster_id input) then
        Inl (new_fault Invalid ''missing_alarm_owner'' ''site and cluster are required'')
      else if blank (na_type input) \<or> blank (na_fingerprint input) then
        Inl (new_fault Invalid ''invalid_alarm_identity'' ''alarm type and fingerprint are required'')
      else if na_severity input \<noteq> SeverityWarning \<and> na_severity input \<noteq> SeverityCritical then
        Inl (new_fault Invalid ''invalid_alarm_severity'' ''alarm severity must be warning or critical'')
      else let message = trim_space (na_message input) in
      if length message < 5 \<or> 500 < length message then
        Inl (new_fault Invalid ''invalid_alarm_message'' ''alarm message must contain 5 to 500 characters'')
      else Inr \<lparr>a_id = uuid, a_site_id = na_site_id input, a_cluster_id = na_cluster_id input,
        a_type = na_type input, a_severity = na_severity input, a_status = AlarmOpen,
        a_fingerprint = na_fingerprint input, a_message = message, a_opened_at = now,
        a_acknowledged_by = '''', a_acknowledged_at = None, a_resolved_by = '''', a_resolved_at = None,
        a_version = 1, a_updated_at = now\<rparr>)"

definition alarm_transition_error :: "alarm_status \<Rightarrow> alarm_status \<Rightarrow> go_error" where
  "alarm_transition_error current next =
     with_fields (new_fault Conflict ''invalid_alarm_transition'' ''alarm transition is not allowed'')
       [(''current'', alarm_status_text current), (''next'', alarm_status_text next)]"

definition alarm_acknowledge :: "alarm \<Rightarrow> string \<Rightarrow> i64 \<Rightarrow> time \<Rightarrow> alarm res" where
  "alarm_acknowledge a actor expected now =
     (if a_version a \<noteq> expected then Inl err_version_conflict
      else if a_status a \<noteq> AlarmOpen then Inl (alarm_transition_error (a_status a) AlarmAcknowledged)
      else if blank actor then
        Inl (new_fault Invalid ''actor_required'' ''alarm acknowledgement actor is required'')
      else Inr (a\<lparr>a_status := AlarmAcknowledged, a_acknowledged_by := actor,
        a_acknowledged_at := Some now, a_version := incr64 (a_version a), a_updated_at := now\<rparr>))"

definition alarm_resolve :: "alarm \<Rightarrow> string \<Rightarrow> i64 \<Rightarrow> bool \<Rightarrow> time \<Rightarrow> alarm res" where
  "alarm_resolve a actor expected recovered now =
     (if a_version a \<noteq> expected then Inl err_version_conflict
      else if a_status a \<noteq> AlarmAcknowledged then Inl (alarm_transition_error (a_status a) AlarmResolved)
      else if \<not> recovered then
        Inl (new_fault Conflict ''condition_not_recovered'' ''alarm condition must recover before resolution'')
      else if blank actor then
        Inl (new_fault Invalid ''actor_required'' ''alarm resolution actor is required'')
      else Inr (a\<lparr>a_status := AlarmResolved, a_resolved_by := actor,
        a_resolved_at := Some now, a_version := incr64 (a_version a), a_updated_at := now\<rparr>))"

definition alarm_escalate :: "alarm \<Rightarrow> string \<Rightarrow> time \<Rightarrow> alarm res" where
  "alarm_escalate a message now =
     (if a_status a = AlarmResolved then
        Inl (new_fault Conflict ''alarm_resolved'' ''resolved alarm cannot be escalated'')
      else let message = trim_space message in
      if message = '''' then Inl (new_fault Invalid ''message_required'' ''escalation message is required'')
      else Inr (a\<lparr>a_severity := SeverityCritical, a_message := message,
        a_version := incr64 (a_version a), a_updated_at := now\<rparr>))"

section \<open>The lifecycle of an alarm\<close>

text \<open>
  An alarm records who acknowledged and who resolved it, and when, exactly once it has reached
  the status.
\<close>

definition alarm_ok :: "alarm \<Rightarrow> bool" where
  [inv_defs]: "alarm_ok a \<longleftrightarrow> \<not> blank (a_site_id a) \<and> \<not> blank (a_cluster_id a) \<and> \<not> blank (a_fingerprint a)
     \<and> a_severity a \<in> {SeverityWarning, SeverityCritical} \<and> a_message a \<noteq> ''''
     \<and> (a_status a = AlarmOpen \<longleftrightarrow> a_acknowledged_at a = None)
     \<and> (a_status a = AlarmOpen \<longleftrightarrow> blank (a_acknowledged_by a))
     \<and> (a_status a = AlarmResolved \<longleftrightarrow> a_resolved_at a \<noteq> None)
     \<and> (a_status a = AlarmResolved \<longleftrightarrow> \<not> blank (a_resolved_by a))"

lemma alarm_create_ok:
  assumes "alarm_create uuid input now = Inr a"
  shows "alarm_ok a \<and> a_status a = AlarmOpen \<and> a_version a = 1 \<and> a_fingerprint a = na_fingerprint input
    \<and> a_cluster_id a = na_cluster_id input \<and> a_site_id a = na_site_id input \<and> a_id a = uuid
    \<and> a_type a = na_type input \<and> a_severity a = na_severity input"
  using assms by (auto simp: alarm_create_def inv_defs Let_def split: if_splits)

lemma alarm_acknowledge_Inr: "alarm_acknowledge a actor v now = Inr b \<longleftrightarrow>
    a_version a = v \<and> a_status a = AlarmOpen \<and> \<not> blank actor \<and>
    b = a\<lparr>a_status := AlarmAcknowledged, a_acknowledged_by := actor, a_acknowledged_at := Some now,
        a_version := incr64 (a_version a), a_updated_at := now\<rparr>"
  by (auto simp: alarm_acknowledge_def)

lemma alarm_resolve_Inr: "alarm_resolve a actor v recovered now = Inr b \<longleftrightarrow>
    a_version a = v \<and> a_status a = AlarmAcknowledged \<and> recovered \<and> \<not> blank actor \<and>
    b = a\<lparr>a_status := AlarmResolved, a_resolved_by := actor, a_resolved_at := Some now,
        a_version := incr64 (a_version a), a_updated_at := now\<rparr>"
  by (auto simp: alarm_resolve_def)

lemma alarm_escalate_Inr: "alarm_escalate a m now = Inr b \<longleftrightarrow>
    a_status a \<noteq> AlarmResolved \<and> trim_space m \<noteq> '''' \<and>
    b = a\<lparr>a_severity := SeverityCritical, a_message := trim_space m,
        a_version := incr64 (a_version a), a_updated_at := now\<rparr>"
  by (auto simp: alarm_escalate_def Let_def)

inductive alarm_step :: "alarm \<Rightarrow> alarm \<Rightarrow> bool" where
  acknowledge: "alarm_acknowledge a actor v now = Inr b \<Longrightarrow> alarm_step a b"
| resolve: "alarm_resolve a actor v recovered now = Inr b \<Longrightarrow> alarm_step a b"
| escalate: "alarm_escalate a m now = Inr b \<Longrightarrow> alarm_step a b"

inductive_simps alarm_step_iff: "alarm_step a b"

lemmas alarm_step_simps = alarm_step_iff alarm_acknowledge_Inr alarm_resolve_Inr alarm_escalate_Inr

definition alarm_init :: "alarm \<Rightarrow> bool" where
  "alarm_init a \<longleftrightarrow> (\<exists>uuid input now. alarm_create uuid input now = Inr a)"

lemma alarm_step_ok: "alarm_ok a \<Longrightarrow> alarm_step a b \<Longrightarrow> alarm_ok b"
  unfolding alarm_step_simps by (auto simp: inv_defs)

lemma alarm_step_version: "alarm_step a b \<Longrightarrow> a_version b = incr64 (a_version a)"
  unfolding alarm_step_simps by auto

lemma alarm_terminal_stuck: "a_status a = AlarmResolved \<Longrightarrow> \<not> alarm_step a b"
  unfolding alarm_step_simps by auto

interpretation alarm_life: lifecycle alarm_init alarm_step alarm_ok a_version "\<lambda>a. a_status a = AlarmResolved"
  by unfold_locales
    (auto simp: alarm_init_def dest: alarm_create_ok intro: alarm_step_ok alarm_step_version
      alarm_terminal_stuck [THEN notE])

section \<open>Filter and batch results\<close>

record alarm_filter =
  af_site_id :: string
  af_status :: string
  af_severity :: string
  af_limit :: i64
  af_offset :: i64

definition alarm_filter_normalize :: "alarm_filter \<Rightarrow> alarm_filter res" where
  "alarm_filter_normalize f =
     (let f = f\<lparr>af_site_id := trim_space (af_site_id f)\<rparr>;
          f = (if af_limit f = 0 then f\<lparr>af_limit := 50\<rparr> else f) in
      if af_limit f < 1 \<or> 200 < af_limit f then
        Inl (new_fault Invalid ''invalid_page_limit'' ''page limit must be between 1 and 200'')
      else if af_offset f < 0 then
        Inl (new_fault Invalid ''invalid_page_offset'' ''page offset cannot be negative'')
      else Inr f)"

record item_result =
  ir_id :: string
  ir_status :: string
  ir_error_code :: string

record batch_result =
  br_items :: "item_result list"
  br_succeeded :: i64
  br_failed :: i64

definition build_batch_result :: "item_result list \<Rightarrow> batch_result" where
  "build_batch_result results = foldl
     (\<lambda>out item. if ir_error_code item = '''' then out\<lparr>br_succeeded := br_succeeded out + 1\<rparr>
        else out\<lparr>br_failed := br_failed out + 1\<rparr>)
     \<lparr>br_items = results, br_succeeded = 0, br_failed = 0\<rparr> results"

lemma build_batch_fold: "foldl
     (\<lambda>out item. if ir_error_code item = '''' then out\<lparr>br_succeeded := br_succeeded out + 1\<rparr>
        else out\<lparr>br_failed := br_failed out + 1\<rparr>) out items =
    \<lparr>br_items = br_items out, br_succeeded = br_succeeded out + int (count_where (\<lambda>i. ir_error_code i = '''') items),
     br_failed = br_failed out + int (count_where (\<lambda>i. ir_error_code i \<noteq> '''') items)\<rparr>"
  by (induction items arbitrary: out) simp_all

lemma build_batch_result_eq: "build_batch_result items =
    \<lparr>br_items = items, br_succeeded = int (count_where (\<lambda>i. ir_error_code i = '''') items),
     br_failed = int (count_where (\<lambda>i. ir_error_code i \<noteq> '''') items)\<rparr>"
  by (simp add: build_batch_result_def build_batch_fold)

lemma count_where_split: "count_where P xs + count_where (\<lambda>x. \<not> P x) xs = length xs"
  by (induction xs) auto

lemma batch_counts: "br_succeeded (build_batch_result items) + br_failed (build_batch_result items)
    = int (length (br_items (build_batch_result items)))"
  using count_where_split [of "\<lambda>i. ir_error_code i = ''''" items]
  by (simp add: build_batch_result_eq flip: of_nat_add)

end
