(* ===== verification/Settlement.thy ===== *)
theory Settlement
  imports Fault Clock Interfaces
begin

text \<open>
  \<open>internal/settlement\<close>: settlement periods, the entry of a plan with its deviation and amount,
  and the summary of a period.
\<close>

datatype period_status = PeriodOpen | PeriodCalculating | PeriodClosed

record period =
  pd_id :: string
  pd_site_id :: string
  pd_window :: window
  pd_status :: period_status
  pd_closed_by :: string
  pd_closed_at :: "time option"
  pd_version :: i64
  pd_created_at :: time
  pd_updated_at :: time

definition new_period :: "string \<Rightarrow> string \<Rightarrow> time \<Rightarrow> time \<Rightarrow> time \<Rightarrow> period res" where
  "new_period uuid site_id start finish now =
     (if blank site_id then Inl (new_fault Invalid ''missing_site'' ''settlement site is required'')
      else case new_window start finish of
        None \<Rightarrow> Inl (new_fault Invalid ''invalid_period_window'' ''settlement end must follow start'')
      | Some w \<Rightarrow>
      if window_duration w < hour \<or> 366 * 24 * hour < window_duration w then
        Inl (new_fault Invalid ''invalid_period_duration'' ''settlement duration is outside supported range'')
      else Inr \<lparr>pd_id = uuid, pd_site_id = site_id, pd_window = w, pd_status = PeriodOpen,
        pd_closed_by = '''', pd_closed_at = None, pd_version = 1, pd_created_at = now, pd_updated_at = now\<rparr>)"

definition period_begin :: "period \<Rightarrow> i64 \<Rightarrow> i64 \<Rightarrow> i64 \<Rightarrow> time \<Rightarrow> period res" where
  "period_begin p expected completed unsettled now =
     (if pd_version p \<noteq> expected then Inl err_version_conflict
      else if pd_status p \<noteq> PeriodOpen then
        Inl (new_fault Conflict ''period_not_open'' ''only open settlement periods can calculate'')
      else if now < w_end (pd_window p) then
        Inl (new_fault Conflict ''period_not_ended'' ''settlement period has not ended'')
      else if completed = 0 then
        Inl (new_fault Conflict ''period_empty'' ''settlement period has no completed plans'')
      else if unsettled \<noteq> completed then
        Inl (new_fault Conflict ''plan_scope_mismatch'' ''all completed plans must be included in settlement'')
      else Inr (p\<lparr>pd_status := PeriodCalculating, pd_version := incr64 (pd_version p), pd_updated_at := now\<rparr>))"

definition period_close :: "period \<Rightarrow> string \<Rightarrow> i64 \<Rightarrow> i64 \<Rightarrow> i64 \<Rightarrow> time \<Rightarrow> period res" where
  "period_close p actor expected expected_entries actual_entries now =
     (if pd_version p \<noteq> expected then Inl err_version_conflict
      else if pd_status p \<noteq> PeriodCalculating then
        Inl (new_fault Conflict ''period_not_calculating'' ''period must calculate before closure'')
      else if expected_entries \<le> 0 \<or> expected_entries \<noteq> actual_entries then
        Inl (new_fault Conflict ''settlement_incomplete'' ''settlement entries are incomplete'')
      else if blank actor then
        Inl (new_fault Invalid ''actor_required'' ''settlement closure actor is required'')
      else Inr (p\<lparr>pd_status := PeriodClosed, pd_closed_by := actor, pd_closed_at := Some now,
        pd_version := incr64 (pd_version p), pd_updated_at := now\<rparr>))"

definition period_accepts :: "period \<Rightarrow> time \<Rightarrow> bool" where
  "period_accepts p at \<longleftrightarrow> pd_status p \<noteq> PeriodClosed \<and> window_contains (pd_window p) at"

section \<open>Entries and summaries\<close>

record entry =
  e_id :: string
  e_period_id :: string
  e_plan_id :: string
  e_planned_wh :: i64
  e_actual_wh :: i64
  e_deviation_wh :: i64
  e_amount :: i64
  e_created_at :: time

definition new_entry :: "string \<Rightarrow> string \<Rightarrow> string \<Rightarrow> i64 \<Rightarrow> i64 \<Rightarrow> i64 \<Rightarrow> time \<Rightarrow> entry res" where
  "new_entry uuid period_id plan_id planned actual price now =
     (if blank period_id \<or> blank plan_id then
        Inl (new_fault Invalid ''missing_entry_owner'' ''period and plan are required'')
      else if planned \<le> 0 \<or> actual < 0 then
        Inl (new_fault Invalid ''invalid_energy'' ''settlement energy values are invalid'')
      else if price < 0 then
        Inl (new_fault Invalid ''invalid_price'' ''settlement price cannot be negative'')
      else Inr \<lparr>e_id = uuid, e_period_id = period_id, e_plan_id = plan_id, e_planned_wh = planned,
        e_actual_wh = actual, e_deviation_wh = wrap64 (actual - planned),
        e_amount = go_div (wrap64 (actual * price)) 1000, e_created_at = now\<rparr>)"

record summary =
  sm_planned_wh :: i64
  sm_actual_wh :: i64
  sm_deviation_wh :: i64
  sm_amount :: i64
  sm_entry_count :: i64

definition add_entry :: "summary \<Rightarrow> entry \<Rightarrow> summary" where
  "add_entry s e = s\<lparr>sm_planned_wh := wrap64 (sm_planned_wh s + e_planned_wh e),
     sm_actual_wh := wrap64 (sm_actual_wh s + e_actual_wh e),
     sm_deviation_wh := wrap64 (sm_deviation_wh s + e_deviation_wh e),
     sm_amount := wrap64 (sm_amount s + e_amount e)\<rparr>"

definition summarize :: "entry list \<Rightarrow> summary" where
  "summarize entries = foldl add_entry
     \<lparr>sm_planned_wh = 0, sm_actual_wh = 0, sm_deviation_wh = 0, sm_amount = 0,
      sm_entry_count = int (length entries)\<rparr> entries"

lemma new_entry_Inr: "new_entry uuid pd pl planned actual price now = Inr e \<longleftrightarrow>
    \<not> blank pd \<and> \<not> blank pl \<and> 0 < planned \<and> 0 \<le> actual \<and> 0 \<le> price \<and>
    e = \<lparr>e_id = uuid, e_period_id = pd, e_plan_id = pl, e_planned_wh = planned, e_actual_wh = actual,
        e_deviation_wh = wrap64 (actual - planned), e_amount = go_div (wrap64 (actual * price)) 1000,
        e_created_at = now\<rparr>"
  by (auto simp: new_entry_def)

text \<open>
  While the product of energy and price fits 64 bits the amount is the exact product, rounded
  down to whole thousandths, and never negative.
\<close>

lemma entry_amount_exact:
  assumes "new_entry uuid pd pl planned actual price now = Inr e" "actual * price \<le> 9223372036854775807"
    and "in_i64 actual" "in_i64 planned"
  shows "e_amount e = actual * price div 1000" "0 \<le> e_amount e" "e_deviation_wh e = actual - planned"
proof -
  from assms(1) have e: "0 < planned" "0 \<le> actual" "0 \<le> price" by (auto simp: new_entry_Inr)
  moreover from this have "0 \<le> actual * price" by simp
  ultimately have "in_i64 (actual * price)" using assms(2) unfolding in_i64_def by linarith
  moreover have "in_i64 (actual - planned)" using e assms(3,4) by (auto simp: in_i64_def)
  ultimately show "e_amount e = actual * price div 1000" "0 \<le> e_amount e" "e_deviation_wh e = actual - planned"
    using assms(1) e by (auto simp: new_entry_Inr go_div_nonneg pos_imp_zdiv_nonneg_iff)
qed

text \<open>Beyond that the product wraps and the amount can be negative: 10 GWh at a price of 1,000,000,000.\<close>

lemma entry_amount_overflow:
  "\<exists>e. new_entry ''e'' ''p'' ''q'' 1 10000000000 1000000000 0 = Inr e \<and> e_amount e = - 8446744073709551"
  by (simp add: new_entry_Inr wrap64_def go_div_def visible_def)

lemma wrap64_add_left: "wrap64 (wrap64 a + b) = wrap64 (a + b)"
  by (simp add: wrap64_def mod_simps algebra_simps)

lemma add_entry_sel [simp]:
  "sm_planned_wh (add_entry s e) = wrap64 (sm_planned_wh s + e_planned_wh e)"
  "sm_actual_wh (add_entry s e) = wrap64 (sm_actual_wh s + e_actual_wh e)"
  "sm_deviation_wh (add_entry s e) = wrap64 (sm_deviation_wh s + e_deviation_wh e)"
  "sm_amount (add_entry s e) = wrap64 (sm_amount s + e_amount e)"
  "sm_entry_count (add_entry s e) = sm_entry_count s"
  by (simp_all add: add_entry_def)

text \<open>The summary is the sum of the entries, up to the wrap-around of the additions.\<close>

lemma summarize_fold: "foldl add_entry s es =
    \<lparr>sm_planned_wh = (if es = [] then sm_planned_wh s else wrap64 (sm_planned_wh s + sum_list (map e_planned_wh es))),
     sm_actual_wh = (if es = [] then sm_actual_wh s else wrap64 (sm_actual_wh s + sum_list (map e_actual_wh es))),
     sm_deviation_wh = (if es = [] then sm_deviation_wh s else wrap64 (sm_deviation_wh s + sum_list (map e_deviation_wh es))),
     sm_amount = (if es = [] then sm_amount s else wrap64 (sm_amount s + sum_list (map e_amount es))),
     sm_entry_count = sm_entry_count s\<rparr>"
proof (induction es arbitrary: s)
  case (Cons e es)
  show ?case
  proof (cases "es = []")
    case True
    then show ?thesis by (simp add: add_entry_def)
  next
    case False
    then show ?thesis by (simp add: Cons.IH [of "add_entry s e"] wrap64_add_left add.assoc)
  qed
qed simp

lemma summarize_sums:
  "sm_planned_wh (summarize es) = wrap64 (sum_list (map e_planned_wh es))"
  "sm_actual_wh (summarize es) = wrap64 (sum_list (map e_actual_wh es))"
  "sm_deviation_wh (summarize es) = wrap64 (sum_list (map e_deviation_wh es))"
  "sm_amount (summarize es) = wrap64 (sum_list (map e_amount es))"
  "sm_entry_count (summarize es) = int (length es)"
  by (simp_all add: summarize_def summarize_fold in_i64_def)

section \<open>The lifecycle of a period\<close>

definition period_ok :: "period \<Rightarrow> bool" where
  [inv_defs]: "period_ok p \<longleftrightarrow> \<not> blank (pd_site_id p)
     \<and> hour \<le> w_end (pd_window p) - w_start (pd_window p)
     \<and> w_end (pd_window p) - w_start (pd_window p) \<le> 366 * 24 * hour
     \<and> (pd_status p = PeriodClosed \<longleftrightarrow> pd_closed_at p \<noteq> None)
     \<and> (pd_status p = PeriodClosed \<longleftrightarrow> \<not> blank (pd_closed_by p))"

lemma new_period_ok: "new_period uuid site_id start finish now = Inr p \<Longrightarrow>
    period_ok p \<and> pd_status p = PeriodOpen \<and> pd_version p = 1 \<and> pd_site_id p = site_id \<and> pd_id p = uuid
    \<and> pd_window p = \<lparr>w_start = start, w_end = finish\<rparr>"
  by (auto simp: new_period_def inv_defs window_duration_def time_sub_def in_i64_def
      split: if_splits option.splits)

lemma period_begin_Inr: "period_begin p v n m now = Inr q \<longleftrightarrow>
    pd_version p = v \<and> pd_status p = PeriodOpen \<and> w_end (pd_window p) \<le> now \<and> n \<noteq> 0 \<and> m = n
    \<and> q = p\<lparr>pd_status := PeriodCalculating, pd_version := incr64 (pd_version p), pd_updated_at := now\<rparr>"
  by (auto simp: period_begin_def)

lemma period_close_Inr: "period_close p actor v n m now = Inr q \<longleftrightarrow>
    pd_version p = v \<and> pd_status p = PeriodCalculating \<and> 0 < n \<and> m = n \<and> \<not> blank actor
    \<and> q = p\<lparr>pd_status := PeriodClosed, pd_closed_by := actor, pd_closed_at := Some now,
        pd_version := incr64 (pd_version p), pd_updated_at := now\<rparr>"
  by (auto simp: period_close_def)

inductive period_step :: "period \<Rightarrow> period \<Rightarrow> bool" where
  begin_calculation: "period_begin p v n m now = Inr q \<Longrightarrow> period_step p q"
| close: "period_close p actor v n m now = Inr q \<Longrightarrow> period_step p q"

inductive_simps period_step_iff: "period_step p q"

lemmas period_step_simps = period_step_iff period_begin_Inr period_close_Inr

definition period_init :: "period \<Rightarrow> bool" where
  "period_init p \<longleftrightarrow> (\<exists>uuid site_id start finish now. new_period uuid site_id start finish now = Inr p)"

lemma period_step_ok: "period_ok p \<Longrightarrow> period_step p q \<Longrightarrow> period_ok q"
  unfolding period_step_simps by (auto simp: inv_defs)

lemma period_step_version: "period_step p q \<Longrightarrow> pd_version q = incr64 (pd_version p)"
  unfolding period_step_simps by auto

lemma period_terminal_stuck: "pd_status p = PeriodClosed \<Longrightarrow> \<not> period_step p q"
  unfolding period_step_simps by auto

interpretation period_life: lifecycle period_init period_step period_ok pd_version "\<lambda>p. pd_status p = PeriodClosed"
  by unfold_locales
    (auto simp: period_init_def dest: new_period_ok intro: period_step_ok period_step_version
      period_terminal_stuck [THEN notE])

end
