(* ===== verification/Idempotency.thy ===== *)
theory Idempotency
  imports Fault
begin

text \<open>
  \<open>internal/idempotency\<close>: the record of a request and its response under a client's key.  The
  digest SHA-256 and the capitals of letters beyond ASCII are arguments; a body is a list of bytes.
\<close>

datatype idem_state = Started | Completed

record idem_record =
  i_id :: string
  i_actor_id :: string
  i_method :: string
  i_path :: string
  i_key :: string
  i_request_hash :: string
  i_response_status :: i64
  i_response_body :: string
  i_state :: idem_state
  i_expires_at :: time
  i_created_at :: time
  i_updated_at :: time

definition idem_start ::
    "(string \<Rightarrow> string) \<Rightarrow> (string \<Rightarrow> string) \<Rightarrow> string \<Rightarrow> string \<Rightarrow> string \<Rightarrow> string \<Rightarrow> string \<Rightarrow> string \<Rightarrow> time \<Rightarrow> duration
     \<Rightarrow> idem_record res" where
  "idem_start upper sha256 uuid actor_id http_method path key request now ttl =
     (let actor_id = trim_space actor_id; http_method = upper_text upper (trim_space http_method);
          path = trim_space path; key = trim_space key in
      if actor_id = '''' \<or> http_method = '''' \<or> path = '''' \<or> key = '''' then
        Inl (new_fault Invalid ''invalid_idempotency_scope'' ''actor, method, path, and key are required'')
      else if length key < 8 \<or> 128 < length key then
        Inl (new_fault Invalid ''invalid_idempotency_key'' ''idempotency key must contain 8 to 128 characters'')
      else if ttl < minute \<or> 7 * 24 * hour < ttl then
        Inl (new_fault Invalid ''invalid_idempotency_ttl'' ''idempotency lifetime is outside policy'')
      else Inr \<lparr>i_id = uuid, i_actor_id = actor_id, i_method = http_method, i_path = path, i_key = key,
        i_request_hash = hex_encode (sha256 request), i_response_status = 0, i_response_body = [],
        i_state = Started, i_expires_at = time_add now ttl, i_created_at = now, i_updated_at = now\<rparr>)"

definition idem_matches :: "(string \<Rightarrow> string) \<Rightarrow> idem_record \<Rightarrow> string \<Rightarrow> bool" where
  "idem_matches sha256 r request \<longleftrightarrow> i_request_hash r = hex_encode (sha256 request)"

definition idem_complete :: "idem_record \<Rightarrow> i64 \<Rightarrow> string \<Rightarrow> time \<Rightarrow> idem_record res" where
  "idem_complete r status body now =
     (if i_state r \<noteq> Started then
        Inl (new_fault Conflict ''idempotency_completed'' ''idempotency record is already complete'')
      else if status < 100 \<or> 599 < status then
        Inl (new_fault Invalid ''invalid_response_status'' ''response status is invalid'')
      else if 1048576 < length body then
        Inl (new_fault Invalid ''response_too_large'' ''idempotent response exceeds one MiB'')
      else Inr (r\<lparr>i_state := Completed, i_response_status := status, i_response_body := body,
        i_updated_at := now\<rparr>))"

definition idem_replay :: "(string \<Rightarrow> string) \<Rightarrow> idem_record \<Rightarrow> string \<Rightarrow> time \<Rightarrow> (i64 \<times> string) res" where
  "idem_replay sha256 r request now =
     (if \<not> now < i_expires_at r then
        Inl (new_fault Conflict ''idempotency_expired'' ''idempotency record expired'')
      else if \<not> idem_matches sha256 r request then
        Inl (new_fault Conflict ''idempotency_payload_mismatch''
          ''idempotency key was used with a different request'')
      else if i_state r \<noteq> Completed then
        Inl (new_fault Conflict ''idempotency_in_progress''
          ''request with this idempotency key is still in progress'')
      else Inr (i_response_status r, i_response_body r))"

lemma hex_encode_inj [simp]: "hex_encode a = hex_encode b \<longleftrightarrow> a = b"
  by (metis hex_decode_encode option.inject)

text \<open>
  A completed record replays its response to the request it was started with, and, while it has
  not expired, refuses every request with another digest.
\<close>

lemma replay_after_complete:
  assumes "idem_start upper sha256 uuid actor m path key request now ttl = Inr r"
    and "idem_complete r status body t = Inr c" "later < now + ttl"
  shows "idem_replay sha256 c request later = Inr (status, body)"
  using assms
  by (auto simp: idem_start_def idem_complete_def idem_replay_def idem_matches_def time_add_def Let_def
      split: if_splits)

lemma replay_other_request:
  assumes "idem_start upper sha256 uuid actor m path key request now ttl = Inr r"
    and "idem_complete r status body t = Inr c" "later < now + ttl" "sha256 other \<noteq> sha256 request"
  shows "idem_replay sha256 c other later =
    Inl (new_fault Conflict ''idempotency_payload_mismatch'' ''idempotency key was used with a different request'')"
  using assms
  by (auto simp: idem_start_def idem_complete_def idem_replay_def idem_matches_def time_add_def Let_def
      split: if_splits)

lemma idem_complete_once: "idem_complete r s b t = Inr c \<Longrightarrow>
    idem_complete c s' b' t' =
      Inl (new_fault Conflict ''idempotency_completed'' ''idempotency record is already complete'')"
  by (auto simp: idem_complete_def split: if_splits)

text \<open>The scope a record is stored under is the trimmed one, with the method in capitals.\<close>

lemma idem_start_scope: "idem_start upper sha256 uuid actor m path key request now ttl = Inr r \<Longrightarrow>
    i_actor_id r = trim_space actor \<and> i_method r = upper_text upper (trim_space m)
    \<and> i_path r = trim_space path \<and> i_key r = trim_space key
    \<and> i_state r = Started \<and> i_id r = uuid \<and> i_expires_at r = now + ttl
    \<and> i_request_hash r = hex_encode (sha256 request)"
  by (auto simp: idem_start_def time_add_def Let_def split: if_splits)

end
