(* ===== verification/AuditLog.thy ===== *)
theory AuditLog
  imports Fault
begin

text \<open>
  \<open>internal/audit\<close>: audit events and the filter of their list.  The details of an event arrive as
  the outcome of \<open>json.Marshal\<close>; \<open>json_object\<close> renders the flat objects the services pass,
  whose keys are listed in the order in which Go sorts them.
\<close>

record event =
  ev_id :: string
  ev_actor_id :: string
  ev_request_id :: string
  ev_object_type :: string
  ev_object_id :: string
  ev_action :: string
  ev_result :: string
  ev_details :: string
  ev_occurred_at :: time

definition zero_event :: event where
  "zero_event = \<lparr>ev_id = '''', ev_actor_id = '''', ev_request_id = '''', ev_object_type = '''',
     ev_object_id = '''', ev_action = '''', ev_result = '''', ev_details = '''', ev_occurred_at = 0\<rparr>"

definition new_event ::
    "string \<Rightarrow> string \<Rightarrow> string \<Rightarrow> string \<Rightarrow> string \<Rightarrow> string \<Rightarrow> string \<Rightarrow> string res \<Rightarrow> time \<Rightarrow> event res" where
  "new_event uuid actor_id request_id object_type object_id action outcome details now =
     (let request_id = trim_space request_id; object_type = trim_space object_type;
          object_id = trim_space object_id; action = trim_space action; outcome = trim_space outcome in
      if request_id = '''' \<or> object_type = '''' \<or> object_id = '''' \<or> action = '''' \<or> outcome = '''' then
        Inl (new_fault Invalid ''invalid_audit_event''
          ''audit request, object, action, and result are required'')
      else case details of
        Inl e \<Rightarrow> Inl (wrap_fault Invalid ''invalid_audit_details'' ''audit details cannot be encoded''
          ''audit.NewEvent'' e)
      | Inr payload \<Rightarrow>
      if 32 * 1024 < length payload then
        Inl (new_fault Invalid ''audit_details_too_large'' ''audit details exceed 32 KiB'')
      else Inr \<lparr>ev_id = uuid, ev_actor_id = trim_space actor_id, ev_request_id = request_id,
        ev_object_type = object_type, ev_object_id = object_id, ev_action = action,
        ev_result = outcome, ev_details = payload, ev_occurred_at = now\<rparr>)"

text \<open>The callers discard the error: \<open>event, _ := audit.NewEvent(...)\<close>.\<close>

definition event_or_zero :: "event res \<Rightarrow> event" where
  "event_or_zero r = (case r of Inl _ \<Rightarrow> zero_event | Inr e \<Rightarrow> e)"

definition json_string :: "string \<Rightarrow> string" where
  "json_string s = CHR 0x22 # s @ [CHR 0x22]"

fun json_members :: "(string \<times> string) list \<Rightarrow> string" where
  "json_members [] = ''''"
| "json_members [(k, v)] = json_string k @ '':'' @ v"
| "json_members ((k, v) # ms) = json_string k @ '':'' @ v @ '','' @ json_members ms"

definition json_object :: "(string \<times> string) list \<Rightarrow> string res" where
  "json_object ms = Inr (''{'' @ json_members ms @ ''}'')"

definition json_null :: "string res" where
  "json_null = Inr ''null''"

record cursor =
  cu_occurred_at :: time
  cu_id :: string

record audit_filter =
  auf_object_type :: string
  auf_object_id :: string
  auf_request_id :: string
  auf_from :: "time option"
  auf_until :: "time option"
  auf_cursor :: "cursor option"
  auf_limit :: i64

definition audit_filter_normalize :: "audit_filter \<Rightarrow> audit_filter res" where
  "audit_filter_normalize f =
     (let f = f\<lparr>auf_object_type := trim_space (auf_object_type f),
                auf_object_id := trim_space (auf_object_id f),
                auf_request_id := trim_space (auf_request_id f)\<rparr>;
          f = (if auf_limit f = 0 then f\<lparr>auf_limit := 100\<rparr> else f) in
      if auf_limit f < 1 \<or> 500 < auf_limit f then
        Inl (new_fault Invalid ''invalid_page_limit'' ''audit page limit must be between 1 and 500'')
      else if (case (auf_from f, auf_until f) of (Some a, Some b) \<Rightarrow> \<not> a < b | _ \<Rightarrow> False) then
        Inl (new_fault Invalid ''invalid_filter_window'' ''audit filter end must follow start'')
      else if (case auf_cursor f of Some c \<Rightarrow> cu_occurred_at c = 0 \<or> blank (cu_id c) | None \<Rightarrow> False) then
        Inl (new_fault Invalid ''invalid_cursor'' ''audit cursor is invalid'')
      else Inr f)"

lemma audit_filter_normalize_limit: "audit_filter_normalize f = Inr g \<Longrightarrow> 1 \<le> auf_limit g \<and> auf_limit g \<le> 500"
  by (auto simp: audit_filter_normalize_def Let_def split: if_splits)

lemma new_event_Inr: "new_event uuid actor req ot oid action outcome details now = Inr e \<Longrightarrow>
    ev_id e = uuid \<and> ev_actor_id e = trim_space actor \<and> ev_object_id e = trim_space oid
    \<and> ev_action e = trim_space action \<and> ev_occurred_at e = now \<and> ev_request_id e \<noteq> ''''"
  by (auto simp: new_event_def Let_def split: if_splits sum.splits)

end
