(* ===== verification/Store.thy ===== *)
theory Store
  imports Timestamp Identity Site Plan Reservation Job Telemetry Alarm Settlement Idempotency AuditLog
    "HOL-Library.Product_Lexorder"
begin

text \<open>
  \<open>internal/storage/sqlite/db.go\<close> and the schema of \<open>migrations/001_initial.sql\<close>: the database
  as a record of tables, the constraints SQLite enforces on a row, the translation of driver
  errors, \<open>expectOne\<close> and \<open>InTx\<close>.

  A table is the list of its rows in insertion order and a row is the entity it stores.  Times
  are kept as the text \<open>encode_time\<close>, so statements that compare times compare these texts;
  for a time of the years 1 to 9999 \<open>parseTime\<close> reads back the time that was written, and the
  model keeps that time in the row.  A blank text written through \<open>nullableString\<close> becomes NULL and is read back
  as the empty text.  SQLite itself is not part of the repository: a statement has its documented
  effect on the rows, and violations are reported with the texts of the driver.
\<close>

section \<open>The database\<close>

record database =
  users :: "user list"
  sessions :: "session list"
  sites :: "site list"
  clusters :: "cluster list"
  plans :: "plan list"
  reservations :: "reservation list"
  jobs :: "job list"
  snapshots :: "snapshot list"
  alarms :: "alarm list"
  periods :: "period list"
  entries :: "entry list"
  idempotency_keys :: "idem_record list"
  audit_events :: "event list"

definition empty_database :: database where
  "empty_database = \<lparr>users = [], sessions = [], sites = [], clusters = [], plans = [], reservations = [],
     jobs = [], snapshots = [], alarms = [], periods = [], entries = [], idempotency_keys = [],
     audit_events = []\<rparr>"

definition nullable_string :: "string \<Rightarrow> string" where
  "nullable_string value = (if blank value then '''' else value)"

section \<open>Errors of the driver\<close>

definition err_no_rows :: go_error where
  "err_no_rows = Plain ''sql: no rows in result set''"

datatype violation = UniqueViolation | ForeignKeyViolation | CheckViolation

fun violation_error :: "violation \<Rightarrow> go_error" where
  "violation_error UniqueViolation = Driver ''constraint failed: UNIQUE constraint failed''"
| "violation_error ForeignKeyViolation = Driver ''constraint failed: FOREIGN KEY constraint failed''"
| "violation_error CheckViolation = Driver ''constraint failed: CHECK constraint failed''"

definition translate :: "string \<Rightarrow> go_error \<Rightarrow> go_error" where
  "translate operation e =
     (if error_is e err_no_rows then
        wrap_fault NotFound ''not_found'' ''requested resource was not found'' operation e
      else let message = to_lower (error_text e) in
      if contains ''unique constraint'' message then
        wrap_fault Conflict ''unique_conflict'' ''resource conflicts with an existing record'' operation e
      else if contains ''foreign key constraint'' message then
        wrap_fault Conflict ''relationship_conflict''
          ''related resource does not exist or remains in use'' operation e
      else if contains ''database is locked'' message \<or> contains ''busy'' message then
        wrap_fault Unavailable ''database_busy'' ''database is temporarily busy'' operation e
      else wrap_fault Internal ''database_operation_failed'' ''database operation failed'' operation e)"

lemma translate_no_rows [simp]: "translate op err_no_rows =
    wrap_fault NotFound ''not_found'' ''requested resource was not found'' op err_no_rows"
  by (simp add: translate_def error_is_def err_no_rows_def)

lemma error_is_Driver [simp]: "\<not> error_is (Driver m) err_no_rows"
  by (simp add: error_is_def err_no_rows_def)

lemma translate_violation:
  "translate op (violation_error UniqueViolation) = wrap_fault Conflict ''unique_conflict''
     ''resource conflicts with an existing record'' op (violation_error UniqueViolation)"
  "translate op (violation_error ForeignKeyViolation) = wrap_fault Conflict ''relationship_conflict''
     ''related resource does not exist or remains in use'' op (violation_error ForeignKeyViolation)"
  "translate op (violation_error CheckViolation) = wrap_fault Internal ''database_operation_failed''
     ''database operation failed'' op (violation_error CheckViolation)"
proof -
  define u where "u = to_lower ''constraint failed: UNIQUE constraint failed''"
  define f where "f = to_lower ''constraint failed: FOREIGN KEY constraint failed''"
  define c where "c = to_lower ''constraint failed: CHECK constraint failed''"
  have "contains ''unique constraint'' u" "\<not> contains ''unique constraint'' f"
    "\<not> contains ''unique constraint'' c" "contains ''foreign key constraint'' f"
    "\<not> contains ''foreign key constraint'' c" "\<not> contains ''database is locked'' c"
    "\<not> contains ''busy'' c"
    unfolding u_def f_def c_def by code_simp+
  then show "translate op (violation_error UniqueViolation) = wrap_fault Conflict ''unique_conflict''
     ''resource conflicts with an existing record'' op (violation_error UniqueViolation)"
    and "translate op (violation_error ForeignKeyViolation) = wrap_fault Conflict ''relationship_conflict''
     ''related resource does not exist or remains in use'' op (violation_error ForeignKeyViolation)"
    and "translate op (violation_error CheckViolation) = wrap_fault Internal ''database_operation_failed''
     ''database operation failed'' op (violation_error CheckViolation)"
    unfolding translate_def by (simp_all only: violation_error.simps error_text.simps error_is_Driver
        u_def [symmetric] f_def [symmetric] c_def [symmetric] Let_def if_False if_True simp_thms)
qed


section \<open>Statements\<close>

text \<open>
  A query for one row, an \<open>INSERT\<close> with the first constraint it violates, and an \<open>UPDATE\<close> of
  the rows that satisfy \<open>P\<close>, which fails as a whole when a changed row violates a constraint and
  otherwise reports the number of the rows.
\<close>

definition query_row :: "string \<Rightarrow> ('r \<Rightarrow> string) \<Rightarrow> string \<Rightarrow> 'r list \<Rightarrow> 'r res" where
  "query_row op key k rows =
     (case find_key key k rows of None \<Rightarrow> Inl (translate op err_no_rows) | Some r \<Rightarrow> Inr r)"

definition exec_insert :: "string \<Rightarrow> violation option \<Rightarrow> 'r \<Rightarrow> 'r list \<Rightarrow> 'r list res" where
  "exec_insert op violates row rows =
     (case violates of Some v \<Rightarrow> Inl (translate op (violation_error v)) | None \<Rightarrow> Inr (rows @ [row]))"

definition exec_update ::
    "('r \<Rightarrow> bool) \<Rightarrow> ('r \<Rightarrow> 'r) \<Rightarrow> ('r \<Rightarrow> violation option) \<Rightarrow> 'r list \<Rightarrow> ('r list \<times> nat) res" where
  "exec_update P f violates rows =
     (case List.map_filter violates (map f (filter P rows)) of
        v # _ \<Rightarrow> Inl (violation_error v)
      | [] \<Rightarrow> Inr (update_where P f rows, count_where P rows))"

definition version_conflict :: "string \<Rightarrow> go_error" where
  "version_conflict op =
     wrap_fault Conflict ''version_conflict'' ''resource changed concurrently'' op err_version_conflict"

definition expect_one :: "string \<Rightarrow> ('a \<times> nat) res \<Rightarrow> 'a res" where
  "expect_one op r =
     (case r of
        Inl e \<Rightarrow> Inl (translate op e)
      | Inr (x, n) \<Rightarrow> if n \<noteq> 1 then Inl (version_conflict op) else Inr x)"

lemma exec_insert_Inr [simp]: "exec_insert op v row rows = Inr rows' \<longleftrightarrow> v = None \<and> rows' = rows @ [row]"
  by (auto simp: exec_insert_def split: option.split)

lemma query_row_Inr [simp]: "query_row op key k rows = Inr r \<longleftrightarrow> find_key key k rows = Some r"
  by (auto simp: query_row_def split: option.split)

lemma map_filter_Nil: "List.map_filter f xs = [] \<longleftrightarrow> (\<forall>x \<in> set xs. f x = None)"
  by (induction xs) (auto simp: List.map_filter_simps split: option.split)

lemma exec_update_Inr: "exec_update P f violates rows = Inr (rows', n) \<longleftrightarrow>
    (\<forall>r \<in> set rows. P r \<longrightarrow> violates (f r) = None) \<and> rows' = update_where P f rows \<and> n = count_where P rows"
proof (cases "List.map_filter violates (map f (filter P rows))")
  case Nil
  then have "\<forall>r \<in> set rows. P r \<longrightarrow> violates (f r) = None" by (simp add: map_filter_Nil)
  with Nil show ?thesis by (auto simp: exec_update_def)
next
  case (Cons v vs)
  then have "List.map_filter violates (map f (filter P rows)) \<noteq> []" by simp
  then have "\<not> (\<forall>r \<in> set rows. P r \<longrightarrow> violates (f r) = None)"
    unfolding map_filter_Nil by auto
  with Cons show ?thesis by (simp add: exec_update_def)
qed

lemma expect_one_Inr: "expect_one op (exec_update P f violates rows) = Inr rows' \<longleftrightarrow>
    (\<forall>r \<in> set rows. P r \<longrightarrow> violates (f r) = None) \<and> rows' = update_where P f rows \<and> count_where P rows = 1"
proof (cases "exec_update P f violates rows")
  case (Inl e)
  then have "\<not> (\<forall>r \<in> set rows. P r \<longrightarrow> violates (f r) = None)"
    using exec_update_Inr [of P f violates rows "update_where P f rows" "count_where P rows"] by auto
  with Inl show ?thesis by (simp add: expect_one_def)
next
  case (Inr x)
  then obtain rs n where x: "x = (rs, n)" by force
  with Inr show ?thesis
    using exec_update_Inr [of P f violates rows rs n] by (auto simp: expect_one_def)
qed

text \<open>\<open>InTx\<close>: what the driver does with the transaction is an argument.\<close>

datatype tx_outcome =
    TxCommits
  | TxCancelled go_error
  | TxNotStarted string
  | TxLocked string
  | TxNotCommitted string

definition in_tx :: "tx_outcome \<Rightarrow> string \<Rightarrow> ('db \<Rightarrow> 'a res) \<Rightarrow> 'db \<Rightarrow> 'a res" where
  "in_tx tx operation fn db =
     (case tx of
        TxCancelled e \<Rightarrow> Inl e
      | TxNotStarted m \<Rightarrow> Inl (wrap_fault Unavailable ''transaction_begin_failed''
          ''database transaction could not start'' operation (Driver m))
      | TxLocked statement \<Rightarrow> Inl (translate statement (Driver ''database is locked''))
      | TxNotCommitted m \<Rightarrow> and_then (fn db) (\<lambda>_. Inl (wrap_fault Unavailable ''transaction_commit_failed''
          ''database transaction could not commit'' operation (Driver m)))
      | TxCommits \<Rightarrow> fn db)"

lemma in_tx_Inr [simp]: "in_tx tx op fn db = Inr db' \<longleftrightarrow> tx = TxCommits \<and> fn db = Inr db'"
  by (cases tx) (auto simp: in_tx_def)

text \<open>What a component hands back: on an error the database is the one it had.\<close>

definition settle :: "'db \<Rightarrow> 'db res \<Rightarrow> 'db" where
  "settle db r = (case r of Inl _ \<Rightarrow> db | Inr db' \<Rightarrow> db')"

definition accepted :: "'db res \<Rightarrow> 'db option" where
  "accepted r = (case r of Inl _ \<Rightarrow> None | Inr db' \<Rightarrow> Some db')"

lemma accepted_Some [simp]: "accepted r = Some db' \<longleftrightarrow> r = Inr db'"
  by (cases r) (auto simp: accepted_def)

lemma accepted_None: "accepted r = None \<longleftrightarrow> (\<exists>e. r = Inl e)"
  by (cases r) (auto simp: accepted_def)

section \<open>Conditional updates of one row\<close>

text \<open>
  \<open>UPDATE ... SET ..., version=? WHERE id=? AND version=?\<close> on a table with a primary key: what
  the tables of the program share, from which each interpretation of \<open>versioned_store\<close> follows.
\<close>

lemma expect_one_key:
  assumes dist: "distinct (map key rows)" and P: "\<And>r. P r \<Longrightarrow> key r = k"
  shows "expect_one op (exec_update P f violates rows) = Inr rows' \<longleftrightarrow>
    (\<exists>s. find_key key k rows = Some s \<and> P s \<and> violates (f s) = None
      \<and> rows' = update_where (\<lambda>r. key r = k) f rows)"
proof (cases "find_key key k rows")
  case None
  then have "count_where P rows = 0" using P by (auto simp: find_key_None_iff image_iff)
  then have "count_where P rows \<noteq> 1" by linarith
  then show ?thesis unfolding expect_one_Inr None by blast
next
  case (Some s)
  have only: "r = s" if "r \<in> set rows" "key r = k" for r
    using find_key_in_set [OF dist that(1)] that(2) Some by simp
  have s: "s \<in> set rows" "key s = k" using find_key_SomeD [OF Some] by auto
  have "(\<lambda>r. key r = k \<and> P r) = P" using P by blast
  with count_where_key [OF dist Some, of P] have c: "count_where P rows = (if P s then 1 else 0)"
    by (simp only:)
  show ?thesis
  proof (cases "P s")
    case True
    have upd: "update_where P f rows = update_where (\<lambda>r. key r = k) f rows"
      using only P True unfolding update_where_def by (intro map_cong) auto
    have "count_where P rows = 1" unfolding c using True by simp
    moreover have "(\<forall>r \<in> set rows. P r \<longrightarrow> violates (f r) = None) \<longleftrightarrow> violates (f s) = None"
      using only s True P by blast
    ultimately show ?thesis unfolding expect_one_Inr Some upd using True by blast
  next
    case False
    then have "count_where P rows \<noteq> 1" unfolding c by simp
    with False show ?thesis unfolding expect_one_Inr Some by blast
  qed
qed

definition cas_rows ::
    "('r \<Rightarrow> string) \<Rightarrow> ('r \<Rightarrow> i64) \<Rightarrow> ('r \<Rightarrow> 'r \<Rightarrow> 'r) \<Rightarrow> ('r \<Rightarrow> violation option) \<Rightarrow> string \<Rightarrow> 'r list
     \<Rightarrow> 'r \<Rightarrow> i64 \<Rightarrow> 'r list res" where
  "cas_rows key version assign violates op rows new expected =
     expect_one op (exec_update (\<lambda>r. key r = key new \<and> version r = expected) (assign new) violates rows)"

lemma cas_rows_Inr:
  assumes "distinct (map key rows)"
  shows "cas_rows key version assign violates op rows new expected = Inr rows' \<longleftrightarrow>
    (\<exists>old. find_key key (key new) rows = Some old \<and> version old = expected
      \<and> violates (assign new old) = None \<and> rows' = update_where (\<lambda>r. key r = key new) (assign new) rows)"
proof -
  have "expect_one op (exec_update (\<lambda>r. key r = key new \<and> version r = expected) (assign new) violates rows)
        = Inr rows' \<longleftrightarrow> (\<exists>s. find_key key (key new) rows = Some s
          \<and> (key s = key new \<and> version s = expected) \<and> violates (assign new s) = None
          \<and> rows' = update_where (\<lambda>r. key r = key new) (assign new) rows)"
    by (rule expect_one_key [OF assms]) simp
  then show ?thesis
    unfolding cas_rows_def by (simp only:) (rule iff_exI, auto dest: find_key_SomeD)
qed

text \<open>A writer that expects a version the row does not have is told so.\<close>

lemma cas_rows_stale:
  assumes "distinct (map key rows)"
    and "\<And>old. find_key key (key new) rows = Some old \<Longrightarrow> version old \<noteq> expected"
  shows "cas_rows key version assign violates op rows new expected = Inl (version_conflict op)"
proof -
  let ?P = "\<lambda>r. key r = key new \<and> version r = expected"
  have none: "\<not> ?P r" if "r \<in> set rows" for r
    using assms(2) [of r] find_key_in_set [OF assms(1) that] by auto
  then have f: "filter ?P rows = []" and c: "count_where ?P rows = 0" by (auto simp: filter_empty_conv)
  have "count_where ?P rows \<noteq> 1" unfolding c by simp
  then show ?thesis
    unfolding cas_rows_def exec_update_def expect_one_def f by (simp add: List.map_filter_simps)
qed

text \<open>Any table written this way is a versioned store.\<close>

lemma cas_versioned_store:
  assumes keep: "\<And>db r e db'. ok db \<Longrightarrow> update db r e = Inr db' \<Longrightarrow> ok db'"
    and upd: "\<And>db r e db'. ok db \<Longrightarrow> update db r e = Inr db' \<Longrightarrow>
      (\<exists>old. find_key key (key r) (rows db) = Some old \<and> version old = e)
      \<and> rows db' = update_where (\<lambda>x. key x = key r) (assign r) (rows db)"
    and frame: "\<And>new old. key (assign new old) = key old" "\<And>new old. version (assign new old) = version new"
  shows "versioned_store ok (\<lambda>db k. find_key key k (rows db)) (\<lambda>db r e. accepted (update db r e)) key version"
proof (unfold_locales, goal_cases)
  case (1 db r e db')
  then show ?case using keep by simp
next
  case (2 db r e db')
  then show ?case using upd by simp
next
  case (3 db r e db')
  then have "update db r e = Inr db'" by simp
  from upd [OF 3(1) this] obtain old where old: "find_key key (key r) (rows db) = Some old"
    and rows: "rows db' = update_where (\<lambda>x. key x = key r) (assign r) (rows db)"
    by blast
  have "find_key key (key r) (rows db') = Some (assign r old)"
    using find_key_SomeD [OF old] by (simp add: rows find_key_update_where frame old)
  then show ?case by (simp add: frame)
next
  case (4 db r e db' k)
  then have "update db r e = Inr db'" by simp
  from upd [OF 4(1) this] have rows: "rows db' = update_where (\<lambda>x. key x = key r) (assign r) (rows db)"
    by blast
  show ?case
    using find_key_SomeD [of key k "rows db"] 4(3)
    by (cases "find_key key k (rows db)") (auto simp: rows find_key_update_where frame)
qed

section \<open>Text search\<close>

text \<open>
  \<open>LIKE\<close>: a percent sign stands for any text, an underscore for one character, and ASCII letters
  match in either case.  \<open>search_pattern\<close> is the pattern the list statements build.
\<close>

fun like :: "string \<Rightarrow> string \<Rightarrow> bool" where
  "like [] t \<longleftrightarrow> t = []"
| "like (p # ps) t \<longleftrightarrow>
     (if p = CHR ''%'' then like ps t \<or> (case t of [] \<Rightarrow> False | c # cs \<Rightarrow> like (p # ps) cs)
      else if p = CHR ''_'' then t \<noteq> [] \<and> like ps (drop (rune_width t) t)
      else (case t of [] \<Rightarrow> False | c # cs \<Rightarrow> lower_byte p = lower_byte c \<and> like ps cs))"

definition search_pattern :: "string \<Rightarrow> string" where
  "search_pattern search = ''%'' @ search @ ''%''"

lemma like_percent_suffix: "like ps t \<Longrightarrow> like (CHR ''%'' # ps) (u @ t)"
  by (induction u) auto

lemma like_any: "like ''%'' t"
  by (induction t) auto

lemma like_self: "CHR ''%'' \<notin> set s \<Longrightarrow> CHR ''_'' \<notin> set s \<Longrightarrow> like (s @ ps) (s @ t) \<longleftrightarrow> like ps t"
  by (induction s) auto

text \<open>A text without the two wildcards is found in every text that contains it.\<close>

lemma search_finds:
  assumes "CHR ''%'' \<notin> set s" "CHR ''_'' \<notin> set s"
  shows "like (search_pattern s) (u @ s @ v)"
proof -
  have "like (s @ ''%'') (s @ v)" using like_self [OF assms] like_any by blast
  then show ?thesis unfolding search_pattern_def using like_percent_suffix [of "s @ ''%''" "s @ v" u] by simp
qed

section \<open>Primary keys and unique columns\<close>

text \<open>
  What the primary keys, the \<open>UNIQUE\<close> columns and the partial unique index of the schema
  guarantee of the rows; \<open>nocase\<close> is the comparison of the column \<open>email\<close>.
\<close>

definition nocase :: "string \<Rightarrow> string" where
  "nocase s = map lower_byte s"

definition period_key :: "period \<Rightarrow> string \<times> string \<times> string" where
  "period_key p = (pd_site_id p, encode_time (w_start (pd_window p)), encode_time (w_end (pd_window p)))"

definition keys_ok :: "database \<Rightarrow> bool" where
  [inv_defs]: "keys_ok db \<longleftrightarrow>
     distinct (map u_id (users db)) \<and> distinct (map (\<lambda>u. nocase (u_email u)) (users db))
     \<and> distinct (map ss_id (sessions db)) \<and> distinct (map ss_token_hash (sessions db))
     \<and> distinct (map s_id (sites db)) \<and> distinct (map s_code (sites db))
     \<and> distinct (map c_id (clusters db)) \<and> distinct (map (\<lambda>c. (c_site_id c, c_code c)) (clusters db))
     \<and> distinct (map p_id (plans db))
     \<and> distinct (map r_id (reservations db))
     \<and> distinct (map (\<lambda>r. (r_plan_id r, r_cluster_id r)) (reservations db))
     \<and> distinct (map j_id (jobs db)) \<and> distinct (map j_command_key (jobs db))
     \<and> distinct (map (\<lambda>j. (j_plan_id j, j_cluster_id j)) (jobs db))
     \<and> distinct (map t_id (snapshots db)) \<and> distinct (map (\<lambda>t. (t_cluster_id t, t_sequence t)) (snapshots db))
     \<and> distinct (map a_id (alarms db))
     \<and> distinct (map a_fingerprint (filter (\<lambda>a. a_status a \<noteq> AlarmResolved) (alarms db)))
     \<and> distinct (map pd_id (periods db)) \<and> distinct (map period_key (periods db))
     \<and> distinct (map e_id (entries db)) \<and> distinct (map (\<lambda>e. (e_period_id e, e_plan_id e)) (entries db))
     \<and> distinct (map i_id (idempotency_keys db))
     \<and> distinct (map (\<lambda>i. (i_actor_id i, i_method i, i_path i, i_key i)) (idempotency_keys db))
     \<and> distinct (map ev_id (audit_events db))"

lemma keys_ok_empty: "keys_ok empty_database"
  by (simp add: keys_ok_def empty_database_def)

definition user_exists :: "database \<Rightarrow> string \<Rightarrow> bool" where
  "user_exists db uid \<longleftrightarrow> list_ex (\<lambda>u. u_id u = uid) (users db)"

definition site_exists :: "database \<Rightarrow> string \<Rightarrow> bool" where
  "site_exists db sid \<longleftrightarrow> list_ex (\<lambda>s. s_id s = sid) (sites db)"

definition cluster_exists :: "database \<Rightarrow> string \<Rightarrow> bool" where
  "cluster_exists db cid \<longleftrightarrow> list_ex (\<lambda>c. c_id c = cid) (clusters db)"

definition plan_exists :: "database \<Rightarrow> string \<Rightarrow> bool" where
  "plan_exists db pid \<longleftrightarrow> list_ex (\<lambda>p. p_id p = pid) (plans db)"

text \<open>A nullable reference to a user: NULL references nothing.\<close>

definition user_ref_ok :: "database \<Rightarrow> string \<Rightarrow> bool" where
  "user_ref_ok db uid \<longleftrightarrow> blank uid \<or> user_exists db uid"

definition page :: "i64 \<Rightarrow> i64 \<Rightarrow> 'r list \<Rightarrow> 'r list" where
  "page limit offset rows = take (nat limit) (drop (nat offset) rows)"

text \<open>Consecutive pages of one list put together are the list, without gap or repetition.\<close>

lemma pages_cover:
  assumes "0 \<le> limit"
  shows "concat (map (\<lambda>i. page limit (int i * limit) rows) [0..<n]) = take (n * nat limit) rows"
proof (induction n)
  case (Suc n)
  have "nat (int n * limit) = n * nat limit" using assms by (simp add: nat_mult_distrib)
  moreover have "Suc n * nat limit = n * nat limit + nat limit" by simp
  ultimately show ?case using Suc by (simp only: page_def take_add upt_Suc_append map_append concat_append
        le0 list.map concat.simps append_Nil2)
qed simp

end
