(* ===== verification/StoreIdentity.thy ===== *)
theory StoreIdentity
  imports Store
begin

text \<open>
  \<open>internal/storage/sqlite/identity.go\<close>: the statements on the tables \<open>users\<close> and \<open>sessions\<close>.
\<close>

section \<open>Users\<close>

definition user_row_violation :: "user \<Rightarrow> violation option" where
  "user_row_violation u =
     (if u_role u \<in> {RoleDispatcher, RoleOperator, RoleAuditor} then None else Some CheckViolation)"

definition user_violation :: "database \<Rightarrow> user \<Rightarrow> violation option" where
  "user_violation db u =
     (if user_row_violation u \<noteq> None then Some CheckViolation
      else if list_ex (\<lambda>r. u_id r = u_id u \<or> nocase (u_email r) = nocase (u_email u)) (users db)
      then Some UniqueViolation
      else None)"

definition insert_user :: "database \<Rightarrow> user \<Rightarrow> database res" where
  "insert_user db u =
     and_then (exec_insert ''sqlite.InsertUser'' (user_violation db u) u (users db))
       (\<lambda>rows. Inr (db\<lparr>users := rows\<rparr>))"

text \<open>The column \<open>email\<close> has the collation \<open>NOCASE\<close>.\<close>

definition user_by_email :: "database \<Rightarrow> string \<Rightarrow> user res" where
  "user_by_email db email =
     query_row ''sqlite.scanUser'' (\<lambda>u. nocase (u_email u)) (nocase email) (users db)"

definition user_by_id :: "database \<Rightarrow> string \<Rightarrow> user res" where
  "user_by_id db uid = query_row ''sqlite.scanUser'' u_id uid (users db)"

definition assign_user :: "user \<Rightarrow> user \<Rightarrow> user" where
  "assign_user u old = old\<lparr>u_display_name := u_display_name u, u_role := u_role u, u_active := u_active u,
     u_version := u_version u, u_updated_at := u_updated_at u\<rparr>"

definition update_user :: "database \<Rightarrow> user \<Rightarrow> i64 \<Rightarrow> database res" where
  "update_user db u expected =
     and_then (cas_rows u_id u_version assign_user user_row_violation ''sqlite.UpdateUser'' (users db) u expected)
       (\<lambda>rows. Inr (db\<lparr>users := rows\<rparr>))"

section \<open>Sessions\<close>

definition session_violation :: "database \<Rightarrow> session \<Rightarrow> violation option" where
  "session_violation db s =
     (if list_ex (\<lambda>r. ss_id r = ss_id s \<or> ss_token_hash r = ss_token_hash s) (sessions db)
      then Some UniqueViolation
      else if \<not> user_exists db (ss_user_id s) then Some ForeignKeyViolation
      else None)"

definition insert_session :: "database \<Rightarrow> session \<Rightarrow> database res" where
  "insert_session db s =
     and_then (exec_insert ''sqlite.InsertSession'' (session_violation db s) s (sessions db))
       (\<lambda>rows. Inr (db\<lparr>sessions := rows\<rparr>))"

definition session_by_hash :: "database \<Rightarrow> string \<Rightarrow> session res" where
  "session_by_hash db hash = query_row ''sqlite.SessionByHash'' ss_token_hash hash (sessions db)"

definition revoke_session :: "database \<Rightarrow> string \<Rightarrow> time \<Rightarrow> database res" where
  "revoke_session db sid now =
     (let revocable = (\<lambda>s. ss_id s = sid \<and> ss_revoked_at s = None);
          rows = count_where revocable (sessions db);
          db' = db\<lparr>sessions := update_where revocable (\<lambda>s. s\<lparr>ss_revoked_at := Some now\<rparr>) (sessions db)\<rparr>
      in if rows = 0 \<and> \<not> list_ex (\<lambda>s. ss_id s = sid) (sessions db)
         then Inl (translate ''sqlite.RevokeSession'' err_no_rows)
         else Inr db')"

definition touch_session :: "database \<Rightarrow> string \<Rightarrow> time \<Rightarrow> database res" where
  "touch_session db sid at =
     Inr (db\<lparr>sessions := update_where (\<lambda>s. ss_id s = sid) (\<lambda>s. s\<lparr>ss_last_seen_at := at\<rparr>) (sessions db)\<rparr>)"

definition session_expired_row :: "time \<Rightarrow> session \<Rightarrow> bool" where
  "session_expired_row now s \<longleftrightarrow> encode_time (ss_expires_at s) \<le> encode_time now
     \<or> (case ss_revoked_at s of None \<Rightarrow> False
        | Some t \<Rightarrow> encode_time t \<le> encode_time (time_add now (- (24 * hour))))"

definition delete_expired_sessions :: "database \<Rightarrow> time \<Rightarrow> (database \<times> i64) res" where
  "delete_expired_sessions db now =
     Inr (db\<lparr>sessions := filter (\<lambda>s. \<not> session_expired_row now s) (sessions db)\<rparr>,
       int (count_where (session_expired_row now) (sessions db)))"

section \<open>What the statements keep\<close>

lemma insert_user_Inr: "insert_user db u = Inr db' \<longleftrightarrow> user_violation db u = None \<and> db' = db\<lparr>users := users db @ [u]\<rparr>"
  by (auto simp: insert_user_def)

lemma insert_session_Inr: "insert_session db s = Inr db' \<longleftrightarrow>
    session_violation db s = None \<and> db' = db\<lparr>sessions := sessions db @ [s]\<rparr>"
  by (auto simp: insert_session_def)

lemma revoke_session_Inr: "revoke_session db sid now = Inr db' \<longleftrightarrow>
    (\<exists>s \<in> set (sessions db). ss_id s = sid)
    \<and> db' = db\<lparr>sessions := update_where (\<lambda>s. ss_id s = sid \<and> ss_revoked_at s = None)
        (\<lambda>s. s\<lparr>ss_revoked_at := Some now\<rparr>) (sessions db)\<rparr>"
  by (auto simp: revoke_session_def Let_def list_ex_iff)

lemma insert_user_keys: "keys_ok db \<Longrightarrow> insert_user db u = Inr db' \<Longrightarrow> keys_ok db'"
  by (auto simp: insert_user_Inr user_violation_def keys_ok_def list_ex_iff split: if_splits)

lemma insert_session_keys: "keys_ok db \<Longrightarrow> insert_session db s = Inr db' \<Longrightarrow> keys_ok db'"
  by (auto simp: insert_session_Inr session_violation_def keys_ok_def list_ex_iff split: if_splits)

lemma keys_ok_users: "map u_id rows = map u_id (users db) \<Longrightarrow>
    map (\<lambda>u. nocase (u_email u)) rows = map (\<lambda>u. nocase (u_email u)) (users db) \<Longrightarrow>
    keys_ok db \<Longrightarrow> keys_ok (db\<lparr>users := rows\<rparr>)"
  by (simp add: keys_ok_def)

lemma keys_ok_sessions: "map ss_id rows = map ss_id (sessions db) \<Longrightarrow>
    map ss_token_hash rows = map ss_token_hash (sessions db) \<Longrightarrow> keys_ok db \<Longrightarrow> keys_ok (db\<lparr>sessions := rows\<rparr>)"
  by (simp add: keys_ok_def)

lemma assign_user_frame [simp]: "u_id (assign_user u old) = u_id old" "u_email (assign_user u old) = u_email old"
  "u_version (assign_user u old) = u_version u" "u_password_hash (assign_user u old) = u_password_hash old"
  by (simp_all add: assign_user_def)

lemma update_user_Inr:
  assumes "keys_ok db"
  shows "update_user db u e = Inr db' \<longleftrightarrow> (\<exists>old. find_key u_id (u_id u) (users db) = Some old
    \<and> u_version old = e \<and> user_row_violation (assign_user u old) = None
    \<and> db' = db\<lparr>users := update_where (\<lambda>r. u_id r = u_id u) (assign_user u) (users db)\<rparr>)"
proof -
  have "distinct (map u_id (users db))" using assms by (simp add: keys_ok_def)
  then show ?thesis by (auto simp: update_user_def cas_rows_Inr)
qed

lemma update_user_keys: "keys_ok db \<Longrightarrow> update_user db u e = Inr db' \<Longrightarrow> keys_ok db'"
  by (auto simp: update_user_Inr intro!: keys_ok_users map_update_where)

lemma revoke_session_keys: "keys_ok db \<Longrightarrow> revoke_session db sid now = Inr db' \<Longrightarrow> keys_ok db'"
  by (auto simp: revoke_session_Inr intro!: keys_ok_sessions map_update_where)

lemma touch_session_keys: "keys_ok db \<Longrightarrow> touch_session db sid at = Inr db' \<Longrightarrow> keys_ok db'"
  by (auto simp: touch_session_def intro!: keys_ok_sessions map_update_where)

lemma delete_expired_sessions_keys: "keys_ok db \<Longrightarrow> delete_expired_sessions db now = Inr (db', n) \<Longrightarrow> keys_ok db'"
  by (auto simp: delete_expired_sessions_def keys_ok_def distinct_map_filter)

interpretation user_store: versioned_store keys_ok "\<lambda>db k. find_key u_id k (users db)"
    "\<lambda>db u e. accepted (update_user db u e)" u_id u_version
  by (rule cas_versioned_store [where assign = assign_user and rows = users])
    (erule (1) update_user_keys, auto simp: update_user_Inr)

text \<open>
  A row is removed only after its session expired or was revoked: sessions whose expiry lies in a
  later second than the clock, and that nobody revoked, stay.
\<close>

lemma cleanup_keeps_live:
  assumes "delete_expired_sessions db now = Inr (db', n)" "s \<in> set (sessions db)" "ss_revoked_at s = None"
    and "time_in_range now" "time_in_range (ss_expires_at s)" "now div second < ss_expires_at s div second"
  shows "s \<in> set (sessions db')"
  using assms encode_time_less_second [OF assms(4-6)]
  by (auto simp: delete_expired_sessions_def session_expired_row_def)

lemma length_partition: "length (filter (\<lambda>s. \<not> P s) xs) + count_where P xs = length xs"
  by (induction xs) auto

lemma cleanup_count:
  "delete_expired_sessions db now = Inr (db', n) \<Longrightarrow> int (length (sessions db)) = int (length (sessions db')) + n"
  by (auto simp: delete_expired_sessions_def length_partition simp flip: of_nat_add)

end
