(* ===== verification/StoreSites.thy ===== *)
theory StoreSites
  imports Store
begin

text \<open>
  \<open>internal/storage/sqlite/site.go\<close>: the statements on the tables \<open>sites\<close> and
  \<open>battery_clusters\<close>.
\<close>

section \<open>Sites\<close>

definition site_check :: "site \<Rightarrow> bool" where
  "site_check s \<longleftrightarrow> 0 < s_grid_limit s \<and> 0 \<le> s_reserved s \<and> s_reserved s \<le> s_grid_limit s
     \<and> s_status s \<in> {StatusCommissioning, StatusActive, StatusSuspended, StatusRetired}"

definition site_row_violation :: "site \<Rightarrow> violation option" where
  "site_row_violation s = (if site_check s then None else Some CheckViolation)"

definition site_violation :: "database \<Rightarrow> site \<Rightarrow> violation option" where
  "site_violation db s =
     (if \<not> site_check s then Some CheckViolation
      else if list_ex (\<lambda>r. s_id r = s_id s \<or> s_code r = s_code s) (sites db) then Some UniqueViolation
      else None)"

definition insert_site :: "database \<Rightarrow> site \<Rightarrow> database res" where
  "insert_site db s =
     and_then (exec_insert ''sqlite.InsertSite'' (site_violation db s) s (sites db))
       (\<lambda>rows. Inr (db\<lparr>sites := rows\<rparr>))"

definition site_by_id :: "database \<Rightarrow> string \<Rightarrow> site res" where
  "site_by_id db sid = query_row ''sqlite.scanSite'' s_id sid (sites db)"

definition assign_site :: "site \<Rightarrow> site \<Rightarrow> site" where
  "assign_site s old = old\<lparr>s_name := s_name s, s_timezone := s_timezone s,
     s_grid_limit := s_grid_limit s, s_reserved := s_reserved s, s_status := s_status s,
     s_version := s_version s, s_updated_at := s_updated_at s\<rparr>"

definition update_site :: "database \<Rightarrow> site \<Rightarrow> i64 \<Rightarrow> database res" where
  "update_site db s expected =
     and_then (cas_rows s_id s_version assign_site site_row_violation ''sqlite.UpdateSite'' (sites db) s expected)
       (\<lambda>rows. Inr (db\<lparr>sites := rows\<rparr>))"

text \<open>
  The conditional reservation of grid capacity, used by \<open>ReserveSiteCapacity\<close> and inside
  \<open>SubmitPlanAtomic\<close>.
\<close>

definition site_has_room :: "string \<Rightarrow> i64 \<Rightarrow> i64 \<Rightarrow> site \<Rightarrow> bool" where
  "site_has_room sid kw expected s \<longleftrightarrow> s_id s = sid \<and> s_version s = expected \<and> s_status s = StatusActive
     \<and> s_reserved s + kw \<le> s_grid_limit s"

definition add_reserved :: "i64 \<Rightarrow> time \<Rightarrow> site \<Rightarrow> site" where
  "add_reserved kw updated s = s\<lparr>s_reserved := s_reserved s + kw, s_version := incr64 (s_version s),
     s_updated_at := updated\<rparr>"

definition reserve_capacity :: "string \<Rightarrow> database \<Rightarrow> string \<Rightarrow> i64 \<Rightarrow> i64 \<Rightarrow> time \<Rightarrow> database res" where
  "reserve_capacity op db sid kw expected updated =
     and_then (expect_one op
         (exec_update (site_has_room sid kw expected) (add_reserved kw updated) site_row_violation (sites db)))
       (\<lambda>rows. Inr (db\<lparr>sites := rows\<rparr>))"

definition reserve_site_capacity :: "database \<Rightarrow> string \<Rightarrow> i64 \<Rightarrow> i64 \<Rightarrow> time \<Rightarrow> database res" where
  "reserve_site_capacity db sid kw expected updated =
     reserve_capacity ''sqlite.ReserveSiteCapacity'' db sid kw expected updated"

record site_page =
  sp_items :: "site list"
  sp_total :: i64
  sp_limit :: i64
  sp_offset :: i64

definition site_matches :: "site_filter \<Rightarrow> site \<Rightarrow> bool" where
  "site_matches f s \<longleftrightarrow>
     (sf_status f = '''' \<or> site_status_text (s_status s) = sf_status f)
     \<and> (sf_search f = '''' \<or> like (search_pattern (sf_search f)) (s_code s)
        \<or> like (search_pattern (sf_search f)) (s_name s))"

definition site_order :: "string \<Rightarrow> site list \<Rightarrow> site list" where
  "site_order sort_by rows =
     (if sort_by = ''code_asc'' then sort_key s_code rows
      else if sort_by = ''code_desc'' then rev (sort_key s_code rows)
      else if sort_by = ''updated_newest'' then rev (sort_key (\<lambda>s. (encode_time (s_updated_at s), s_id s)) rows)
      else sort_key (\<lambda>s. (encode_time (s_updated_at s), s_id s)) rows)"

definition list_sites :: "database \<Rightarrow> site_filter \<Rightarrow> site_page res" where
  "list_sites db filter_by =
     and_then (site_filter_normalize filter_by) (\<lambda>f.
       let rows = filter (site_matches f) (sites db) in
       Inr \<lparr>sp_items = page (sf_limit f) (sf_offset f) (site_order (sf_sort f) rows),
            sp_total = int (length rows), sp_limit = sf_limit f, sp_offset = sf_offset f\<rparr>)"

section \<open>Battery clusters\<close>

definition cluster_check :: "cluster \<Rightarrow> bool" where
  "cluster_check c \<longleftrightarrow> 0 < c_rated_kw c \<and> 0 < c_capacity_kwh c \<and> 0 \<le> c_min_soc c \<and> c_min_soc c \<le> 100
     \<and> 0 \<le> c_max_soc c \<and> c_max_soc c \<le> 100 \<and> 0 \<le> c_soc c \<and> c_soc c \<le> 100 \<and> c_min_soc c < c_max_soc c"

definition cluster_row_violation :: "cluster \<Rightarrow> violation option" where
  "cluster_row_violation c = (if cluster_check c then None else Some CheckViolation)"

definition cluster_violation :: "database \<Rightarrow> cluster \<Rightarrow> violation option" where
  "cluster_violation db c =
     (if \<not> cluster_check c then Some CheckViolation
      else if list_ex (\<lambda>r. c_id r = c_id c \<or> (c_site_id r = c_site_id c \<and> c_code r = c_code c)) (clusters db)
      then Some UniqueViolation
      else if \<not> site_exists db (c_site_id c) then Some ForeignKeyViolation
      else None)"

definition insert_cluster :: "database \<Rightarrow> cluster \<Rightarrow> database res" where
  "insert_cluster db c =
     and_then (exec_insert ''sqlite.InsertCluster'' (cluster_violation db c) c (clusters db))
       (\<lambda>rows. Inr (db\<lparr>clusters := rows\<rparr>))"

definition cluster_by_id :: "database \<Rightarrow> string \<Rightarrow> cluster res" where
  "cluster_by_id db cid = query_row ''sqlite.ClusterByID'' c_id cid (clusters db)"

definition assign_cluster :: "cluster \<Rightarrow> cluster \<Rightarrow> cluster" where
  "assign_cluster c old = old\<lparr>c_soc := c_soc c, c_status := c_status c, c_sequence := c_sequence c,
     c_telemetry_at := c_telemetry_at c, c_version := c_version c, c_updated_at := c_updated_at c\<rparr>"

definition update_cluster :: "database \<Rightarrow> cluster \<Rightarrow> i64 \<Rightarrow> database res" where
  "update_cluster db c expected =
     and_then (cas_rows c_id c_version assign_cluster cluster_row_violation ''sqlite.UpdateCluster'' (clusters db) c expected)
       (\<lambda>rows. Inr (db\<lparr>clusters := rows\<rparr>))"

definition clusters_by_site :: "database \<Rightarrow> string \<Rightarrow> cluster list res" where
  "clusters_by_site db site_id =
     traverse (cluster_by_id db)
       (map c_id (sort_key c_code (filter (\<lambda>c. c_site_id c = site_id) (clusters db))))"

section \<open>What the statements keep\<close>

lemma list_ex_distinct: "distinct (map f xs) \<Longrightarrow> \<not> list_ex (\<lambda>r. f r = f x) xs \<Longrightarrow> distinct (map f (xs @ [x]))"
  by (auto simp: list_ex_iff)

lemma insert_site_Inr: "insert_site db s = Inr db' \<longleftrightarrow> site_violation db s = None \<and> db' = db\<lparr>sites := sites db @ [s]\<rparr>"
  by (auto simp: insert_site_def)

lemma insert_cluster_Inr: "insert_cluster db c = Inr db' \<longleftrightarrow>
    cluster_violation db c = None \<and> db' = db\<lparr>clusters := clusters db @ [c]\<rparr>"
  by (auto simp: insert_cluster_def)

lemma insert_site_keys: "keys_ok db \<Longrightarrow> insert_site db s = Inr db' \<Longrightarrow> keys_ok db'"
  by (auto simp: insert_site_Inr site_violation_def keys_ok_def list_ex_iff split: if_splits)

lemma insert_cluster_keys: "keys_ok db \<Longrightarrow> insert_cluster db c = Inr db' \<Longrightarrow> keys_ok db'"
  by (auto simp: insert_cluster_Inr cluster_violation_def keys_ok_def list_ex_iff split: if_splits)

lemma assign_site_frame [simp]: "s_id (assign_site s old) = s_id old" "s_code (assign_site s old) = s_code old"
  "s_version (assign_site s old) = s_version s" "s_created_at (assign_site s old) = s_created_at old"
  by (simp_all add: assign_site_def)

lemma assign_cluster_frame [simp]:
  "c_id (assign_cluster c old) = c_id old" "c_code (assign_cluster c old) = c_code old"
  "c_site_id (assign_cluster c old) = c_site_id old" "c_version (assign_cluster c old) = c_version c"
  by (simp_all add: assign_cluster_def)

lemma update_site_Inr:
  assumes "keys_ok db"
  shows "update_site db s e = Inr db' \<longleftrightarrow> (\<exists>old. find_key s_id (s_id s) (sites db) = Some old
    \<and> s_version old = e \<and> site_check (assign_site s old)
    \<and> db' = db\<lparr>sites := update_where (\<lambda>r. s_id r = s_id s) (assign_site s) (sites db)\<rparr>)"
proof -
  have "distinct (map s_id (sites db))" using assms by (simp add: keys_ok_def)
  then show ?thesis by (auto simp: update_site_def cas_rows_Inr site_row_violation_def split: if_splits)
qed

lemma update_cluster_Inr:
  assumes "keys_ok db"
  shows "update_cluster db c e = Inr db' \<longleftrightarrow> (\<exists>old. find_key c_id (c_id c) (clusters db) = Some old
    \<and> c_version old = e \<and> cluster_check (assign_cluster c old)
    \<and> db' = db\<lparr>clusters := update_where (\<lambda>r. c_id r = c_id c) (assign_cluster c) (clusters db)\<rparr>)"
proof -
  have "distinct (map c_id (clusters db))" using assms by (simp add: keys_ok_def)
  then show ?thesis by (auto simp: update_cluster_def cas_rows_Inr cluster_row_violation_def split: if_splits)
qed

lemma keys_ok_sites: "map s_id rows = map s_id (sites db) \<Longrightarrow> map s_code rows = map s_code (sites db) \<Longrightarrow>
    keys_ok db \<Longrightarrow> keys_ok (db\<lparr>sites := rows\<rparr>)"
  by (simp add: keys_ok_def)

lemma keys_ok_clusters: "map c_id rows = map c_id (clusters db) \<Longrightarrow>
    map (\<lambda>c. (c_site_id c, c_code c)) rows = map (\<lambda>c. (c_site_id c, c_code c)) (clusters db) \<Longrightarrow>
    keys_ok db \<Longrightarrow> keys_ok (db\<lparr>clusters := rows\<rparr>)"
  by (simp add: keys_ok_def)

lemma update_site_keys: "keys_ok db \<Longrightarrow> update_site db s e = Inr db' \<Longrightarrow> keys_ok db'"
  by (auto simp: update_site_Inr intro!: keys_ok_sites map_update_where)

lemma update_cluster_keys: "keys_ok db \<Longrightarrow> update_cluster db c e = Inr db' \<Longrightarrow> keys_ok db'"
  by (auto simp: update_cluster_Inr intro!: keys_ok_clusters map_update_where)

text \<open>Sites and clusters are versioned stores: of the writers that read one version, one succeeds.\<close>

interpretation site_store: versioned_store keys_ok "\<lambda>db k. find_key s_id k (sites db)"
    "\<lambda>db s e. accepted (update_site db s e)" s_id s_version
  by (rule cas_versioned_store [where assign = assign_site and rows = sites])
    (erule (1) update_site_keys, auto simp: update_site_Inr)

interpretation cluster_store: versioned_store keys_ok "\<lambda>db k. find_key c_id k (clusters db)"
    "\<lambda>db c e. accepted (update_cluster db c e)" c_id c_version
  by (rule cas_versioned_store [where assign = assign_cluster and rows = clusters])
    (erule (1) update_cluster_keys, auto simp: update_cluster_Inr)

section \<open>The conditional reservation of grid capacity\<close>

lemma reserve_capacity_Inr:
  assumes "keys_ok db"
  shows "reserve_capacity op db sid kw e updated = Inr db' \<longleftrightarrow> (\<exists>s. find_key s_id sid (sites db) = Some s
    \<and> site_has_room sid kw e s \<and> site_check (add_reserved kw updated s)
    \<and> db' = db\<lparr>sites := update_where (\<lambda>r. s_id r = sid) (add_reserved kw updated) (sites db)\<rparr>)"
proof -
  have dist: "distinct (map s_id (sites db))" using assms by (simp add: keys_ok_def)
  have "expect_one op (exec_update (site_has_room sid kw e) (add_reserved kw updated) site_row_violation (sites db))
        = Inr rows' \<longleftrightarrow> (\<exists>s. find_key s_id sid (sites db) = Some s \<and> site_has_room sid kw e s
          \<and> site_row_violation (add_reserved kw updated s) = None
          \<and> rows' = update_where (\<lambda>r. s_id r = sid) (add_reserved kw updated) (sites db))" for rows'
    by (rule expect_one_key [OF dist]) (simp add: site_has_room_def)
  then show ?thesis by (auto simp: reserve_capacity_def site_row_violation_def split: if_splits)
qed

lemma reserve_capacity_keys: "keys_ok db \<Longrightarrow> reserve_capacity op db sid kw e updated = Inr db' \<Longrightarrow> keys_ok db'"
  by (auto simp: reserve_capacity_Inr intro!: keys_ok_sites map_update_where) (auto simp: add_reserved_def)
end
