(* ===== verification/StoreDispatch.thy ===== *)
theory StoreDispatch
  imports StoreSites
begin

text \<open>
  \<open>internal/storage/sqlite/dispatch.go\<close>: the statements on the tables \<open>dispatch_plans\<close>,
  \<open>capacity_reservations\<close> and \<open>execution_jobs\<close>, with the transactions that submit a plan,
  dispatch it and claim jobs.
\<close>

section \<open>Plans\<close>

definition plan_check :: "plan \<Rightarrow> bool" where
  "plan_check p \<longleftrightarrow> p_direction p \<in> {Charge, Discharge} \<and> 0 < p_requested_kw p \<and> 0 < p_target_kwh p
     \<and> encode_time (w_start (p_window p)) < encode_time (w_end (p_window p))"

definition plan_row_violation :: "database \<Rightarrow> plan \<Rightarrow> violation option" where
  "plan_row_violation db p =
     (if \<not> plan_check p then Some CheckViolation
      else if \<not> user_ref_ok db (p_approved_by p) then Some ForeignKeyViolation
      else None)"

definition plan_violation :: "database \<Rightarrow> plan \<Rightarrow> violation option" where
  "plan_violation db p =
     (if \<not> plan_check p then Some CheckViolation
      else if plan_exists db (p_id p) then Some UniqueViolation
      else if \<not> site_exists db (p_site_id p) \<or> \<not> user_exists db (p_created_by p)
        \<or> \<not> user_ref_ok db (p_approved_by p) then Some ForeignKeyViolation
      else None)"

definition insert_plan :: "database \<Rightarrow> plan \<Rightarrow> database res" where
  "insert_plan db p =
     and_then (exec_insert ''sqlite.InsertPlan'' (plan_violation db p)
         (p\<lparr>p_approved_by := nullable_string (p_approved_by p)\<rparr>) (plans db))
       (\<lambda>rows. Inr (db\<lparr>plans := rows\<rparr>))"

definition plan_by_id :: "database \<Rightarrow> string \<Rightarrow> plan res" where
  "plan_by_id db pid = query_row ''sqlite.scanPlan'' p_id pid (plans db)"

definition assign_plan :: "plan \<Rightarrow> plan \<Rightarrow> plan" where
  "assign_plan p old = old\<lparr>p_name := p_name p, p_status := p_status p,
     p_approved_by := nullable_string (p_approved_by p), p_approved_at := p_approved_at p,
     p_version := p_version p, p_updated_at := p_updated_at p\<rparr>"

definition update_plan :: "database \<Rightarrow> plan \<Rightarrow> i64 \<Rightarrow> database res" where
  "update_plan db p expected =
     and_then (cas_rows p_id p_version assign_plan (plan_row_violation db) ''sqlite.UpdatePlan'' (plans db) p expected)
       (\<lambda>rows. Inr (db\<lparr>plans := rows\<rparr>))"

text \<open>\<open>UPDATE dispatch_plans SET status=?,version=?,updated_at=?\<close> of the two transactions.\<close>

definition assign_plan_status :: "plan \<Rightarrow> plan \<Rightarrow> plan" where
  "assign_plan_status p old =
     old\<lparr>p_status := p_status p, p_version := p_version p, p_updated_at := p_updated_at p\<rparr>"

definition plan_status_violation :: "plan \<Rightarrow> violation option" where
  "plan_status_violation p = (if plan_check p then None else Some CheckViolation)"

definition update_plan_status :: "string \<Rightarrow> plan \<Rightarrow> i64 \<Rightarrow> database \<Rightarrow> database res" where
  "update_plan_status op p expected db =
     and_then (cas_rows p_id p_version assign_plan_status plan_status_violation op (plans db) p expected)
       (\<lambda>rows. Inr (db\<lparr>plans := rows\<rparr>))"

record plan_page =
  pp_items :: "plan list"
  pp_total :: i64
  pp_limit :: i64
  pp_offset :: i64

definition plan_matches :: "plan_filter \<Rightarrow> plan \<Rightarrow> bool" where
  "plan_matches f p \<longleftrightarrow>
     (plan_filter.pf_site_id f = '''' \<or> p_site_id p = plan_filter.pf_site_id f)
     \<and> (plan_filter.pf_status f = '''' \<or> plan_status_text (p_status p) = plan_filter.pf_status f)
     \<and> (case plan_filter.pf_from f of None \<Rightarrow> True | Some t \<Rightarrow> encode_time t < encode_time (w_end (p_window p)))
     \<and> (case plan_filter.pf_until f of None \<Rightarrow> True | Some t \<Rightarrow> encode_time (w_start (p_window p)) < encode_time t)
     \<and> (plan_filter.pf_search f = '''' \<or> like (search_pattern (plan_filter.pf_search f)) (p_name p))"

definition plan_start_key :: "plan \<Rightarrow> string \<times> string" where
  "plan_start_key p = (encode_time (w_start (p_window p)), p_id p)"

definition list_plans :: "database \<Rightarrow> plan_filter \<Rightarrow> plan_page res" where
  "list_plans db filter_by =
     and_then (plan_filter_normalize filter_by) (\<lambda>f.
       let rows = filter (plan_matches f) (plans db);
           ordered = sort_key plan_start_key rows;
           ordered = (if plan_filter.pf_newest f then rev ordered else ordered) in
       Inr \<lparr>pp_items = page (plan_filter.pf_limit f) (plan_filter.pf_offset f) ordered, pp_total = int (length rows),
            pp_limit = plan_filter.pf_limit f, pp_offset = plan_filter.pf_offset f\<rparr>)"

section \<open>Reservations\<close>

definition reservation_violation :: "database \<Rightarrow> reservation \<Rightarrow> violation option" where
  "reservation_violation db r =
     (if \<not> 0 < r_kw r then Some CheckViolation
      else if list_ex (\<lambda>q. r_id q = r_id r \<or> (r_plan_id q = r_plan_id r \<and> r_cluster_id q = r_cluster_id r))
        (reservations db) then Some UniqueViolation
      else if \<not> plan_exists db (r_plan_id r) \<or> \<not> cluster_exists db (r_cluster_id r) then Some ForeignKeyViolation
      else None)"

definition insert_reservation :: "database \<Rightarrow> reservation \<Rightarrow> database res" where
  "insert_reservation db r =
     and_then (exec_insert ''sqlite.insertReservation'' (reservation_violation db r) r (reservations db))
       (\<lambda>rows. Inr (db\<lparr>reservations := rows\<rparr>))"

definition reservations_by_plan :: "database \<Rightarrow> string \<Rightarrow> reservation list" where
  "reservations_by_plan db pid = sort_key r_cluster_id (filter (\<lambda>r. r_plan_id r = pid) (reservations db))"

text \<open>The overlap of windows as the statement tests it, on the texts of the times.\<close>

definition text_overlaps :: "window \<Rightarrow> window \<Rightarrow> bool" where
  "text_overlaps v w \<longleftrightarrow> encode_time (w_start v) < encode_time (w_end w)
     \<and> encode_time (w_start w) < encode_time (w_end v)"

definition reservation_conflict :: "database \<Rightarrow> string \<Rightarrow> window \<Rightarrow> bool" where
  "reservation_conflict db cid w \<longleftrightarrow>
     0 < count_where (\<lambda>r. r_cluster_id r = cid \<and> r_status r \<noteq> ReservationReleased
           \<and> text_overlaps (r_window r) w) (reservations db)"

definition conflict_error :: "string \<Rightarrow> go_error" where
  "conflict_error cid = Wrapping (''capacity reservation conflict: cluster '' @ cid)
     (Plain ''capacity reservation conflict'')"

definition reserve_cluster_row :: "time \<Rightarrow> string \<Rightarrow> database \<Rightarrow> database res" where
  "reserve_cluster_row updated cid db =
     and_then (expect_one ''sqlite.reserveCluster''
         (exec_update (\<lambda>c. c_id c = cid \<and> c_status c = ClusterAvailable)
           (\<lambda>c. c\<lparr>c_status := ClusterReserved, c_version := incr64 (c_version c), c_updated_at := updated\<rparr>)
           cluster_row_violation (clusters db)))
       (\<lambda>rows. Inr (db\<lparr>clusters := rows\<rparr>))"

definition hold_cluster :: "time \<Rightarrow> reservation \<Rightarrow> database \<Rightarrow> database res" where
  "hold_cluster updated r db =
     and_then (insert_reservation db r) (reserve_cluster_row updated (r_cluster_id r))"

section \<open>Submitting a plan\<close>

text \<open>
  The body of \<open>SubmitPlanAtomic\<close>: refuse a cluster that is bound at a common time, take the power
  from the site, insert the reservations and hold their clusters, move the plan on and write the
  audit event.
\<close>

definition first_conflict :: "database \<Rightarrow> reservation list \<Rightarrow> reservation option" where
  "first_conflict db rs = find (\<lambda>r. reservation_conflict db (r_cluster_id r) (r_window r)) rs"

definition submit_body ::
    "plan \<Rightarrow> i64 \<Rightarrow> reservation list \<Rightarrow> string \<Rightarrow> i64 \<Rightarrow> i64 \<Rightarrow> (database \<Rightarrow> database res) option
     \<Rightarrow> database \<Rightarrow> database res" where
  "submit_body p expected_plan rs sid kw expected_site audit_insert db =
     (case first_conflict db rs of
        Some r \<Rightarrow> Inl (conflict_error (r_cluster_id r))
      | None \<Rightarrow>
          and_then (reserve_capacity ''sqlite.reserveSite'' db sid kw expected_site (p_updated_at p)) (\<lambda>db.
          and_then (fold_res (hold_cluster (p_updated_at p)) rs db) (\<lambda>db.
          and_then (update_plan_status ''sqlite.submitPlan'' p expected_plan db) (\<lambda>db.
          (case audit_insert of None \<Rightarrow> Inr db | Some insert_event \<Rightarrow> insert_event db)))))"

definition submit_plan_atomic ::
    "tx_outcome \<Rightarrow> database \<Rightarrow> plan \<Rightarrow> i64 \<Rightarrow> reservation list \<Rightarrow> string \<Rightarrow> i64 \<Rightarrow> i64
     \<Rightarrow> (database \<Rightarrow> database res) option \<Rightarrow> database res" where
  "submit_plan_atomic tx db p expected_plan rs sid kw expected_site audit_insert =
     in_tx tx ''sqlite.SubmitPlanAtomic''
       (submit_body p expected_plan rs sid kw expected_site audit_insert) db"

section \<open>Jobs\<close>

definition job_row_violation :: "job \<Rightarrow> violation option" where
  "job_row_violation j = (if 0 \<le> j_attempts j \<and> 0 < j_max_attempts j then None else Some CheckViolation)"

definition job_violation :: "database \<Rightarrow> job \<Rightarrow> violation option" where
  "job_violation db j =
     (if job_row_violation j \<noteq> None then Some CheckViolation
      else if list_ex (\<lambda>k. j_id k = j_id j \<or> j_command_key k = j_command_key j
          \<or> (j_plan_id k = j_plan_id j \<and> j_cluster_id k = j_cluster_id j)) (jobs db) then Some UniqueViolation
      else if \<not> plan_exists db (j_plan_id j) \<or> \<not> cluster_exists db (j_cluster_id j) then Some ForeignKeyViolation
      else None)"

definition insert_job :: "job \<Rightarrow> database \<Rightarrow> database res" where
  "insert_job j db =
     and_then (exec_insert ''sqlite.insertJob'' (job_violation db j)
         (j\<lparr>j_lease_owner := nullable_string (j_lease_owner j)\<rparr>) (jobs db))
       (\<lambda>rows. Inr (db\<lparr>jobs := rows\<rparr>))"

definition dispatch_body ::
    "plan \<Rightarrow> i64 \<Rightarrow> job list \<Rightarrow> (database \<Rightarrow> database res) option \<Rightarrow> database \<Rightarrow> database res" where
  "dispatch_body p expected js audit_insert db =
     and_then (fold_res insert_job js db) (\<lambda>db.
     and_then (update_plan_status ''sqlite.dispatchPlan'' p expected db) (\<lambda>db.
     (case audit_insert of None \<Rightarrow> Inr db | Some insert_event \<Rightarrow> insert_event db)))"

definition dispatch_plan_atomic ::
    "tx_outcome \<Rightarrow> database \<Rightarrow> plan \<Rightarrow> i64 \<Rightarrow> job list \<Rightarrow> (database \<Rightarrow> database res) option \<Rightarrow> database res" where
  "dispatch_plan_atomic tx db p expected js audit_insert =
     in_tx tx ''sqlite.DispatchPlanAtomic'' (dispatch_body p expected js audit_insert) db"

definition jobs_by_plan :: "database \<Rightarrow> string \<Rightarrow> job list" where
  "jobs_by_plan db pid = sort_key j_cluster_id (filter (\<lambda>j. j_plan_id j = pid) (jobs db))"

text \<open>The jobs \<open>ClaimJobs\<close> considers, in the order in which it tries them.\<close>

definition job_due :: "time \<Rightarrow> job \<Rightarrow> bool" where
  "job_due now j \<longleftrightarrow>
     ((j_status j = JobPending \<or> j_status j = JobRetryable)
        \<and> encode_time (j_next_attempt_at j) \<le> encode_time now)
     \<or> (j_status j = JobLeased \<and> (case j_lease_until j of None \<Rightarrow> False
          | Some t \<Rightarrow> encode_time t \<le> encode_time now))"

definition sql_limit :: "i64 \<Rightarrow> 'r list \<Rightarrow> 'r list" where
  "sql_limit n rows = (if n < 0 then rows else take (nat n) rows)"

definition claim_candidates :: "database \<Rightarrow> i64 \<Rightarrow> time \<Rightarrow> job list" where
  "claim_candidates db limit now =
     sql_limit limit (sort_key (\<lambda>j. (encode_time (j_next_attempt_at j), j_id j)) (filter (job_due now) (jobs db)))"

definition assign_lease :: "job \<Rightarrow> job \<Rightarrow> job" where
  "assign_lease j old = old\<lparr>j_status := j_status j, j_attempts := j_attempts j, j_lease_owner := j_lease_owner j,
     j_lease_until := j_lease_until j, j_version := j_version j, j_updated_at := j_updated_at j\<rparr>"

text \<open>
  One turn of the loop: a job that cannot be leased, or whose update is refused (by the version, by
  a constraint, or by the driver, \<open>refused\<close>), is skipped.
\<close>

definition claim_one ::
    "(string \<Rightarrow> bool) \<Rightarrow> string \<Rightarrow> time \<Rightarrow> duration \<Rightarrow> job \<Rightarrow> database \<times> job list \<Rightarrow> database \<times> job list" where
  "claim_one refused owner now d j = (\<lambda>(db, claimed).
     case job_lease j owner now d of
       Inl _ \<Rightarrow> (db, claimed)
     | Inr leased \<Rightarrow>
         if refused (j_id j) then (db, claimed)
         else case cas_rows j_id j_version assign_lease job_row_violation ''sqlite.claimJob'' (jobs db) leased (j_version j) of
           Inl _ \<Rightarrow> (db, claimed)
         | Inr rows \<Rightarrow> (db\<lparr>jobs := rows\<rparr>, claimed @ [leased]))"

definition claim_jobs ::
    "tx_outcome \<Rightarrow> (string \<Rightarrow> bool) \<Rightarrow> database \<Rightarrow> string \<Rightarrow> i64 \<Rightarrow> time \<Rightarrow> duration \<Rightarrow> (database \<times> job list) res" where
  "claim_jobs tx refused db owner limit now d =
     in_tx tx ''sqlite.ClaimJobs''
       (\<lambda>db. Inr (fold (claim_one refused owner now d) (claim_candidates db limit now) (db, []))) db"

definition assign_job :: "job \<Rightarrow> job \<Rightarrow> job" where
  "assign_job j old = old\<lparr>j_status := j_status j, j_attempts := j_attempts j,
     j_next_attempt_at := j_next_attempt_at j, j_lease_owner := nullable_string (j_lease_owner j),
     j_lease_until := j_lease_until j, j_last_error := j_last_error j, j_version := j_version j,
     j_updated_at := j_updated_at j\<rparr>"

definition complete_job :: "database \<Rightarrow> job \<Rightarrow> i64 \<Rightarrow> database res" where
  "complete_job db j expected =
     and_then (cas_rows j_id j_version assign_job job_row_violation ''sqlite.CompleteJob'' (jobs db) j expected)
       (\<lambda>rows. Inr (db\<lparr>jobs := rows\<rparr>))"


section \<open>What the statements keep\<close>

lemma nullable_string_idem [simp]: "nullable_string (nullable_string s) = nullable_string s"
  by (simp add: nullable_string_def)

lemma insert_plan_Inr: "insert_plan db p = Inr db' \<longleftrightarrow> plan_violation db p = None
    \<and> db' = db\<lparr>plans := plans db @ [p\<lparr>p_approved_by := nullable_string (p_approved_by p)\<rparr>]\<rparr>"
  by (auto simp: insert_plan_def)

lemma insert_reservation_Inr: "insert_reservation db r = Inr db' \<longleftrightarrow>
    reservation_violation db r = None \<and> db' = db\<lparr>reservations := reservations db @ [r]\<rparr>"
  by (auto simp: insert_reservation_def)

lemma insert_job_Inr: "insert_job j db = Inr db' \<longleftrightarrow> job_violation db j = None
    \<and> db' = db\<lparr>jobs := jobs db @ [j\<lparr>j_lease_owner := nullable_string (j_lease_owner j)\<rparr>]\<rparr>"
  by (auto simp: insert_job_def)

lemma insert_plan_keys: "keys_ok db \<Longrightarrow> insert_plan db p = Inr db' \<Longrightarrow> keys_ok db'"
  by (auto simp: insert_plan_Inr plan_violation_def keys_ok_def plan_exists_def list_ex_iff split: if_splits)

lemma insert_reservation_keys: "keys_ok db \<Longrightarrow> insert_reservation db r = Inr db' \<Longrightarrow> keys_ok db'"
  by (auto simp: insert_reservation_Inr reservation_violation_def keys_ok_def list_ex_iff split: if_splits)

lemma insert_job_keys: "keys_ok db \<Longrightarrow> insert_job j db = Inr db' \<Longrightarrow> keys_ok db'"
  by (auto simp: insert_job_Inr job_violation_def keys_ok_def list_ex_iff split: if_splits)

lemma keys_ok_plans: "map p_id rows = map p_id (plans db) \<Longrightarrow> keys_ok db \<Longrightarrow> keys_ok (db\<lparr>plans := rows\<rparr>)"
  by (simp add: keys_ok_def)

lemma keys_ok_jobs: "map j_id rows = map j_id (jobs db) \<Longrightarrow> map j_command_key rows = map j_command_key (jobs db) \<Longrightarrow>
    map (\<lambda>j. (j_plan_id j, j_cluster_id j)) rows = map (\<lambda>j. (j_plan_id j, j_cluster_id j)) (jobs db) \<Longrightarrow>
    keys_ok db \<Longrightarrow> keys_ok (db\<lparr>jobs := rows\<rparr>)"
  by (simp add: keys_ok_def)

lemma assign_plan_frame [simp]:
  "p_id (assign_plan p old) = p_id old" "p_version (assign_plan p old) = p_version p"
  "p_site_id (assign_plan p old) = p_site_id old" "p_created_by (assign_plan p old) = p_created_by old"
  "p_id (assign_plan_status p old) = p_id old" "p_version (assign_plan_status p old) = p_version p"
  "p_site_id (assign_plan_status p old) = p_site_id old"
  by (simp_all add: assign_plan_def assign_plan_status_def)

lemma assign_job_frame [simp]:
  "j_id (assign_job j old) = j_id old" "j_version (assign_job j old) = j_version j"
  "j_command_key (assign_job j old) = j_command_key old" "j_plan_id (assign_job j old) = j_plan_id old"
  "j_cluster_id (assign_job j old) = j_cluster_id old"
  "j_id (assign_lease j old) = j_id old" "j_version (assign_lease j old) = j_version j"
  "j_command_key (assign_lease j old) = j_command_key old" "j_plan_id (assign_lease j old) = j_plan_id old"
  "j_cluster_id (assign_lease j old) = j_cluster_id old"
  by (simp_all add: assign_job_def assign_lease_def)

lemma update_plan_Inr:
  assumes "keys_ok db"
  shows "update_plan db p e = Inr db' \<longleftrightarrow> (\<exists>old. find_key p_id (p_id p) (plans db) = Some old
    \<and> p_version old = e \<and> plan_row_violation db (assign_plan p old) = None
    \<and> db' = db\<lparr>plans := update_where (\<lambda>r. p_id r = p_id p) (assign_plan p) (plans db)\<rparr>)"
proof -
  have "distinct (map p_id (plans db))" using assms by (simp add: keys_ok_def)
  then show ?thesis by (auto simp: update_plan_def cas_rows_Inr)
qed

lemma update_plan_status_Inr:
  assumes "keys_ok db"
  shows "update_plan_status op p e db = Inr db' \<longleftrightarrow> (\<exists>old. find_key p_id (p_id p) (plans db) = Some old
    \<and> p_version old = e \<and> plan_check (assign_plan_status p old)
    \<and> db' = db\<lparr>plans := update_where (\<lambda>r. p_id r = p_id p) (assign_plan_status p) (plans db)\<rparr>)"
proof -
  have "distinct (map p_id (plans db))" using assms by (simp add: keys_ok_def)
  then show ?thesis
    by (auto simp: update_plan_status_def cas_rows_Inr plan_status_violation_def split: if_splits)
qed

lemma complete_job_Inr:
  assumes "keys_ok db"
  shows "complete_job db j e = Inr db' \<longleftrightarrow> (\<exists>old. find_key j_id (j_id j) (jobs db) = Some old
    \<and> j_version old = e \<and> job_row_violation (assign_job j old) = None
    \<and> db' = db\<lparr>jobs := update_where (\<lambda>r. j_id r = j_id j) (assign_job j) (jobs db)\<rparr>)"
proof -
  have "distinct (map j_id (jobs db))" using assms by (simp add: keys_ok_def)
  then show ?thesis by (auto simp: complete_job_def cas_rows_Inr)
qed

lemma reserve_cluster_row_Inr:
  assumes "keys_ok db"
  shows "reserve_cluster_row t cid db = Inr db' \<longleftrightarrow> (\<exists>c. find_key c_id cid (clusters db) = Some c
    \<and> c_status c = ClusterAvailable \<and> cluster_check c
    \<and> db' = db\<lparr>clusters := update_where (\<lambda>c. c_id c = cid)
        (\<lambda>c. c\<lparr>c_status := ClusterReserved, c_version := incr64 (c_version c), c_updated_at := t\<rparr>) (clusters db)\<rparr>)"
proof -
  let ?f = "\<lambda>c. c\<lparr>c_status := ClusterReserved, c_version := incr64 (c_version c), c_updated_at := t\<rparr>"
  have dist: "distinct (map c_id (clusters db))" using assms by (simp add: keys_ok_def)
  have "expect_one ''sqlite.reserveCluster'' (exec_update (\<lambda>c. c_id c = cid \<and> c_status c = ClusterAvailable) ?f
        cluster_row_violation (clusters db)) = Inr rows' \<longleftrightarrow>
      (\<exists>c. find_key c_id cid (clusters db) = Some c \<and> (c_id c = cid \<and> c_status c = ClusterAvailable)
        \<and> cluster_row_violation (?f c) = None \<and> rows' = update_where (\<lambda>c. c_id c = cid) ?f (clusters db))" for rows'
    by (rule expect_one_key [OF dist]) simp
  moreover have "cluster_row_violation (?f c) = None \<longleftrightarrow> cluster_check c" for c
    by (simp add: cluster_row_violation_def cluster_check_def)
  ultimately show ?thesis
    unfolding reserve_cluster_row_def and_then_Inr by (auto dest: find_key_SomeD)
qed

lemma reserve_cluster_row_keys: "keys_ok db \<Longrightarrow> reserve_cluster_row t cid db = Inr db' \<Longrightarrow> keys_ok db'"
  by (auto simp: reserve_cluster_row_Inr intro!: keys_ok_clusters map_update_where)

lemma update_plan_keys: "keys_ok db \<Longrightarrow> update_plan db p e = Inr db' \<Longrightarrow> keys_ok db'"
  by (auto simp: update_plan_Inr intro!: keys_ok_plans map_update_where)

lemma update_plan_status_keys: "keys_ok db \<Longrightarrow> update_plan_status op p e db = Inr db' \<Longrightarrow> keys_ok db'"
  by (auto simp: update_plan_status_Inr intro!: keys_ok_plans map_update_where)

lemma complete_job_keys: "keys_ok db \<Longrightarrow> complete_job db j e = Inr db' \<Longrightarrow> keys_ok db'"
  by (auto simp: complete_job_Inr intro!: keys_ok_jobs map_update_where)

lemma hold_cluster_keys: "keys_ok db \<Longrightarrow> hold_cluster t r db = Inr db' \<Longrightarrow> keys_ok db'"
  by (auto simp: hold_cluster_def dest: insert_reservation_keys reserve_cluster_row_keys)

interpretation plan_store: versioned_store keys_ok "\<lambda>db k. find_key p_id k (plans db)"
    "\<lambda>db p e. accepted (update_plan db p e)" p_id p_version
  by (rule cas_versioned_store [where assign = assign_plan and rows = plans])
    (erule (1) update_plan_keys, auto simp: update_plan_Inr)

interpretation job_store: versioned_store keys_ok "\<lambda>db k. find_key j_id k (jobs db)"
    "\<lambda>db j e. accepted (complete_job db j e)" j_id j_version
  by (rule cas_versioned_store [where assign = assign_job and rows = jobs])
    (erule (1) complete_job_keys, auto simp: complete_job_Inr)

section \<open>The effect of a submission\<close>

definition held :: "time \<Rightarrow> cluster \<Rightarrow> cluster" where
  "held t c = c\<lparr>c_status := ClusterReserved, c_version := incr64 (c_version c), c_updated_at := t\<rparr>"

lemma held_frame [simp]: "c_id (held t c) = c_id c" "c_status (held t c) = ClusterReserved"
  "c_version (held t c) = incr64 (c_version c)" "c_site_id (held t c) = c_site_id c" "c_code (held t c) = c_code c"
  by (simp_all add: held_def)

lemma update_where_twice:
  assumes "k \<notin> S" "\<And>x. key (f x) = key x"
  shows "update_where (\<lambda>x. key x \<in> S) f (update_where (\<lambda>x. key x = k) f xs) = update_where (\<lambda>x. key x \<in> insert k S) f xs"
  using assms by (auto simp: update_where_def)

lemma hold_clusters_effect:
  assumes "keys_ok db" "fold_res (hold_cluster t) rs db = Inr db'"
  shows "keys_ok db' \<and> distinct (map r_cluster_id rs)
    \<and> (\<forall>r \<in> set rs. \<exists>c. find_key c_id (r_cluster_id r) (clusters db) = Some c \<and> c_status c = ClusterAvailable)
    \<and> db' = db\<lparr>clusters := update_where (\<lambda>c. c_id c \<in> r_cluster_id ` set rs) (held t) (clusters db),
        reservations := reservations db @ rs\<rparr>"
  using assms
proof (induction rs arbitrary: db)
  case Nil
  then show ?case by (simp add: update_where_def)
next
  case (Cons r rs)
  let ?cid = "r_cluster_id r"
  from Cons.prems(2) obtain db1 where db1: "hold_cluster t r db = Inr db1" "fold_res (hold_cluster t) rs db1 = Inr db'"
    by auto
  have k1: "keys_ok db1" using hold_cluster_keys [OF Cons.prems(1) db1(1)] .
  have "keys_ok (db\<lparr>reservations := reservations db @ [r]\<rparr>)" if "reservation_violation db r = None"
    using Cons.prems(1) that by (auto intro: insert_reservation_keys simp: insert_reservation_Inr)
  with db1(1) obtain c where c: "find_key c_id ?cid (clusters db) = Some c" "c_status c = ClusterAvailable"
    and eq: "db1 = db\<lparr>clusters := update_where (\<lambda>c. c_id c = ?cid) (held t) (clusters db),
        reservations := reservations db @ [r]\<rparr>"
    by (auto simp: hold_cluster_def insert_reservation_Inr reserve_cluster_row_Inr held_def [abs_def])
  note IH = Cons.IH [OF k1 db1(2)]
  have look: "find_key c_id k (clusters db1) = map_option (\<lambda>x. if c_id x = ?cid then held t x else x)
      (find_key c_id k (clusters db))" for k
    by (simp add: eq find_key_update_where)
  have avail: "\<exists>c. find_key c_id (r_cluster_id q) (clusters db) = Some c \<and> c_status c = ClusterAvailable"
    and other: "r_cluster_id q \<noteq> ?cid" if "q \<in> set rs" for q
  proof -
    from IH that obtain c' where c': "find_key c_id (r_cluster_id q) (clusters db1) = Some c'"
      "c_status c' = ClusterAvailable" by blast
    then obtain x where x: "find_key c_id (r_cluster_id q) (clusters db) = Some x"
      "c' = (if c_id x = ?cid then held t x else x)" by (auto simp: look)
    with c'(2) have "c_id x \<noteq> ?cid" "c' = x" by (auto split: if_splits)
    with x c'(2) show "\<exists>c. find_key c_id (r_cluster_id q) (clusters db) = Some c \<and> c_status c = ClusterAvailable"
      and "r_cluster_id q \<noteq> ?cid" using find_key_SomeD [OF x(1)] by auto
  qed
  then have notin: "?cid \<notin> r_cluster_id ` set rs" by force
  have "db' = db\<lparr>clusters := update_where (\<lambda>c. c_id c \<in> r_cluster_id ` set (r # rs)) (held t) (clusters db),
        reservations := reservations db @ r # rs\<rparr>"
    using IH update_where_twice [OF notin, of c_id "held t" "clusters db"] by (simp add: eq)
  with IH notin avail c show ?case by auto
qed

text \<open>
  What a successful \<open>SubmitPlanAtomic\<close> has done, when the audit event is written by a function that
  leaves the other tables alone.
\<close>

definition submitted_db ::
    "plan \<Rightarrow> reservation list \<Rightarrow> string \<Rightarrow> i64 \<Rightarrow> database \<Rightarrow> database" where
  "submitted_db p rs sid kw db = db\<lparr>
     sites := update_where (\<lambda>s. s_id s = sid) (add_reserved kw (p_updated_at p)) (sites db),
     clusters := update_where (\<lambda>c. c_id c \<in> r_cluster_id ` set rs) (held (p_updated_at p)) (clusters db),
     plans := update_where (\<lambda>q. p_id q = p_id p) (assign_plan_status p) (plans db),
     reservations := reservations db @ rs\<rparr>"

lemma submit_body_Inr:
  assumes "keys_ok db" "submit_body p e rs sid kw es (Some ins) db = Inr db'"
  shows "(\<exists>s. find_key s_id sid (sites db) = Some s \<and> site_has_room sid kw es s
      \<and> site_check (add_reserved kw (p_updated_at p) s))
    \<and> (\<exists>old. find_key p_id (p_id p) (plans db) = Some old \<and> p_version old = e)
    \<and> (\<forall>r \<in> set rs. \<not> reservation_conflict db (r_cluster_id r) (r_window r))
    \<and> (\<forall>r \<in> set rs. \<exists>c. find_key c_id (r_cluster_id r) (clusters db) = Some c \<and> c_status c = ClusterAvailable)
    \<and> distinct (map r_cluster_id rs)
    \<and> keys_ok (submitted_db p rs sid kw db) \<and> ins (submitted_db p rs sid kw db) = Inr db'"
proof -
  from assms(2) obtain db1 db2 db3 where
    nc: "first_conflict db rs = None"
    and s1: "reserve_capacity ''sqlite.reserveSite'' db sid kw es (p_updated_at p) = Inr db1"
    and s2: "fold_res (hold_cluster (p_updated_at p)) rs db1 = Inr db2"
    and s3: "update_plan_status ''sqlite.submitPlan'' p e db2 = Inr db3"
    and s4: "ins db3 = Inr db'"
    by (auto simp: submit_body_def split: option.splits)
  have k1: "keys_ok db1" using reserve_capacity_keys [OF assms(1) s1] .
  note h = hold_clusters_effect [OF k1 s2]
  then have k2: "keys_ok db2" by blast
  have k3: "keys_ok db3" using update_plan_status_keys [OF k2 s3] .
  from s1 obtain s where s: "find_key s_id sid (sites db) = Some s" "site_has_room sid kw es s"
      "site_check (add_reserved kw (p_updated_at p) s)"
    and db1: "db1 = db\<lparr>sites := update_where (\<lambda>r. s_id r = sid) (add_reserved kw (p_updated_at p)) (sites db)\<rparr>"
    by (auto simp: reserve_capacity_Inr [OF assms(1)])
  from s3 obtain old where old: "find_key p_id (p_id p) (plans db2) = Some old" "p_version old = e"
    and db3: "db3 = db2\<lparr>plans := update_where (\<lambda>r. p_id r = p_id p) (assign_plan_status p) (plans db2)\<rparr>"
    by (auto simp: update_plan_status_Inr [OF k2])
  have eq: "db3 = submitted_db p rs sid kw db"
    using h by (simp add: db3 db1 submitted_db_def)
  have pl: "plans db2 = plans db" and cl: "clusters db1 = clusters db" using h by (simp_all add: db1)
  have "\<forall>r \<in> set rs. \<not> reservation_conflict db (r_cluster_id r) (r_window r)"
    using nc by (auto simp: first_conflict_def find_None_iff)
  with s old(2) old(1) [unfolded pl] h [unfolded cl] k3 [unfolded eq] s4 [unfolded eq] show ?thesis
    by blast
qed

section \<open>The effect of claiming jobs\<close>

definition claim_of :: "(string \<Rightarrow> bool) \<Rightarrow> string \<Rightarrow> time \<Rightarrow> duration \<Rightarrow> job \<Rightarrow> job option" where
  "claim_of refused owner now d j =
     (case job_lease j owner now d of
        Inl _ \<Rightarrow> None
      | Inr k \<Rightarrow> if refused (j_id j) \<or> job_row_violation k \<noteq> None then None else Some k)"

definition after_claim :: "(job \<Rightarrow> job option) \<Rightarrow> job set \<Rightarrow> job \<Rightarrow> job" where
  "after_claim claim S j = (if j \<in> S then (case claim j of None \<Rightarrow> j | Some k \<Rightarrow> k) else j)"

lemma job_lease_frame: "job_lease j owner now d = Inr k \<Longrightarrow> j_id k = j_id j \<and> j_command_key k = j_command_key j
    \<and> j_plan_id k = j_plan_id j \<and> j_cluster_id k = j_cluster_id j \<and> j_version k = incr64 (j_version j)
    \<and> assign_lease k j = k"
  by (auto simp: job_lease_Inr assign_lease_def)

lemma claim_of_Some: "claim_of refused owner now d j = Some k \<longleftrightarrow>
    job_lease j owner now d = Inr k \<and> \<not> refused (j_id j) \<and> job_row_violation k = None"
  by (auto simp: claim_of_def split: sum.split)

lemma after_claim_id: "j_id (after_claim (claim_of refused owner now d) S j) = j_id j"
    "j_command_key (after_claim (claim_of refused owner now d) S j) = j_command_key j"
    "(j_plan_id (after_claim (claim_of refused owner now d) S j), j_cluster_id (after_claim (claim_of refused owner now d) S j))
       = (j_plan_id j, j_cluster_id j)"
  by (auto simp: after_claim_def claim_of_Some dest: job_lease_frame split: option.split)

lemma claim_one_step:
  assumes "keys_ok db" "j \<in> set (jobs db)"
  shows "claim_one refused owner now d j (db, acc) =
    (case claim_of refused owner now d j of
       None \<Rightarrow> (db, acc)
     | Some k \<Rightarrow> (db\<lparr>jobs := map (after_claim (claim_of refused owner now d) {j}) (jobs db)\<rparr>, acc @ [k]))"
proof (cases "job_lease j owner now d")
  case (Inl e)
  then show ?thesis by (simp add: claim_one_def claim_of_def)
next
  case (Inr k)
  note f = job_lease_frame [OF Inr]
  have dist: "distinct (map j_id (jobs db))" using assms(1) by (simp add: keys_ok_def)
  have look: "find_key j_id (j_id k) (jobs db) = Some j" using find_key_in_set [OF dist assms(2)] f by simp
  let ?cas = "cas_rows j_id j_version assign_lease job_row_violation ''sqlite.claimJob'' (jobs db) k (j_version j)"
  show ?thesis
  proof (cases "refused (j_id j) \<or> job_row_violation k \<noteq> None")
    case True
    have "refused (j_id j) \<or> (\<exists>e. ?cas = Inl e)"
      using True look f by (cases ?cas) (auto simp: cas_rows_Inr [OF dist])
    with True show ?thesis by (auto simp: claim_one_def claim_of_def Inr)
  next
    case False
    have "r = j" if "r \<in> set (jobs db)" "j_id r = j_id j" for r
      using that assms(2) dist by (metis find_key_in_set option.inject)
    then have "update_where (\<lambda>r. j_id r = j_id k) (assign_lease k) (jobs db)
        = map (after_claim (claim_of refused owner now d) {j}) (jobs db)"
      using False f assms(2) Inr by (auto simp: update_where_def after_claim_def claim_of_def)
    moreover have "?cas = Inr (update_where (\<lambda>r. j_id r = j_id k) (assign_lease k) (jobs db))"
      using look f False by (simp add: cas_rows_Inr [OF dist])
    ultimately show ?thesis using False by (simp add: claim_one_def claim_of_def Inr)
  qed
qed

lemma keys_ok_after_claim: "keys_ok db \<Longrightarrow> keys_ok (db\<lparr>jobs := map (after_claim (claim_of refused owner now d) S) (jobs db)\<rparr>)"
  by (rule keys_ok_jobs) (simp_all add: after_claim_id comp_def)

lemma claim_fold:
  assumes "keys_ok db" "set cs \<subseteq> set (jobs db)" "distinct (map j_id cs)"
  shows "fold (claim_one refused owner now d) cs (db, acc) =
    (db\<lparr>jobs := map (after_claim (claim_of refused owner now d) (set cs)) (jobs db)\<rparr>,
     acc @ List.map_filter (claim_of refused owner now d) cs)"
  using assms
proof (induction cs arbitrary: db acc)
  case Nil
  then show ?case by (simp add: after_claim_def List.map_filter_simps)
next
  case (Cons j cs)
  let ?c = "claim_of refused owner now d"
  have j: "j \<in> set (jobs db)" using Cons.prems by simp
  have other: "\<And>x. x \<in> set cs \<Longrightarrow> j_id x \<noteq> j_id j" using Cons.prems(3) by (auto simp: image_iff)
  show ?case
  proof (cases "?c j")
    case None
    have "after_claim ?c (set (j # cs)) = after_claim ?c (set cs)"
      using None by (auto simp: after_claim_def fun_eq_iff)
    with None Cons.IH [OF Cons.prems(1)] Cons.prems j show ?thesis
      by (simp add: claim_one_step List.map_filter_simps)
  next
    case (Some k)
    let ?db = "db\<lparr>jobs := map (after_claim ?c {j}) (jobs db)\<rparr>"
    have k: "j_id k = j_id j" using Some by (auto simp: claim_of_Some dest: job_lease_frame)
    have "set cs \<subseteq> set (jobs ?db)"
    proof
      fix x assume "x \<in> set cs"
      then have "x \<in> set (jobs db)" "x \<noteq> j" using Cons.prems(2) other by auto
      then show "x \<in> set (jobs ?db)" by (force simp: after_claim_def)
    qed
    moreover have "after_claim ?c (set cs) (after_claim ?c {j} x) = after_claim ?c (set (j # cs)) x" for x
      using Some other k by (force simp: after_claim_def)
    ultimately show ?thesis
      using Cons.IH [OF keys_ok_after_claim [where S = "{j}" and refused = refused and owner = owner and now = now
          and d = d, OF Cons.prems(1)], where acc = "acc @ [k]"] Cons.prems(3) Some Cons.prems(1) j
      by (simp add: claim_one_step List.map_filter_simps comp_def)
  qed
qed

lemma claim_candidates_sub:
  assumes "keys_ok db"
  shows "set (claim_candidates db limit now) \<subseteq> {j \<in> set (jobs db). job_due now j}"
    "distinct (map j_id (claim_candidates db limit now))"
proof -
  let ?s = "sort_key (\<lambda>j. (encode_time (j_next_attempt_at j), j_id j)) (filter (job_due now) (jobs db))"
  show "set (claim_candidates db limit now) \<subseteq> {j \<in> set (jobs db). job_due now j}"
    by (auto simp: claim_candidates_def sql_limit_def dest: in_set_takeD)
  have "distinct (map j_id (filter (job_due now) (jobs db)))"
    using assms by (simp add: keys_ok_def distinct_map_filter)
  then have "distinct (map j_id ?s)" by (simp add: distinct_map)
  then show "distinct (map j_id (claim_candidates db limit now))"
    by (auto simp: claim_candidates_def sql_limit_def take_map [symmetric] intro: distinct_take)
qed

lemma claim_jobs_Inr:
  assumes "keys_ok db" "claim_jobs tx refused db owner limit now d = Inr (db', claimed)"
  shows "claimed = List.map_filter (claim_of refused owner now d) (claim_candidates db limit now)"
    "db' = db\<lparr>jobs := map (after_claim (claim_of refused owner now d) (set (claim_candidates db limit now))) (jobs db)\<rparr>"
    "keys_ok db'"
proof -
  have "set (claim_candidates db limit now) \<subseteq> set (jobs db)" "distinct (map j_id (claim_candidates db limit now))"
    using claim_candidates_sub [OF assms(1)] by auto
  from claim_fold [OF assms(1) this] assms(2)
  show "claimed = List.map_filter (claim_of refused owner now d) (claim_candidates db limit now)"
    and db': "db' = db\<lparr>jobs := map (after_claim (claim_of refused owner now d) (set (claim_candidates db limit now))) (jobs db)\<rparr>"
    by (simp_all add: claim_jobs_def)
  show "keys_ok db'" unfolding db' by (rule keys_ok_after_claim [OF assms(1)])
qed

lemma claimed_row:
  assumes "keys_ok db" "claim_jobs tx refused db owner limit now d = Inr (db', claimed)" "k \<in> set claimed"
  shows "k \<in> set (jobs db')"
    "\<exists>j \<in> set (jobs db). job_due now j \<and> job_lease j owner now d = Inr k"
proof -
  note c = claim_jobs_Inr [OF assms(1,2)]
  from assms(3) obtain j where j: "j \<in> set (claim_candidates db limit now)" "claim_of refused owner now d j = Some k"
    unfolding c(1) by (auto simp: List.map_filter_def)
  then have "j \<in> set (jobs db)" "job_due now j" using claim_candidates_sub(1) [OF assms(1)] by auto
  with j show "\<exists>j \<in> set (jobs db). job_due now j \<and> job_lease j owner now d = Inr k"
    by (auto simp: claim_of_Some)
  have "k = after_claim (claim_of refused owner now d) (set (claim_candidates db limit now)) j"
    using j by (simp add: after_claim_def)
  with \<open>j \<in> set (jobs db)\<close> show "k \<in> set (jobs db')" unfolding c(2) by simp
qed

lemma row_unique: "distinct (map key rows) \<Longrightarrow> x \<in> set rows \<Longrightarrow> y \<in> set rows \<Longrightarrow> key x = key y \<Longrightarrow> x = y"
  by (metis find_key_in_set option.inject)

text \<open>While a lease runs, no other worker claims the job.\<close>

lemma claims_disjoint:
  assumes "keys_ok db" "claim_jobs tx refused db owner limit now d = Inr (db1, claimed1)"
    and "claim_jobs tx' refused' db1 other limit' t d' = Inr (db2, claimed2)"
    and "now \<le> t" "t < now + d" "other \<noteq> trim_space owner"
  shows "j_id ` set claimed1 \<inter> j_id ` set claimed2 = {}"
proof (rule ccontr)
  assume "j_id ` set claimed1 \<inter> j_id ` set claimed2 \<noteq> {}"
  then obtain k1 k2 where k: "k1 \<in> set claimed1" "k2 \<in> set claimed2" "j_id k1 = j_id k2" by auto
  have k1: "keys_ok db1" using claim_jobs_Inr(3) [OF assms(1,2)] .
  from claimed_row [OF assms(1,2) k(1)] obtain j1 where j1: "k1 \<in> set (jobs db1)" "job_lease j1 owner now d = Inr k1"
    by auto
  from claimed_row(2) [OF k1 assms(3) k(2)] obtain j2 where j2: "j2 \<in> set (jobs db1)" "job_lease j2 other t d' = Inr k2"
    by auto
  have "j2 = k1"
    using row_unique [of j_id "jobs db1" j2 k1] k1 j1(1) j2 k(3) job_lease_frame [OF j2(2)] by (simp add: keys_ok_def)
  then have "job_claimable k1 t" using j2(2) by (simp add: job_lease_Inr)
  with lease_excludes(1) [OF j1(2) assms(4-6)] show False by simp
qed

text \<open>
  A worker whose lease was taken over can no longer report: its job carries the version of its own
  claim, and the claim that followed moved the row on.
\<close>

lemma stale_report_refused:
  assumes "keys_ok db" "claim_jobs tx refused db owner limit now d = Inr (db1, claimed1)" "k1 \<in> set claimed1"
    and "claim_jobs tx' refused' db1 other limit' t d' = Inr (db2, claimed2)" "k2 \<in> set claimed2"
    and "j_id k2 = j_id k1" "j_id report = j_id k1"
  shows "complete_job db2 report (j_version k1) = Inl (version_conflict ''sqlite.CompleteJob'')"
proof -
  have ok1: "keys_ok db1" using claim_jobs_Inr(3) [OF assms(1,2)] .
  have ok2: "keys_ok db2" using claim_jobs_Inr(3) [OF ok1 assms(4)] .
  then have dist: "distinct (map j_id (jobs db2))" by (simp add: keys_ok_def)
  from claimed_row(1) [OF assms(1-3)] have k1: "k1 \<in> set (jobs db1)" .
  from claimed_row [OF ok1 assms(4,5)] obtain j where k2: "k2 \<in> set (jobs db2)"
    and j: "j \<in> set (jobs db1)" "job_lease j other t d' = Inr k2" by auto
  have "j = k1"
    using row_unique [of j_id "jobs db1" j k1] ok1 k1 j assms(6) job_lease_frame [OF j(2)] by (simp add: keys_ok_def)
  then have v: "j_version k2 = incr64 (j_version k1)" using job_lease_frame [OF j(2)] by simp
  have "find_key j_id (j_id report) (jobs db2) = Some k2"
    using find_key_in_set [OF dist k2] assms(6,7) by simp
  with v have "cas_rows j_id j_version assign_job job_row_violation ''sqlite.CompleteJob'' (jobs db2) report
      (j_version k1) = Inl (version_conflict ''sqlite.CompleteJob'')"
    by (intro cas_rows_stale [OF dist]) auto
  then show ?thesis by (simp add: complete_job_def)
qed

section \<open>Overlapping reservations\<close>

text \<open>
  No cluster is bound twice at one time, as the statement sees it; for windows of whole seconds the
  statement sees the overlap of the windows.
\<close>

definition no_overlap :: "database \<Rightarrow> bool" where
  [inv_defs]: "no_overlap db \<longleftrightarrow> (\<forall>r \<in> set (reservations db). \<forall>q \<in> set (reservations db).
     r_id r \<noteq> r_id q \<longrightarrow> r_cluster_id r = r_cluster_id q \<longrightarrow> r_status r \<noteq> ReservationReleased
     \<longrightarrow> r_status q \<noteq> ReservationReleased \<longrightarrow> \<not> text_overlaps (r_window r) (r_window q))"

definition whole_seconds :: "window \<Rightarrow> bool" where
  "whole_seconds w \<longleftrightarrow> time_in_range (w_start w) \<and> time_in_range (w_end w)
     \<and> w_start w mod second = 0 \<and> w_end w mod second = 0"

lemma text_overlaps_exact:
  "whole_seconds v \<Longrightarrow> whole_seconds w \<Longrightarrow> text_overlaps v w \<longleftrightarrow> window_overlaps v w"
  by (simp add: text_overlaps_def window_overlaps_def whole_seconds_def encode_time_whole_seconds)

lemma text_overlaps_sym: "text_overlaps v w \<longleftrightarrow> text_overlaps w v"
  by (auto simp: text_overlaps_def)

lemma submit_keeps_no_overlap:
  assumes "keys_ok db" "no_overlap db" "submit_body p e rs sid kw es (Some ins) db = Inr db'"
    and "reservations db' = reservations db @ rs"
  shows "no_overlap db'"
proof -
  note s = submit_body_Inr [OF assms(1,3)]
  then have nc: "\<And>r. r \<in> set rs \<Longrightarrow> \<not> reservation_conflict db (r_cluster_id r) (r_window r)"
    and dist: "distinct (map r_cluster_id rs)" by auto
  have new_old: "\<not> text_overlaps (r_window q) (r_window r)"
    if "r \<in> set rs" "q \<in> set (reservations db)" "r_cluster_id r = r_cluster_id q" "r_status q \<noteq> ReservationReleased" for r q
    using nc [OF that(1)] that by (auto simp: reservation_conflict_def)
  have new_new: "r = q" if "r \<in> set rs" "q \<in> set rs" "r_cluster_id r = r_cluster_id q" for r q
    using row_unique [OF dist that] .
  show ?thesis
    unfolding no_overlap_def assms(4)
  proof (intro ballI impI)
    fix r q
    assume "r \<in> set (reservations db @ rs)" "q \<in> set (reservations db @ rs)" "r_id r \<noteq> r_id q"
      "r_cluster_id r = r_cluster_id q" "r_status r \<noteq> ReservationReleased" "r_status q \<noteq> ReservationReleased"
    then show "\<not> text_overlaps (r_window r) (r_window q)"
      using assms(2) new_old [of r q] new_old [of q r] new_new [of r q] text_overlaps_sym
      by (auto simp: no_overlap_def)
  qed
qed
end
