(* ===== verification/StoreOperations.thy ===== *)
theory StoreOperations
  imports StoreDispatch
begin

text \<open>
  \<open>internal/storage/sqlite/operations.go\<close>, \<open>settlement.go\<close> and \<open>idempotency.go\<close>: the audit log,
  telemetry and alarms, settlement periods and entries, idempotency keys.
\<close>

section \<open>The audit log\<close>

definition event_violation :: "database \<Rightarrow> event \<Rightarrow> violation option" where
  "event_violation db e =
     (if list_ex (\<lambda>r. ev_id r = ev_id e) (audit_events db) then Some UniqueViolation
      else if \<not> user_ref_ok db (ev_actor_id e) then Some ForeignKeyViolation
      else None)"

definition insert_audit :: "event \<Rightarrow> database \<Rightarrow> database res" where
  "insert_audit e db =
     and_then (exec_insert ''sqlite.insertAudit'' (event_violation db e)
         (e\<lparr>ev_actor_id := nullable_string (ev_actor_id e)\<rparr>) (audit_events db))
       (\<lambda>rows. Inr (db\<lparr>audit_events := rows\<rparr>))"

text \<open>\<open>AuditInserter\<close> returns the insertion as a function of the transaction.\<close>

definition audit_inserter :: "event \<Rightarrow> (database \<Rightarrow> database res) option" where
  "audit_inserter e = Some (insert_audit e)"

definition event_key :: "event \<Rightarrow> string \<times> string" where
  "event_key e = (encode_time (ev_occurred_at e), ev_id e)"

definition cursor_key :: "cursor \<Rightarrow> string \<times> string" where
  "cursor_key c = (encode_time (cu_occurred_at c), cu_id c)"

definition event_matches :: "audit_filter \<Rightarrow> event \<Rightarrow> bool" where
  "event_matches f e \<longleftrightarrow>
     (auf_object_type f = '''' \<or> ev_object_type e = auf_object_type f)
     \<and> (auf_object_id f = '''' \<or> ev_object_id e = auf_object_id f)
     \<and> (auf_request_id f = '''' \<or> ev_request_id e = auf_request_id f)
     \<and> (case auf_from f of None \<Rightarrow> True | Some t \<Rightarrow> encode_time t \<le> encode_time (ev_occurred_at e))
     \<and> (case auf_until f of None \<Rightarrow> True | Some t \<Rightarrow> encode_time (ev_occurred_at e) < encode_time t)
     \<and> (case auf_cursor f of None \<Rightarrow> True
        | Some c \<Rightarrow> encode_time (ev_occurred_at e) < encode_time (cu_occurred_at c)
            \<or> (encode_time (ev_occurred_at e) = encode_time (cu_occurred_at c) \<and> ev_id e < cu_id c))"

record audit_page =
  aup_items :: "event list"
  aup_next :: "cursor option"

text \<open>\<open>ORDER BY occurred_at DESC, id DESC\<close>: the column holds the text of the time, so this is the order of texts.\<close>

definition latest_text_first :: "event list \<Rightarrow> event list" where
  "latest_text_first es = rev (sort_key event_key es)"

definition list_audit :: "database \<Rightarrow> audit_filter \<Rightarrow> audit_page res" where
  "list_audit db filter_by =
     and_then (audit_filter_normalize filter_by) (\<lambda>f.
       let limit = nat (auf_limit f);
           items = take (limit + 1) (latest_text_first (filter (event_matches f) (audit_events db))) in
       if limit < length items then
         let l = items ! (limit - 1) in
         Inr \<lparr>aup_items = take limit items,
              aup_next = Some \<lparr>cu_occurred_at = ev_occurred_at l, cu_id = ev_id l\<rparr>\<rparr>
       else Inr \<lparr>aup_items = items, aup_next = None\<rparr>)"

section \<open>Telemetry\<close>

definition snapshot_violation :: "database \<Rightarrow> snapshot \<Rightarrow> violation option" where
  "snapshot_violation db s =
     (if \<not> (0 \<le> t_soc s \<and> t_soc s \<le> 100) then Some CheckViolation
      else if list_ex (\<lambda>r. t_id r = t_id s \<or> (t_cluster_id r = t_cluster_id s \<and> t_sequence r = t_sequence s))
        (snapshots db) then Some UniqueViolation
      else if \<not> cluster_exists db (t_cluster_id s) then Some ForeignKeyViolation
      else None)"

definition insert_snapshot :: "snapshot \<Rightarrow> database \<Rightarrow> database res" where
  "insert_snapshot s db =
     and_then (exec_insert ''sqlite.insertTelemetry'' (snapshot_violation db s) s (snapshots db))
       (\<lambda>rows. Inr (db\<lparr>snapshots := rows\<rparr>))"

definition advance :: "snapshot \<Rightarrow> i64 \<Rightarrow> cluster \<Rightarrow> cluster" where
  "advance s soc c = c\<lparr>c_soc := soc, c_sequence := t_sequence s, c_telemetry_at := Some (t_observed_at s),
     c_version := incr64 (c_version c), c_updated_at := t_received_at s\<rparr>"

definition advance_telemetry :: "snapshot \<Rightarrow> i64 \<Rightarrow> i64 \<Rightarrow> database \<Rightarrow> database res" where
  "advance_telemetry s soc expected db =
     and_then (expect_one ''sqlite.advanceTelemetry''
         (exec_update (\<lambda>c. c_id c = t_cluster_id s \<and> c_version c = expected \<and> c_sequence c < t_sequence s)
           (advance s soc) cluster_row_violation (clusters db)))
       (\<lambda>rows. Inr (db\<lparr>clusters := rows\<rparr>))"

text \<open>
  \<open>INSERT INTO alarms ... ON CONFLICT DO NOTHING\<close>: an alarm whose identity or whose active
  fingerprint exists already is dropped without an error.
\<close>

definition alarm_check :: "alarm \<Rightarrow> bool" where
  "alarm_check a \<longleftrightarrow> a_severity a \<in> {SeverityWarning, SeverityCritical}"

definition alarm_taken :: "database \<Rightarrow> alarm \<Rightarrow> bool" where
  "alarm_taken db a \<longleftrightarrow> list_ex (\<lambda>r. a_id r = a_id a
     \<or> (a_status a \<noteq> AlarmResolved \<and> a_status r \<noteq> AlarmResolved \<and> a_fingerprint r = a_fingerprint a)) (alarms db)"

definition insert_alarm :: "alarm \<Rightarrow> database \<Rightarrow> database res" where
  "insert_alarm a db =
     (if \<not> alarm_check a then Inl (translate ''sqlite.insertAlarm'' (violation_error CheckViolation))
      else if alarm_taken db a then Inr db
      else if \<not> site_exists db (a_site_id a) \<or> \<not> cluster_exists db (a_cluster_id a) then
        Inl (translate ''sqlite.insertAlarm'' (violation_error ForeignKeyViolation))
      else Inr (db\<lparr>alarms := alarms db @ [a\<lparr>a_acknowledged_by := '''', a_acknowledged_at := None,
        a_resolved_by := '''', a_resolved_at := None\<rparr>]\<rparr>))"

definition store_telemetry_body ::
    "snapshot \<Rightarrow> i64 \<Rightarrow> i64 \<Rightarrow> alarm list \<Rightarrow> event \<Rightarrow> database \<Rightarrow> database res" where
  "store_telemetry_body s soc version as e db =
     and_then (insert_snapshot s db) (\<lambda>db.
     and_then (advance_telemetry s soc version db) (\<lambda>db.
     and_then (fold_res insert_alarm as db) (insert_audit e)))"

definition store_telemetry_atomic ::
    "tx_outcome \<Rightarrow> database \<Rightarrow> snapshot \<Rightarrow> i64 \<Rightarrow> i64 \<Rightarrow> alarm list \<Rightarrow> event \<Rightarrow> database res" where
  "store_telemetry_atomic tx db s soc version as e =
     in_tx tx ''sqlite.StoreTelemetryAtomic'' (store_telemetry_body s soc version as e) db"

section \<open>Alarms\<close>

definition alarm_by_id :: "database \<Rightarrow> string \<Rightarrow> alarm res" where
  "alarm_by_id db aid = query_row ''sqlite.AlarmByID'' a_id aid (alarms db)"

definition assign_alarm :: "alarm \<Rightarrow> alarm \<Rightarrow> alarm" where
  "assign_alarm a old = old\<lparr>a_severity := a_severity a, a_status := a_status a, a_message := a_message a,
     a_acknowledged_by := nullable_string (a_acknowledged_by a), a_acknowledged_at := a_acknowledged_at a,
     a_resolved_by := nullable_string (a_resolved_by a), a_resolved_at := a_resolved_at a,
     a_version := a_version a, a_updated_at := a_updated_at a\<rparr>"

definition alarm_row_violation :: "database \<Rightarrow> alarm \<Rightarrow> violation option" where
  "alarm_row_violation db a =
     (if \<not> alarm_check a then Some CheckViolation
      else if a_status a \<noteq> AlarmResolved \<and> list_ex (\<lambda>r. a_id r \<noteq> a_id a \<and> a_status r \<noteq> AlarmResolved
        \<and> a_fingerprint r = a_fingerprint a) (alarms db) then Some UniqueViolation
      else if \<not> user_ref_ok db (a_acknowledged_by a) \<or> \<not> user_ref_ok db (a_resolved_by a)
      then Some ForeignKeyViolation
      else None)"

definition update_alarm_row :: "alarm \<Rightarrow> i64 \<Rightarrow> database \<Rightarrow> database res" where
  "update_alarm_row a expected db =
     and_then (cas_rows a_id a_version assign_alarm (alarm_row_violation db) ''sqlite.updateAlarm'' (alarms db) a expected)
       (\<lambda>rows. Inr (db\<lparr>alarms := rows\<rparr>))"

definition update_alarm :: "tx_outcome \<Rightarrow> database \<Rightarrow> alarm \<Rightarrow> i64 \<Rightarrow> event \<Rightarrow> database res" where
  "update_alarm tx db a expected e =
     in_tx tx ''sqlite.UpdateAlarm'' (\<lambda>db. and_then (update_alarm_row a expected db) (insert_audit e)) db"

section \<open>Settlement\<close>

definition period_check :: "period \<Rightarrow> bool" where
  "period_check p \<longleftrightarrow> encode_time (w_start (pd_window p)) < encode_time (w_end (pd_window p))"

definition period_violation :: "database \<Rightarrow> period \<Rightarrow> violation option" where
  "period_violation db p =
     (if \<not> period_check p then Some CheckViolation
      else if list_ex (\<lambda>r. pd_id r = pd_id p \<or> period_key r = period_key p) (periods db) then Some UniqueViolation
      else if \<not> site_exists db (pd_site_id p) \<or> \<not> user_ref_ok db (pd_closed_by p) then Some ForeignKeyViolation
      else None)"

definition insert_period :: "database \<Rightarrow> period \<Rightarrow> database res" where
  "insert_period db p =
     and_then (exec_insert ''sqlite.InsertPeriod'' (period_violation db p)
         (p\<lparr>pd_closed_by := nullable_string (pd_closed_by p)\<rparr>) (periods db))
       (\<lambda>rows. Inr (db\<lparr>periods := rows\<rparr>))"

definition period_by_id :: "database \<Rightarrow> string \<Rightarrow> period res" where
  "period_by_id db pid = query_row ''sqlite.PeriodByID'' pd_id pid (periods db)"

text \<open>\<open>INSERT INTO settlement_entries ... ON CONFLICT(period_id,plan_id) DO NOTHING\<close>.\<close>

definition insert_entry :: "entry \<Rightarrow> database \<Rightarrow> database res" where
  "insert_entry e db =
     (if list_ex (\<lambda>r. e_period_id r = e_period_id e \<and> e_plan_id r = e_plan_id e) (entries db) then Inr db
      else if list_ex (\<lambda>r. e_id r = e_id e) (entries db) then
        Inl (translate ''sqlite.insertEntry'' (violation_error UniqueViolation))
      else if \<not> list_ex (\<lambda>p. pd_id p = e_period_id e) (periods db) \<or> \<not> plan_exists db (e_plan_id e) then
        Inl (translate ''sqlite.insertEntry'' (violation_error ForeignKeyViolation))
      else Inr (db\<lparr>entries := entries db @ [e]\<rparr>))"

definition assign_period :: "period \<Rightarrow> period \<Rightarrow> period" where
  "assign_period p old = old\<lparr>pd_status := pd_status p, pd_closed_by := nullable_string (pd_closed_by p),
     pd_closed_at := pd_closed_at p, pd_version := pd_version p, pd_updated_at := pd_updated_at p\<rparr>"

definition period_row_violation :: "database \<Rightarrow> period \<Rightarrow> violation option" where
  "period_row_violation db p =
     (if \<not> period_check p then Some CheckViolation
      else if \<not> user_ref_ok db (pd_closed_by p) then Some ForeignKeyViolation
      else None)"

definition update_period_row :: "period \<Rightarrow> i64 \<Rightarrow> database \<Rightarrow> database res" where
  "update_period_row p expected db =
     and_then (cas_rows pd_id pd_version assign_period (period_row_violation db) ''sqlite.updatePeriod'' (periods db) p expected)
       (\<lambda>rows. Inr (db\<lparr>periods := rows\<rparr>))"

definition insert_entries_atomic ::
    "tx_outcome \<Rightarrow> database \<Rightarrow> period \<Rightarrow> i64 \<Rightarrow> entry list \<Rightarrow> event \<Rightarrow> database res" where
  "insert_entries_atomic tx db p expected es e =
     in_tx tx ''sqlite.InsertEntriesAtomic''
       (\<lambda>db. and_then (fold_res insert_entry es db) (\<lambda>db.
             and_then (update_period_row p expected db) (insert_audit e))) db"

definition completed_in :: "period \<Rightarrow> plan \<Rightarrow> bool" where
  "completed_in pd p \<longleftrightarrow> p_site_id p = pd_site_id pd \<and> p_status p = PlanCompleted
     \<and> encode_time (w_start (pd_window pd)) \<le> encode_time (w_start (p_window p))
     \<and> encode_time (w_end (p_window p)) \<le> encode_time (w_end (pd_window pd))"

definition completed_plans_for_period :: "database \<Rightarrow> period \<Rightarrow> plan list res" where
  "completed_plans_for_period db pd =
     traverse (plan_by_id db) (map p_id (sort_key plan_start_key (filter (completed_in pd) (plans db))))"

text \<open>
  \<open>SUM\<close> of integers: NULL for no rows, an error of SQLite when it leaves 64 bits on the way.
\<close>

fun sql_sum :: "i64 \<Rightarrow> i64 list \<Rightarrow> i64 res" where
  "sql_sum acc [] = Inr acc"
| "sql_sum acc (x # xs) = (if in_i64 (acc + x) then sql_sum (acc + x) xs else Inl (Driver ''integer overflow''))"

text \<open>The rows of the join of telemetry, clusters and the reservations of a plan.\<close>

definition plan_deltas :: "database \<Rightarrow> string \<Rightarrow> i64 list" where
  "plan_deltas db pid =
     concat (map (\<lambda>t. concat (map (\<lambda>c.
       map (\<lambda>r. t_energy_wh t) (filter (\<lambda>r. r_cluster_id r = c_id c \<and> r_plan_id r = pid
         \<and> encode_time (w_start (r_window r)) \<le> encode_time (t_observed_at t)
         \<and> encode_time (t_observed_at t) < encode_time (w_end (r_window r))) (reservations db)))
       (filter (\<lambda>c. c_id c = t_cluster_id t) (clusters db)))) (snapshots db))"

definition actual_energy_for_plan :: "database \<Rightarrow> string \<Rightarrow> i64 res" where
  "actual_energy_for_plan db pid =
     (case sql_sum 0 (plan_deltas db pid) of
        Inl e \<Rightarrow> Inl (translate ''sqlite.ActualEnergyForPlan'' e)
      | Inr total_wh \<Rightarrow> Inr total_wh)"

section \<open>Idempotency keys\<close>

definition idem_scope :: "idem_record \<Rightarrow> string \<times> string \<times> string \<times> string" where
  "idem_scope r = (i_actor_id r, i_method r, i_path r, i_key r)"

definition idem_violation :: "database \<Rightarrow> idem_record \<Rightarrow> violation option" where
  "idem_violation db r =
     (if list_ex (\<lambda>q. i_id q = i_id r \<or> idem_scope q = idem_scope r) (idempotency_keys db) then Some UniqueViolation
      else if \<not> user_exists db (i_actor_id r) then Some ForeignKeyViolation
      else None)"

definition insert_idempotency :: "database \<Rightarrow> idem_record \<Rightarrow> database res" where
  "insert_idempotency db r =
     and_then (exec_insert ''sqlite.InsertIdempotency'' (idem_violation db r) r (idempotency_keys db))
       (\<lambda>rows. Inr (db\<lparr>idempotency_keys := rows\<rparr>))"

definition idempotency_by_scope :: "database \<Rightarrow> string \<Rightarrow> string \<Rightarrow> string \<Rightarrow> string \<Rightarrow> idem_record res" where
  "idempotency_by_scope db actor http_method path key =
     (case find (\<lambda>r. idem_scope r = (actor, http_method, path, key)) (idempotency_keys db) of
        None \<Rightarrow> Inl (translate ''sqlite.IdempotencyByScope'' err_no_rows)
      | Some r \<Rightarrow> Inr r)"

definition complete_idempotency :: "database \<Rightarrow> idem_record \<Rightarrow> database res" where
  "complete_idempotency db r =
     and_then (expect_one ''sqlite.CompleteIdempotency''
         (exec_update (\<lambda>q. i_id q = i_id r \<and> i_state q = Started)
           (\<lambda>q. q\<lparr>i_response_status := i_response_status r, i_response_body := i_response_body r,
                  i_state := i_state r, i_updated_at := i_updated_at r\<rparr>)
           (\<lambda>_. None) (idempotency_keys db)))
       (\<lambda>rows. Inr (db\<lparr>idempotency_keys := rows\<rparr>))"

definition delete_expired_idempotency :: "database \<Rightarrow> time \<Rightarrow> (database \<times> i64) res" where
  "delete_expired_idempotency db now =
     (let expired = (\<lambda>r. encode_time (i_expires_at r) \<le> encode_time now) in
      Inr (db\<lparr>idempotency_keys := filter (\<lambda>r. \<not> expired r) (idempotency_keys db)\<rparr>,
        int (count_where expired (idempotency_keys db))))"


section \<open>What the statements keep\<close>

definition stored_event :: "event \<Rightarrow> event" where
  "stored_event e = e\<lparr>ev_actor_id := nullable_string (ev_actor_id e)\<rparr>"

lemma insert_audit_Inr: "insert_audit e db = Inr db' \<longleftrightarrow>
    event_violation db e = None \<and> db' = db\<lparr>audit_events := audit_events db @ [stored_event e]\<rparr>"
  by (auto simp: insert_audit_def stored_event_def)

lemma insert_audit_keys: "keys_ok db \<Longrightarrow> insert_audit e db = Inr db' \<Longrightarrow> keys_ok db'"
  by (auto simp: insert_audit_Inr event_violation_def keys_ok_def list_ex_iff stored_event_def split: if_splits)

lemma insert_snapshot_Inr: "insert_snapshot s db = Inr db' \<longleftrightarrow>
    snapshot_violation db s = None \<and> db' = db\<lparr>snapshots := snapshots db @ [s]\<rparr>"
  by (auto simp: insert_snapshot_def)

lemma insert_snapshot_keys: "keys_ok db \<Longrightarrow> insert_snapshot s db = Inr db' \<Longrightarrow> keys_ok db'"
  by (auto simp: insert_snapshot_Inr snapshot_violation_def keys_ok_def list_ex_iff split: if_splits)

lemma advance_frame [simp]: "c_id (advance s soc c) = c_id c" "c_code (advance s soc c) = c_code c"
  "c_site_id (advance s soc c) = c_site_id c" "c_status (advance s soc c) = c_status c"
  "c_version (advance s soc c) = incr64 (c_version c)" "c_sequence (advance s soc c) = t_sequence s"
  "c_soc (advance s soc c) = soc" "c_rated_kw (advance s soc c) = c_rated_kw c"
  by (simp_all add: advance_def)

lemma advance_telemetry_Inr:
  assumes "keys_ok db"
  shows "advance_telemetry s soc e db = Inr db' \<longleftrightarrow> (\<exists>c. find_key c_id (t_cluster_id s) (clusters db) = Some c
    \<and> c_version c = e \<and> c_sequence c < t_sequence s \<and> cluster_check (advance s soc c)
    \<and> db' = db\<lparr>clusters := update_where (\<lambda>c. c_id c = t_cluster_id s) (advance s soc) (clusters db)\<rparr>)"
proof -
  have dist: "distinct (map c_id (clusters db))" using assms by (simp add: keys_ok_def)
  have "expect_one ''sqlite.advanceTelemetry'' (exec_update
          (\<lambda>c. c_id c = t_cluster_id s \<and> c_version c = e \<and> c_sequence c < t_sequence s)
          (advance s soc) cluster_row_violation (clusters db)) = Inr rows' \<longleftrightarrow>
      (\<exists>c. find_key c_id (t_cluster_id s) (clusters db) = Some c
        \<and> (c_id c = t_cluster_id s \<and> c_version c = e \<and> c_sequence c < t_sequence s)
        \<and> cluster_row_violation (advance s soc c) = None
        \<and> rows' = update_where (\<lambda>c. c_id c = t_cluster_id s) (advance s soc) (clusters db))" for rows'
    by (rule expect_one_key [OF dist]) simp
  moreover have "cluster_row_violation c = None \<longleftrightarrow> cluster_check c" for c
    by (simp add: cluster_row_violation_def)
  ultimately show ?thesis
    unfolding advance_telemetry_def and_then_Inr by (auto dest: find_key_SomeD)
qed

lemma advance_telemetry_keys: "keys_ok db \<Longrightarrow> advance_telemetry s soc e db = Inr db' \<Longrightarrow> keys_ok db'"
  by (auto simp: advance_telemetry_Inr intro!: keys_ok_clusters map_update_where)

lemma keys_ok_alarms: "distinct (map a_id rows) \<Longrightarrow>
    distinct (map a_fingerprint (filter (\<lambda>a. a_status a \<noteq> AlarmResolved) rows)) \<Longrightarrow>
    keys_ok db \<Longrightarrow> keys_ok (db\<lparr>alarms := rows\<rparr>)"
  by (simp add: keys_ok_def)

lemma insert_alarm_frame: "insert_alarm a db = Inr db' \<Longrightarrow> \<exists>rows. db' = db\<lparr>alarms := rows\<rparr> \<and> set (alarms db) \<subseteq> set rows"
  by (auto simp: insert_alarm_def split: if_splits intro: exI [of _ "alarms db"])

lemma insert_alarm_keys: "keys_ok db \<Longrightarrow> insert_alarm a db = Inr db' \<Longrightarrow> keys_ok db'"
proof -
  assume k: "keys_ok db" and ins: "insert_alarm a db = Inr db'"
  have new: "a_id a \<notin> a_id ` set (alarms db)"
      "a_status a \<noteq> AlarmResolved \<longrightarrow> a_fingerprint a \<notin> a_fingerprint ` set (filter (\<lambda>a. a_status a \<noteq> AlarmResolved) (alarms db))"
    if "\<not> alarm_taken db a" using that by (auto simp: alarm_taken_def list_ex_iff)
  from k have "distinct (map a_id (alarms db))"
    "distinct (map a_fingerprint (filter (\<lambda>a. a_status a \<noteq> AlarmResolved) (alarms db)))"
    by (simp_all add: keys_ok_def)
  with ins new k show "keys_ok db'"
    by (cases "alarm_taken db a") (auto simp: insert_alarm_def split: if_splits intro!: keys_ok_alarms)
qed

lemma insert_alarms_frame: "fold_res insert_alarm as db = Inr db' \<Longrightarrow> \<exists>rows. db' = db\<lparr>alarms := rows\<rparr>"
proof (induction as arbitrary: db)
  case Nil
  then show ?case by (auto intro: exI [of _ "alarms db"])
next
  case (Cons a as)
  then obtain db1 where "insert_alarm a db = Inr db1" "fold_res insert_alarm as db1 = Inr db'" by auto
  with insert_alarm_frame [of a db db1] Cons.IH [of db1] show ?case by auto
qed

lemma insert_alarms_keys: "keys_ok db \<Longrightarrow> fold_res insert_alarm as db = Inr db' \<Longrightarrow> keys_ok db'"
  by (rule fold_res_inv [where I = keys_ok]) (auto intro: insert_alarm_keys)

lemma assign_alarm_frame [simp]: "a_id (assign_alarm a old) = a_id old" "a_version (assign_alarm a old) = a_version a"
  "a_fingerprint (assign_alarm a old) = a_fingerprint old" "a_status (assign_alarm a old) = a_status a"
  by (simp_all add: assign_alarm_def)

lemma update_alarm_row_Inr:
  assumes "keys_ok db"
  shows "update_alarm_row a e db = Inr db' \<longleftrightarrow> (\<exists>old. find_key a_id (a_id a) (alarms db) = Some old
    \<and> a_version old = e \<and> alarm_row_violation db (assign_alarm a old) = None
    \<and> db' = db\<lparr>alarms := update_where (\<lambda>r. a_id r = a_id a) (assign_alarm a) (alarms db)\<rparr>)"
proof -
  have "distinct (map a_id (alarms db))" using assms by (simp add: keys_ok_def)
  then show ?thesis by (auto simp: update_alarm_row_def cas_rows_Inr)
qed

text \<open>Replacing a row keeps a partial unique index when the new row collides with no other one.\<close>

lemma distinct_partial_update:
  assumes "distinct (map key rows)" "distinct (map g (filter act rows))"
    and "\<And>x. key (f x) = key x"
    and "\<And>x y. x \<in> set rows \<Longrightarrow> key x = k \<Longrightarrow> act (f x) \<Longrightarrow> y \<in> set rows \<Longrightarrow> key y \<noteq> k \<Longrightarrow> act y \<Longrightarrow> g y \<noteq> g (f x)"
  shows "distinct (map g (filter act (update_where (\<lambda>x. key x = k) f rows)))"
  using assms(1,2,4)
proof (induction rows)
  case (Cons x xs)
  let ?u = "update_where (\<lambda>x. key x = k) f"
  have IH: "distinct (map g (filter act (?u xs)))"
    using Cons.prems by (intro Cons.IH) (auto split: if_splits)
  show ?case
  proof (cases "key x = k")
    case True
    then have others: "\<forall>y \<in> set xs. key y \<noteq> k" using Cons.prems(1) by (auto simp: image_iff)
    then have u: "?u xs = xs" by (auto simp: update_where_def intro!: map_idI)
    have "g (f x) \<notin> g ` set (filter act xs)" if "act (f x)"
      using Cons.prems(3) [of x] True that others by force
    moreover have "distinct (map g (filter act xs))" using Cons.prems(2) by (auto split: if_splits)
    ultimately show ?thesis using True u by simp
  next
    case False
    have "g x \<notin> g ` set (filter act (?u xs))" if "act x"
    proof
      assume "g x \<in> g ` set (filter act (?u xs))"
      then obtain y where y: "y \<in> set xs" "act (if key y = k then f y else y)"
        "g x = g (if key y = k then f y else y)" by (auto simp: set_update_where)
      show False
      proof (cases "key y = k")
        case True
        with Cons.prems(3) [of y x] y False that show False by auto
      next
        case False
        with y Cons.prems(2) that show False by (auto simp: image_iff)
      qed
    qed
    with False IH show ?thesis by simp
  qed
qed simp

lemma update_alarm_row_keys:
  assumes "keys_ok db" "update_alarm_row a e db = Inr db'"
  shows "keys_ok db'"
proof -
  from assms obtain old where old: "find_key a_id (a_id a) (alarms db) = Some old"
      "alarm_row_violation db (assign_alarm a old) = None"
    and db': "db' = db\<lparr>alarms := update_where (\<lambda>r. a_id r = a_id a) (assign_alarm a) (alarms db)\<rparr>"
    by (auto simp: update_alarm_row_Inr)
  have dist: "distinct (map a_id (alarms db))"
    "distinct (map a_fingerprint (filter (\<lambda>a. a_status a \<noteq> AlarmResolved) (alarms db)))"
    using assms(1) by (simp_all add: keys_ok_def)
  have old_in: "old \<in> set (alarms db)" "a_id old = a_id a" using find_key_SomeD [OF old(1)] by auto
  show ?thesis unfolding db'
  proof (rule keys_ok_alarms [OF _ _ assms(1)])
    show "distinct (map a_id (update_where (\<lambda>r. a_id r = a_id a) (assign_alarm a) (alarms db)))"
      using dist(1) by (simp add: map_update_where)
    show "distinct (map a_fingerprint (filter (\<lambda>a. a_status a \<noteq> AlarmResolved)
        (update_where (\<lambda>r. a_id r = a_id a) (assign_alarm a) (alarms db))))"
    proof (rule distinct_partial_update [OF dist])
      fix x y
      assume x: "x \<in> set (alarms db)" "a_id x = a_id a" "a_status (assign_alarm a x) \<noteq> AlarmResolved"
        and y: "y \<in> set (alarms db)" "a_id y \<noteq> a_id a" "a_status y \<noteq> AlarmResolved"
      have "x = old" using row_unique [OF dist(1) x(1) old_in(1)] x(2) old_in(2) by simp
      with old(2) x y old_in show "a_fingerprint y \<noteq> a_fingerprint (assign_alarm a x)"
        by (auto simp: alarm_row_violation_def list_ex_iff split: if_splits)
    qed simp
  qed
qed

lemma assign_period_frame [simp]: "pd_id (assign_period p old) = pd_id old"
  "pd_version (assign_period p old) = pd_version p" "period_key (assign_period p old) = period_key old"
  by (simp_all add: assign_period_def period_key_def)

lemma update_period_row_Inr:
  assumes "keys_ok db"
  shows "update_period_row p e db = Inr db' \<longleftrightarrow> (\<exists>old. find_key pd_id (pd_id p) (periods db) = Some old
    \<and> pd_version old = e \<and> period_row_violation db (assign_period p old) = None
    \<and> db' = db\<lparr>periods := update_where (\<lambda>r. pd_id r = pd_id p) (assign_period p) (periods db)\<rparr>)"
proof -
  have "distinct (map pd_id (periods db))" using assms by (simp add: keys_ok_def)
  then show ?thesis by (auto simp: update_period_row_def cas_rows_Inr)
qed

lemma keys_ok_periods: "map pd_id rows = map pd_id (periods db) \<Longrightarrow> map period_key rows = map period_key (periods db) \<Longrightarrow>
    keys_ok db \<Longrightarrow> keys_ok (db\<lparr>periods := rows\<rparr>)"
  by (simp add: keys_ok_def)

lemma update_period_row_keys: "keys_ok db \<Longrightarrow> update_period_row p e db = Inr db' \<Longrightarrow> keys_ok db'"
  by (auto simp: update_period_row_Inr intro!: keys_ok_periods map_update_where)

lemma insert_period_Inr: "insert_period db p = Inr db' \<longleftrightarrow> period_violation db p = None
    \<and> db' = db\<lparr>periods := periods db @ [p\<lparr>pd_closed_by := nullable_string (pd_closed_by p)\<rparr>]\<rparr>"
  by (auto simp: insert_period_def)

lemma insert_period_keys: "keys_ok db \<Longrightarrow> insert_period db p = Inr db' \<Longrightarrow> keys_ok db'"
  by (auto simp: insert_period_Inr period_violation_def keys_ok_def list_ex_iff period_key_def split: if_splits)

lemma insert_entry_keys: "keys_ok db \<Longrightarrow> insert_entry e db = Inr db' \<Longrightarrow> keys_ok db'"
  by (force simp: insert_entry_def keys_ok_def list_ex_iff split: if_splits)

lemma insert_entries_keys: "keys_ok db \<Longrightarrow> fold_res insert_entry es db = Inr db' \<Longrightarrow> keys_ok db'"
  by (rule fold_res_inv [where I = keys_ok]) (auto intro: insert_entry_keys)

lemma insert_entries_frame: "fold_res insert_entry es db = Inr db' \<Longrightarrow> \<exists>rows. db' = db\<lparr>entries := rows\<rparr>"
proof (induction es arbitrary: db)
  case Nil
  then show ?case by (auto intro: exI [of _ "entries db"])
next
  case (Cons e es)
  then obtain db1 where db1: "insert_entry e db = Inr db1" "fold_res insert_entry es db1 = Inr db'" by auto
  then have "\<exists>rows. db1 = db\<lparr>entries := rows\<rparr>"
    by (auto simp: insert_entry_def split: if_splits intro: exI [of _ "entries db"])
  with Cons.IH [OF db1(2)] show ?case by auto
qed

interpretation alarm_store: versioned_store keys_ok "\<lambda>db k. find_key a_id k (alarms db)"
    "\<lambda>db a e. accepted (update_alarm_row a e db)" a_id a_version
  by (rule cas_versioned_store [where assign = assign_alarm and rows = alarms and update = "\<lambda>db a e. update_alarm_row a e db"])
    (erule (1) update_alarm_row_keys, auto simp: update_alarm_row_Inr)

interpretation period_store: versioned_store keys_ok "\<lambda>db k. find_key pd_id k (periods db)"
    "\<lambda>db p e. accepted (update_period_row p e db)" pd_id pd_version
  by (rule cas_versioned_store [where assign = assign_period and rows = periods and update = "\<lambda>db p e. update_period_row p e db"])
    (erule (1) update_period_row_keys, auto simp: update_period_row_Inr)

section \<open>The effect of storing telemetry\<close>

lemma store_telemetry_body_Inr:
  assumes "keys_ok db" "store_telemetry_body s soc v as e db = Inr db'"
  shows "keys_ok db'"
    "snapshot_violation db s = None"
    "\<exists>c. find_key c_id (t_cluster_id s) (clusters db) = Some c \<and> c_version c = v \<and> c_sequence c < t_sequence s"
    "\<exists>rows. db' = db\<lparr>snapshots := snapshots db @ [s],
       clusters := update_where (\<lambda>c. c_id c = t_cluster_id s) (advance s soc) (clusters db),
       alarms := rows, audit_events := audit_events db @ [stored_event e]\<rparr>"
proof -
  from assms(2) obtain db1 db2 db3 where
    s1: "insert_snapshot s db = Inr db1" and s2: "advance_telemetry s soc v db1 = Inr db2"
    and s3: "fold_res insert_alarm as db2 = Inr db3" and s4: "insert_audit e db3 = Inr db'"
    by (auto simp: store_telemetry_body_def)
  have k1: "keys_ok db1" using insert_snapshot_keys [OF assms(1) s1] .
  have k2: "keys_ok db2" using advance_telemetry_keys [OF k1 s2] .
  have k3: "keys_ok db3" using insert_alarms_keys [OF k2 s3] .
  show "keys_ok db'" using insert_audit_keys [OF k3 s4] .
  have db1: "db1 = db\<lparr>snapshots := snapshots db @ [s]\<rparr>" and sv: "snapshot_violation db s = None"
    using s1 by (auto simp: insert_snapshot_Inr)
  show "snapshot_violation db s = None" by (rule sv)
  from s2 obtain c where c: "find_key c_id (t_cluster_id s) (clusters db1) = Some c" "c_version c = v" "c_sequence c < t_sequence s"
    and db2: "db2 = db1\<lparr>clusters := update_where (\<lambda>c. c_id c = t_cluster_id s) (advance s soc) (clusters db1)\<rparr>"
    by (auto simp: advance_telemetry_Inr [OF k1])
  from c show "\<exists>c. find_key c_id (t_cluster_id s) (clusters db) = Some c \<and> c_version c = v \<and> c_sequence c < t_sequence s"
    by (simp add: db1)
  from insert_alarms_frame [OF s3] obtain rows where db3: "db3 = db2\<lparr>alarms := rows\<rparr>" by blast
  show "\<exists>rows. db' = db\<lparr>snapshots := snapshots db @ [s],
       clusters := update_where (\<lambda>c. c_id c = t_cluster_id s) (advance s soc) (clusters db),
       alarms := rows, audit_events := audit_events db @ [stored_event e]\<rparr>"
    using s4 by (auto simp: insert_audit_Inr db3 db2 db1)
qed

text \<open>A reading that was stored is never stored again: its sequence is taken.\<close>

lemma telemetry_repeat_refused:
  assumes "keys_ok db" "store_telemetry_body s soc v as e db = Inr db'"
    and "t_cluster_id s' = t_cluster_id s" "t_sequence s' = t_sequence s"
    and "0 \<le> t_soc s'" "t_soc s' \<le> 100"
  shows "store_telemetry_body s' soc' v' as' e' db' =
    Inl (translate ''sqlite.insertTelemetry'' (violation_error UniqueViolation))"
proof -
  from store_telemetry_body_Inr(4) [OF assms(1,2)] have "s \<in> set (snapshots db')" by auto
  then have "snapshot_violation db' s' = Some UniqueViolation"
    using assms(3-6) by (auto simp: snapshot_violation_def list_ex_iff)
  then show ?thesis by (simp add: store_telemetry_body_def insert_snapshot_def exec_insert_def)
qed

section \<open>Pages of the audit log\<close>

text \<open>
  Rows in strictly descending order: those below the last row of a page are the rest of the list,
  so following the cursors visits every row once.
\<close>

lemma sorted_wrt_rest:
  assumes "sorted_wrt (\<lambda>x y. (key y :: 'k :: linorder) < key x) xs" "0 < n" "n \<le> length xs"
  shows "filter (\<lambda>x. key x < key (xs ! (n - 1))) xs = drop n xs"
  using assms
proof (induction xs arbitrary: n)
  case (Cons x xs)
  show ?case
  proof (cases "n = 1")
    case True
    with Cons.prems show ?thesis by (simp add: filter_id_conv)
  next
    case False
    then obtain m where m: "n = Suc m" "0 < m" "m \<le> length xs" using Cons.prems by (cases n) auto
    then have "xs ! (m - 1) \<in> set xs" by simp
    then have "key (xs ! (m - 1)) < key x" using Cons.prems(1) by auto
    then have "\<not> key x < key ((x # xs) ! (n - 1))" using m by (simp add: nth_Cons')
    moreover have "(x # xs) ! (n - 1) = xs ! (m - 1)" using m by (simp add: nth_Cons')
    ultimately show ?thesis using Cons.IH [OF _ m(2,3)] Cons.prems(1) m(1) by simp
  qed
qed simp

lemma latest_text_first_strict:
  assumes "distinct (map ev_id es)"
  shows "sorted_wrt (\<lambda>x y. event_key y < event_key x) (latest_text_first es)"
proof -
  have inj: "inj_on event_key (set es)"
    using assms by (auto simp: distinct_map inj_on_def event_key_def)
  have "distinct (map event_key (sort_key event_key es))"
    using assms inj by (simp add: distinct_map)
  then have "sorted_wrt (<) (map event_key (sort_key event_key es))"
    using sorted_sort_key [of event_key es] by (simp only: strict_sorted_iff)
  then show ?thesis
    by (simp add: latest_text_first_def sorted_wrt_rev sorted_wrt_map)
qed

lemma latest_text_first_filter: "latest_text_first (filter P es) = filter P (latest_text_first es)"
  by (simp add: latest_text_first_def filter_sort flip: rev_filter)

definition with_cursor :: "audit_filter \<Rightarrow> cursor \<Rightarrow> audit_filter" where
  "with_cursor f c = f\<lparr>auf_cursor := Some c\<rparr>"

lemma cursor_page_rest:
  assumes ids: "distinct (map ev_id (audit_events db))"
    and cur: "auf_cursor f = None"
    and n: "0 < n" "n \<le> length rows" and rows: "rows = latest_text_first (filter (event_matches f) (audit_events db))"
    and c: "c = \<lparr>cu_occurred_at = ev_occurred_at (rows ! (n - 1)), cu_id = ev_id (rows ! (n - 1))\<rparr>"
  shows "latest_text_first (filter (event_matches (with_cursor f c)) (audit_events db)) = drop n rows"
proof -
  have "event_matches (with_cursor f c) e \<longleftrightarrow> event_matches f e \<and> event_key e < event_key (rows ! (n - 1))" for e
    using cur by (auto simp: event_matches_def with_cursor_def event_key_def c)
  then have "filter (event_matches (with_cursor f c)) (audit_events db)
      = filter (\<lambda>e. event_key e < event_key (rows ! (n - 1))) (filter (event_matches f) (audit_events db))"
    unfolding filter_filter by (intro filter_cong) auto
  then have "latest_text_first (filter (event_matches (with_cursor f c)) (audit_events db))
      = filter (\<lambda>e. event_key e < event_key (rows ! (n - 1))) rows"
    by (simp only: latest_text_first_filter rows)
  also have "\<dots> = drop n rows"
    by (rule sorted_wrt_rest [OF _ n]) (use ids in \<open>simp add: rows latest_text_first_strict distinct_map_filter\<close>)
  finally show ?thesis .
qed

section \<open>Idempotency keys\<close>

lemma insert_idempotency_Inr: "insert_idempotency db r = Inr db' \<longleftrightarrow>
    idem_violation db r = None \<and> db' = db\<lparr>idempotency_keys := idempotency_keys db @ [r]\<rparr>"
  by (auto simp: insert_idempotency_def)

lemma insert_idempotency_keys: "keys_ok db \<Longrightarrow> insert_idempotency db r = Inr db' \<Longrightarrow> keys_ok db'"
  by (auto simp: insert_idempotency_Inr idem_violation_def keys_ok_def list_ex_iff idem_scope_def split: if_splits)

lemma complete_idempotency_Inr:
  assumes "keys_ok db"
  shows "complete_idempotency db r = Inr db' \<longleftrightarrow> (\<exists>q. find_key i_id (i_id r) (idempotency_keys db) = Some q
    \<and> i_state q = Started
    \<and> db' = db\<lparr>idempotency_keys := update_where (\<lambda>q. i_id q = i_id r)
        (\<lambda>q. q\<lparr>i_response_status := i_response_status r, i_response_body := i_response_body r,
               i_state := i_state r, i_updated_at := i_updated_at r\<rparr>) (idempotency_keys db)\<rparr>)"
proof -
  let ?f = "\<lambda>q. q\<lparr>i_response_status := i_response_status r, i_response_body := i_response_body r,
               i_state := i_state r, i_updated_at := i_updated_at r\<rparr>"
  have dist: "distinct (map i_id (idempotency_keys db))" using assms by (simp add: keys_ok_def)
  have "expect_one ''sqlite.CompleteIdempotency'' (exec_update (\<lambda>q. i_id q = i_id r \<and> i_state q = Started) ?f
          (\<lambda>_. None) (idempotency_keys db)) = Inr rows' \<longleftrightarrow>
      (\<exists>q. find_key i_id (i_id r) (idempotency_keys db) = Some q \<and> (i_id q = i_id r \<and> i_state q = Started)
        \<and> None = (None :: violation option)
        \<and> rows' = update_where (\<lambda>q. i_id q = i_id r) ?f (idempotency_keys db))" for rows'
    by (rule expect_one_key [OF dist]) simp
  then show ?thesis unfolding complete_idempotency_def and_then_Inr by (auto dest: find_key_SomeD)
qed

text \<open>The stored response of a key is written once.\<close>

lemma complete_idempotency_once:
  assumes "keys_ok db" "complete_idempotency db r = Inr db'" "i_state r = Completed" "i_id r' = i_id r" "keys_ok db'"
  shows "\<exists>e. complete_idempotency db' r' = Inl e"
proof (cases "complete_idempotency db' r'")
  case (Inl e)
  then show ?thesis by blast
next
  case (Inr db'')
  from assms(2) obtain q where q: "find_key i_id (i_id r) (idempotency_keys db) = Some q"
    and db': "db' = db\<lparr>idempotency_keys := update_where (\<lambda>q. i_id q = i_id r)
        (\<lambda>q. q\<lparr>i_response_status := i_response_status r, i_response_body := i_response_body r,
               i_state := i_state r, i_updated_at := i_updated_at r\<rparr>) (idempotency_keys db)\<rparr>"
    by (auto simp: complete_idempotency_Inr [OF assms(1)])
  from Inr obtain q' where "find_key i_id (i_id r') (idempotency_keys db') = Some q'" "i_state q' = Started"
    by (auto simp: complete_idempotency_Inr [OF assms(5)])
  then have False
    using find_key_SomeD [OF q] assms(3,4) by (auto simp: db' find_key_update_where q)
  then show ?thesis ..
qed

end
