(* ===== verification/StatementLaws.thy ===== *)
theory StatementLaws
  imports StoreIdentity StoreOperations
begin

text \<open>
  The contract between the statements and the calls: what every statement keeps of the database, the
  transactions and in later theories the calls and the requests keep.  \<open>statement_frame\<close> leaves out the
  statements of the idempotency records, \<open>statement_kept\<close> has all statements, and \<open>statement_laws\<close> starts
  at the empty database.  Here they are interpreted for the keys (\<open>key_laws\<close>), for the rows that are never
  deleted (\<open>row_keeping\<close>) and for the idempotency records (\<open>idempotency_frame\<close>); \<open>Integrity\<close> interprets them
  for the references between rows.
\<close>

section \<open>What every statement keeps\<close>

locale statement_frame =
  fixes ok :: "database \<Rightarrow> bool"
  assumes user: "ok db \<Longrightarrow> insert_user db u = Inr db' \<Longrightarrow> ok db'"
    and session: "ok db \<Longrightarrow> insert_session db x = Inr db' \<Longrightarrow> ok db'"
    and touch: "ok db \<Longrightarrow> touch_session db sid at = Inr db' \<Longrightarrow> ok db'"
    and revoke: "ok db \<Longrightarrow> revoke_session db sid at = Inr db' \<Longrightarrow> ok db'"
    and clean: "ok db \<Longrightarrow> delete_expired_sessions db at = Inr (db', n) \<Longrightarrow> ok db'"
    and event: "ok db \<Longrightarrow> insert_audit e db = Inr db' \<Longrightarrow> ok db'"
    and site: "ok db \<Longrightarrow> insert_site db s = Inr db' \<Longrightarrow> ok db'"
    and site_update: "ok db \<Longrightarrow> update_site db s v = Inr db' \<Longrightarrow> ok db'"
    and capacity: "ok db \<Longrightarrow> reserve_capacity op db sid kw v at = Inr db' \<Longrightarrow> ok db'"
    and cluster: "ok db \<Longrightarrow> insert_cluster db c = Inr db' \<Longrightarrow> ok db'"
    and cluster_held: "ok db \<Longrightarrow> reserve_cluster_row at cid db = Inr db' \<Longrightarrow> ok db'"
    and cluster_measured: "ok db \<Longrightarrow> advance_telemetry t soc v db = Inr db' \<Longrightarrow> ok db'"
    and plan: "ok db \<Longrightarrow> insert_plan db p = Inr db' \<Longrightarrow> ok db'"
    and plan_update: "ok db \<Longrightarrow> update_plan db p v = Inr db' \<Longrightarrow> ok db'"
    and plan_status: "ok db \<Longrightarrow> update_plan_status op p v db = Inr db' \<Longrightarrow> ok db'"
    and reservation: "ok db \<Longrightarrow> insert_reservation db r = Inr db' \<Longrightarrow> ok db'"
    and job: "ok db \<Longrightarrow> insert_job j db = Inr db' \<Longrightarrow> ok db'"
    and job_claim: "ok db \<Longrightarrow>
      cas_rows j_id j_version assign_lease job_row_violation ''sqlite.claimJob'' (jobs db) j v = Inr js \<Longrightarrow> ok (db\<lparr>jobs := js\<rparr>)"
    and job_report: "ok db \<Longrightarrow> complete_job db j v = Inr db' \<Longrightarrow> ok db'"
    and snapshot: "ok db \<Longrightarrow> insert_snapshot t db = Inr db' \<Longrightarrow> ok db'"
    and alarm: "ok db \<Longrightarrow> insert_alarm a db = Inr db' \<Longrightarrow> ok db'"
    and alarm_update: "ok db \<Longrightarrow> update_alarm_row a v db = Inr db' \<Longrightarrow> ok db'"
    and period: "ok db \<Longrightarrow> insert_period db pd = Inr db' \<Longrightarrow> ok db'"
    and period_update: "ok db \<Longrightarrow> update_period_row pd v db = Inr db' \<Longrightarrow> ok db'"
    and entry: "ok db \<Longrightarrow> insert_entry en db = Inr db' \<Longrightarrow> ok db'"
begin

text \<open>The transactions.\<close>

lemma submitted:
  assumes "ok db" "submit_body p v rs sid kw sv (audit_inserter e) db = Inr db'"
  shows "ok db'"
proof -
  obtain d1 d2 d3 where d: "reserve_capacity ''sqlite.reserveSite'' db sid kw sv (p_updated_at p) = Inr d1"
    "fold_res (hold_cluster (p_updated_at p)) rs d1 = Inr d2" "update_plan_status ''sqlite.submitPlan'' p v d2 = Inr d3"
    "insert_audit e d3 = Inr db'"
    using assms(2) by (auto simp: submit_body_def audit_inserter_def split: option.splits)
  have "ok y" if "hold_cluster t r x = Inr y" "ok x" for t r x y
    using that by (auto simp: hold_cluster_def dest: reservation cluster_held)
  then have "ok d2" using fold_res_inv [OF d(2), of ok] capacity [OF assms(1) d(1)] by blast
  then show ?thesis using event [OF plan_status [OF _ d(3)] d(4)] by blast
qed

lemma dispatched:
  assumes "ok db" "dispatch_body p v js (audit_inserter e) db = Inr db'"
  shows "ok db'"
proof -
  obtain d1 d2 where d: "fold_res insert_job js db = Inr d1" "update_plan_status ''sqlite.dispatchPlan'' p v d1 = Inr d2"
    "insert_audit e d2 = Inr db'"
    using assms(2) by (auto simp: dispatch_body_def audit_inserter_def)
  have "ok d1" using fold_res_inv [OF d(1), of ok] assms(1) job by blast
  then show ?thesis using event [OF plan_status [OF _ d(2)] d(3)] by blast
qed

lemma telemetry_stored:
  assumes "ok db" "store_telemetry_atomic tx db t soc v as e = Inr db'"
  shows "ok db'"
proof -
  obtain d1 d2 d3 where d: "insert_snapshot t db = Inr d1" "advance_telemetry t soc v d1 = Inr d2"
    "fold_res insert_alarm as d2 = Inr d3" "insert_audit e d3 = Inr db'"
    using assms(2) by (auto simp: store_telemetry_atomic_def store_telemetry_body_def)
  have "ok d2" by (rule cluster_measured [OF snapshot [OF assms(1) d(1)] d(2)])
  then have "ok d3" using fold_res_inv [OF d(3), of ok] alarm by blast
  then show ?thesis using event d(4) by blast
qed

lemma alarm_stored: "ok db \<Longrightarrow> update_alarm tx db a v e = Inr db' \<Longrightarrow> ok db'"
  by (auto simp: update_alarm_def dest: alarm_update event)

lemma entries_stored:
  assumes "ok db" "insert_entries_atomic tx db pd v es e = Inr db'"
  shows "ok db'"
proof -
  obtain d1 d2 where d: "fold_res insert_entry es db = Inr d1" "update_period_row pd v d1 = Inr d2" "insert_audit e d2 = Inr db'"
    using assms(2) by (auto simp: insert_entries_atomic_def)
  have "ok d1" using fold_res_inv [OF d(1), of ok] assms(1) entry by blast
  then show ?thesis using event [OF period_update [OF _ d(2)] d(3)] by blast
qed

lemma claimed: "ok db \<Longrightarrow> claim_jobs tx refused db owner limit at d = Inr (db', js) \<Longrightarrow> ok db'"
proof -
  have one: "ok (fst (claim_one refused owner at d j s))" if "ok (fst s)" for j s
    using that job_claim [of "fst s"] by (cases s) (auto simp: claim_one_def split: sum.splits)
  have "ok (fst (fold (claim_one refused owner at d) js s))" if "ok (fst s)" for js s
    using that by (induction js arbitrary: s) (simp_all add: one)
  then show "ok db \<Longrightarrow> claim_jobs tx refused db owner limit at d = Inr (db', js) \<Longrightarrow> ok db'"
    by (auto simp: claim_jobs_def) (metis fst_conv)
qed

end

text \<open>The statements of the idempotency records as well, and the empty database of the first start.\<close>

locale statement_kept = statement_frame +
  assumes idempotency: "ok db \<Longrightarrow> insert_idempotency db i = Inr db' \<Longrightarrow> ok db'"
    and idempotency_done: "ok db \<Longrightarrow> complete_idempotency db i = Inr db' \<Longrightarrow> ok db'"
    and idempotency_clean: "ok db \<Longrightarrow> delete_expired_idempotency db at = Inr (db', n) \<Longrightarrow> ok db'"

locale statement_laws = statement_kept +
  assumes start: "ok empty_database"

section \<open>The keys\<close>

lemma delete_expired_idempotency_keys: "keys_ok db \<Longrightarrow> delete_expired_idempotency db now = Inr (db', n) \<Longrightarrow> keys_ok db'"
  by (auto simp: delete_expired_idempotency_def keys_ok_def Let_def distinct_map_filter)

lemma complete_idempotency_keys: "keys_ok db \<Longrightarrow> complete_idempotency db r = Inr db' \<Longrightarrow> keys_ok db'"
  by (auto simp: complete_idempotency_Inr keys_ok_def map_update_where)

interpretation key_laws: statement_laws keys_ok
proof (unfold_locales, goal_cases)
  case (18 db j v js)
  then show ?case by (auto simp: cas_rows_def expect_one_Inr assign_lease_def intro!: keys_ok_jobs map_update_where)
qed (rule keys_ok_empty
  | (erule (1) insert_user_keys insert_session_keys touch_session_keys revoke_session_keys delete_expired_sessions_keys
      insert_audit_keys insert_site_keys update_site_keys reserve_capacity_keys insert_cluster_keys reserve_cluster_row_keys
      advance_telemetry_keys insert_plan_keys update_plan_keys update_plan_status_keys insert_reservation_keys insert_job_keys
      complete_job_keys insert_snapshot_keys insert_alarm_keys update_alarm_row_keys insert_period_keys update_period_row_keys
      insert_entry_keys insert_idempotency_keys complete_idempotency_keys delete_expired_idempotency_keys))+

section \<open>The rows that stay\<close>

text \<open>
  No statement deletes a user, a snapshot, a reservation, an entry or an event or changes one, and none
  deletes a site, a cluster, a plan, a job, an alarm or a period.
\<close>

definition keeps_rows :: "database \<Rightarrow> database \<Rightarrow> bool" where
  "keeps_rows old db \<longleftrightarrow> set (users old) \<subseteq> set (users db) \<and> set (snapshots old) \<subseteq> set (snapshots db)
     \<and> set (reservations old) \<subseteq> set (reservations db) \<and> set (entries old) \<subseteq> set (entries db)
     \<and> set (audit_events old) \<subseteq> set (audit_events db)
     \<and> s_id ` set (sites old) \<subseteq> s_id ` set (sites db) \<and> c_id ` set (clusters old) \<subseteq> c_id ` set (clusters db)
     \<and> p_id ` set (plans old) \<subseteq> p_id ` set (plans db) \<and> j_id ` set (jobs old) \<subseteq> j_id ` set (jobs db)
     \<and> a_id ` set (alarms old) \<subseteq> a_id ` set (alarms db) \<and> pd_id ` set (periods old) \<subseteq> pd_id ` set (periods db)"

lemma keeps_rows_refl [simp]: "keeps_rows db db"
  by (simp add: keeps_rows_def)

lemma keys_update_where: "(\<And>x. key (f x) = key x) \<Longrightarrow> key ` set (update_where P f xs) = key ` set xs"
  by (metis list.set_map map_update_where)

lemmas statement_shapes = insert_user_Inr insert_session_Inr touch_session_def revoke_session_Inr delete_expired_sessions_def
  insert_audit_Inr insert_site_Inr update_site_def reserve_capacity_def insert_cluster_Inr reserve_cluster_row_def
  advance_telemetry_def insert_plan_Inr update_plan_def update_plan_status_def insert_reservation_Inr insert_job_Inr
  complete_job_def insert_snapshot_Inr insert_alarm_def update_alarm_row_def insert_period_Inr update_period_row_def
  insert_entry_def cas_rows_def expect_one_Inr

lemma keeps_leaf:
  assumes "keeps_rows old db"
  shows "set (users db) \<subseteq> set rows0 \<Longrightarrow> keeps_rows old (db\<lparr>users := rows0\<rparr>)"
    "set (snapshots db) \<subseteq> set rows1 \<Longrightarrow> keeps_rows old (db\<lparr>snapshots := rows1\<rparr>)"
    "set (reservations db) \<subseteq> set rows2 \<Longrightarrow> keeps_rows old (db\<lparr>reservations := rows2\<rparr>)"
    "set (entries db) \<subseteq> set rows3 \<Longrightarrow> keeps_rows old (db\<lparr>entries := rows3\<rparr>)"
    "set (audit_events db) \<subseteq> set rows4 \<Longrightarrow> keeps_rows old (db\<lparr>audit_events := rows4\<rparr>)"
    "s_id ` set (sites db) \<subseteq> s_id ` set rows5 \<Longrightarrow> keeps_rows old (db\<lparr>sites := rows5\<rparr>)"
    "c_id ` set (clusters db) \<subseteq> c_id ` set rows6 \<Longrightarrow> keeps_rows old (db\<lparr>clusters := rows6\<rparr>)"
    "p_id ` set (plans db) \<subseteq> p_id ` set rows7 \<Longrightarrow> keeps_rows old (db\<lparr>plans := rows7\<rparr>)"
    "j_id ` set (jobs db) \<subseteq> j_id ` set rows8 \<Longrightarrow> keeps_rows old (db\<lparr>jobs := rows8\<rparr>)"
    "a_id ` set (alarms db) \<subseteq> a_id ` set rows9 \<Longrightarrow> keeps_rows old (db\<lparr>alarms := rows9\<rparr>)"
    "pd_id ` set (periods db) \<subseteq> pd_id ` set rows10 \<Longrightarrow> keeps_rows old (db\<lparr>periods := rows10\<rparr>)"
    "keeps_rows old (db\<lparr>sessions := rows11\<rparr>)"
    "keeps_rows old (db\<lparr>idempotency_keys := rows12\<rparr>)"
  using assms by (simp_all add: keeps_rows_def) (fast intro: order_trans)+

interpretation row_keeping: statement_kept "keeps_rows old" for old
proof (unfold_locales, goal_cases)
  case (27 db i db')
  then show ?case by (auto simp: complete_idempotency_def expect_one_Inr intro!: keeps_leaf)
next
  case (28 db at db' n)
  then show ?case by (auto simp: delete_expired_idempotency_def Let_def intro!: keeps_leaf)
qed (auto simp: statement_shapes insert_idempotency_Inr keys_update_where
  add_reserved_def assign_site_def assign_plan_def assign_plan_status_def assign_job_def assign_lease_def
  split: if_splits intro!: keeps_leaf)

interpretation idempotency_frame: statement_frame "\<lambda>db. idempotency_keys db = rows" for rows
  by unfold_locales (auto simp: statement_shapes split: if_splits)

end
