(* ===== verification/ServiceAuth.thy ===== *)
theory ServiceAuth
  imports StatementLaws
begin

text \<open>
  \<open>internal/service/auth.go\<close>: login sessions, and what every service shares.

  A call reads the clock and draws identifiers, its statements may be refused by the driver, and
  its transaction may fail: \<open>env\<close> holds these outcomes of one call, indexed by the order in which the
  call asks for them.  A call has two databases, \<open>rd\<close>, which its queries see, and \<open>db\<close>, on which
  its statements work: they are the same when nothing happens in between, and differ when other
  requests were served after the queries.  A call returns the database it leaves and its
  result; an error after a committed statement does not undo the statement.
\<close>

section \<open>One call of a service\<close>

record env =
  en_now :: "nat \<Rightarrow> time"
  en_uuid :: "nat \<Rightarrow> string"
  en_driver :: "string \<Rightarrow> go_error option"
  en_tx :: tx_outcome

definition via :: "env \<Rightarrow> string \<Rightarrow> 'a res \<Rightarrow> 'a res" where
  "via en op r = (case en_driver en op of Some e \<Rightarrow> Inl (translate op e) | None \<Rightarrow> r)"

text \<open>\<open>x, err := r; if err != nil { return err }\<close> inside a call that has reached \<open>db\<close>.\<close>

definition checked :: "'a res \<Rightarrow> database \<Rightarrow> ('a \<Rightarrow> database \<times> 'b res) \<Rightarrow> database \<times> 'b res" where
  "checked r db k = (case r of Inl e \<Rightarrow> (db, Inl e) | Inr x \<Rightarrow> k x)"

lemma checked_simps [simp]: "checked (Inl e) db k = (db, Inl e)" "checked (Inr x) db k = k x"
  by (simp_all add: checked_def)

lemma via_Inr [simp]: "via en op r = Inr x \<longleftrightarrow> en_driver en op = None \<and> r = Inr x"
  by (auto simp: via_def split: option.split)

lemma checked_Inr [simp]: "checked r db k = (db', Inr y) \<longleftrightarrow> (\<exists>x. r = Inr x \<and> k x = (db', Inr y))"
  by (cases r) auto

lemma checked_cases:
  assumes "checked r db k = (db', out)"
  obtains e where "r = Inl e" "db' = db" "out = Inl e" | x where "r = Inr x" "k x = (db', out)"
  using assms by (cases r) auto

text \<open>The rule for what every call keeps: follow the steps and look at the statements.\<close>

lemma checked_keeps: "checked r db k = (db', out) \<Longrightarrow> I db \<Longrightarrow> (\<And>x. r = Inr x \<Longrightarrow> k x = (db', out) \<Longrightarrow> I db') \<Longrightarrow> I db'"
  by (cases r) auto

record principal =
  pr_user :: user
  pr_session :: session

definition principal_require :: "principal \<Rightarrow> permission \<Rightarrow> unit res" where
  "principal_require p permission = user_can (pr_user p) permission"

lemma principal_require_Inr [simp]: "principal_require p q = Inr u \<longleftrightarrow>
    u_active (pr_user p) \<and> role_allows (u_role (pr_user p)) q"
  by (simp add: principal_require_def user_can_Inr)

definition request_id :: "string \<Rightarrow> string" where
  "request_id value = (let value = trim_space value in if value = '''' then ''system'' else value)"

lemma request_id_nonempty: "request_id v \<noteq> ''''"
  by (simp add: request_id_def Let_def)

section \<open>Login sessions\<close>

text \<open>What the code takes from the standard library and from the system's source of randomness.\<close>

record auth_libs =
  li_lower :: "string \<Rightarrow> string"
  li_address :: "string \<Rightarrow> string option"
  li_bcrypt :: "string \<Rightarrow> string res"
  li_bcrypt_matches :: "string \<Rightarrow> string \<Rightarrow> bool"
  li_sha256 :: "string \<Rightarrow> string"
  li_random :: "string res"

record auth_service =
  as_ttl :: duration
  as_touch_interval :: duration

definition new_auth_service :: "duration \<Rightarrow> auth_service" where
  "new_auth_service ttl = \<lparr>as_ttl = ttl, as_touch_interval = 5 * minute\<rparr>"

record user_view =
  uv_id :: string
  uv_email :: string
  uv_display_name :: string
  uv_role :: role
  uv_permissions :: "permission list"

definition view_user :: "user \<Rightarrow> user_view" where
  "view_user u = \<lparr>uv_id = u_id u, uv_email = u_email u, uv_display_name = u_display_name u,
     uv_role = u_role u, uv_permissions = permissions (u_role u)\<rparr>"

record login_input =
  lg_email :: string
  lg_password :: string
  lg_request :: string

record login_result =
  lr_token :: string
  lr_expires_at :: time
  lr_user :: user_view

definition bootstrap :: "env \<Rightarrow> auth_libs \<Rightarrow> database \<Rightarrow> database \<Rightarrow> new_user \<Rightarrow> database \<times> user res" where
  "bootstrap en lib rd db input =
     checked (normalize_email (li_lower lib) (li_address lib) (nu_email input)) db (\<lambda>email.
     case via en ''sqlite.scanUser'' (user_by_email rd email) of
       Inr existing \<Rightarrow> (db, Inr existing)
     | Inl e \<Rightarrow>
       if \<not> is_kind e NotFound then (db, Inl e)
       else
         checked (create_user (li_lower lib) (li_address lib) (li_bcrypt lib) (en_uuid en 0) input (en_now en 0)) db (\<lambda>u.
         checked (via en ''sqlite.InsertUser'' (insert_user db u)) db (\<lambda>db. (db, Inr u))))"

definition invalid_credentials :: go_error where
  "invalid_credentials = new_fault Unauthenticated ''invalid_credentials'' ''email or password is incorrect''"

definition login :: "env \<Rightarrow> auth_libs \<Rightarrow> auth_service \<Rightarrow> database \<Rightarrow> database \<Rightarrow> login_input \<Rightarrow> database \<times> login_result res" where
  "login en lib s rd db input =
     checked (map_error (\<lambda>_. invalid_credentials) (normalize_email (li_lower lib) (li_address lib) (lg_email input))) db (\<lambda>email.
     checked (map_error (\<lambda>_. invalid_credentials) (via en ''sqlite.scanUser'' (user_by_email rd email))) db (\<lambda>u.
     checked (verify_password (li_bcrypt_matches lib) u (lg_password input)) db (\<lambda>_.
     checked (issue_session (li_sha256 lib) (li_random lib) (en_uuid en 0) (u_id u) (en_now en 0) (as_ttl s)) db (\<lambda>issued.
     let opened = is_session issued in
     checked (via en ''sqlite.InsertSession'' (insert_session db opened)) db (\<lambda>db.
     let event = event_or_zero (new_event (en_uuid en 1) (u_id u) (request_id (lg_request input)) ''session''
           (ss_id opened) ''login'' ''success''
           (json_object [(''expires_at'', json_string (encode_time (ss_expires_at opened)))]) (en_now en 1)) in
     checked (map_error (wrap_fault Internal ''audit_failed'' ''login could not be completed'' ''service.Auth.Login'')
       (via en ''sqlite.insertAudit'' (insert_audit event db))) db (\<lambda>db.
     (db, Inr \<lparr>lr_token = is_token issued, lr_expires_at = ss_expires_at opened, lr_user = view_user u\<rparr>)))))))"

definition authenticate ::
    "env \<Rightarrow> auth_libs \<Rightarrow> auth_service \<Rightarrow> database \<Rightarrow> database \<Rightarrow> string \<Rightarrow> database \<times> principal res" where
  "authenticate en lib s rd db token =
     (let token = trim_space token in
      if token = '''' then (db, Inl err_unauthorized)
      else
      checked (map_error (\<lambda>_. err_unauthorized)
        (via en ''sqlite.SessionByHash'' (session_by_hash rd (hash_token (li_sha256 lib) token)))) db (\<lambda>opened.
      let now = en_now en 0 in
      checked (session_validate opened now) db (\<lambda>_.
      checked (map_error (\<lambda>_. err_unauthorized) (via en ''sqlite.scanUser'' (user_by_id rd (ss_user_id opened)))) db (\<lambda>u.
      if \<not> u_active u then (db, Inl (new_fault Forbidden ''account_inactive'' ''account is inactive''))
      else case session_touch opened now (as_touch_interval s) of
        (touched, True) \<Rightarrow>
          checked (via en ''sqlite.TouchSession'' (touch_session db (ss_id touched) (ss_last_seen_at touched))) db (\<lambda>db.
          (db, Inr \<lparr>pr_user = u, pr_session = touched\<rparr>))
      | (_, False) \<Rightarrow> (db, Inr \<lparr>pr_user = u, pr_session = opened\<rparr>)))))"

definition logout :: "env \<Rightarrow> database \<Rightarrow> principal \<Rightarrow> string \<Rightarrow> database \<times> unit res" where
  "logout en db p request =
     (let now = en_now en 0 in
      checked (via en ''sqlite.RevokeSession'' (revoke_session db (ss_id (pr_session p)) now)) db (\<lambda>db.
      checked (via en ''sqlite.insertAudit'' (insert_audit (event_or_zero (new_event (en_uuid en 0) (u_id (pr_user p))
          (request_id request) ''session'' (ss_id (pr_session p)) ''logout'' ''success'' json_null now)) db)) db (\<lambda>db.
      (db, Inr ()))))"

definition cleanup :: "env \<Rightarrow> database \<Rightarrow> database \<times> i64 res" where
  "cleanup en db =
     checked (via en ''sqlite.DeleteExpiredSessions'' (delete_expired_sessions db (en_now en 0))) db
       (\<lambda>(db, n). (db, Inr n))"

section \<open>Tokens\<close>

lemma visible_base64_char: "n < 64 \<Longrightarrow> visible (base64_char n)"
  by (auto simp: base64_char_def visible_def)

lemma base64_url_visible: "c \<in> set (base64_url s) \<Longrightarrow> visible c"
proof (induction s rule: base64_url.induct)
  case (1 a b c s)
  have "byte a * 65536 + byte b * 256 + byte c < 16777216"
    using byte_less [of a] byte_less [of b] byte_less [of c] by linarith
  then have "(byte a * 65536 + byte b * 256 + byte c) div 262144 < 64"
    by (simp add: div_less_iff_less_mult)
  with 1 show ?case by (auto simp: Let_def visible_base64_char)
next
  case (2 a b)
  have "byte a * 1024 + byte b * 4 < 262144" using byte_less [of a] byte_less [of b] by linarith
  then have "(byte a * 1024 + byte b * 4) div 4096 < 64" by (simp add: div_less_iff_less_mult)
  with 2 show ?case by (auto simp: Let_def visible_base64_char)
next
  case (3 a)
  have "byte a * 16 < 4096" using byte_less [of a] by linarith
  then have "byte a * 16 div 64 < 64" by (simp add: div_less_iff_less_mult)
  with 3 show ?case by (auto simp: Let_def visible_base64_char)
qed simp

lemma base64_url_Nil_iff [simp]: "base64_url s = [] \<longleftrightarrow> s = []"
  by (cases s rule: base64_url.cases) (auto simp: Let_def)

lemma trim_base64_url: "s \<noteq> [] \<Longrightarrow> trim_space (base64_url s) = base64_url s"
  by (rule trim_space_visible) (auto intro!: base64_url_visible [where s = s])

section \<open>What the calls do\<close>

lemma authenticate_Inr:
  assumes "authenticate en lib s rd db token = (db', Inr p)"
  shows "\<exists>opened u. session_by_hash rd (hash_token (li_sha256 lib) (trim_space token)) = Inr opened
    \<and> trim_space token \<noteq> '''' \<and> ss_revoked_at opened = None \<and> en_now en 0 < ss_expires_at opened
    \<and> user_by_id rd (ss_user_id opened) = Inr u \<and> u_active u \<and> pr_user p = u
    \<and> ss_id (pr_session p) = ss_id opened"
  using assms
  by (auto simp: authenticate_def Let_def session_validate_Inr checked_def touch_session_def
      split: if_splits sum.splits prod.splits bool.splits dest!: session_touch_frame)

lemma touch_by_hash:
  assumes "touch_session db sid t = Inr db'"
  shows "session_by_hash db' h = map_sum id (\<lambda>s. if ss_id s = sid then s\<lparr>ss_last_seen_at := t\<rparr> else s) (session_by_hash db h)"
  using assms by (auto simp: touch_session_def session_by_hash_def query_row_def find_key_update_where
      split: option.splits)

text \<open>Cases of a call follow from the statements it runs.\<close>

lemma login_Inr:
  assumes "login en lib s rd db input = (db', Inr r)"
  shows "\<exists>email u issued db1. normalize_email (li_lower lib) (li_address lib) (lg_email input) = Inr email
    \<and> user_by_email rd email = Inr u \<and> u_active u \<and> li_bcrypt_matches lib (u_password_hash u) (lg_password input)
    \<and> issue_session (li_sha256 lib) (li_random lib) (en_uuid en 0) (u_id u) (en_now en 0) (as_ttl s) = Inr issued
    \<and> insert_session db (is_session issued) = Inr db1
    \<and> (\<exists>e. insert_audit e db1 = Inr db')
    \<and> r = \<lparr>lr_token = is_token issued, lr_expires_at = ss_expires_at (is_session issued), lr_user = view_user u\<rparr>"
  using assms
  by (auto simp: login_def Let_def verify_password_def split: if_splits)

context statement_frame
begin

lemma call_login: "ok db \<Longrightarrow> login en lib s rd db input = (db', out) \<Longrightarrow> ok db'"
  by (auto simp: login_def Let_def checked_def split: sum.splits dest: session event)

lemma call_authenticate: "ok db \<Longrightarrow> authenticate en lib s rd db token = (db', out) \<Longrightarrow> ok db'"
  by (auto simp: authenticate_def Let_def checked_def split: sum.splits if_splits prod.splits bool.splits dest: touch)

lemma call_logout: "ok db \<Longrightarrow> logout en db p request = (db', out) \<Longrightarrow> ok db'"
  by (auto simp: logout_def Let_def checked_def split: sum.splits dest: revoke event)

lemma call_cleanup: "ok db \<Longrightarrow> cleanup en db = (db', out) \<Longrightarrow> ok db'"
  by (auto simp: cleanup_def checked_def split: sum.splits prod.splits dest: clean)

lemma call_bootstrap: "ok db \<Longrightarrow> bootstrap en lib rd db input = (db', out) \<Longrightarrow> ok db'"
  by (auto simp: bootstrap_def Let_def checked_def split: sum.splits if_splits dest: user)

end

lemmas login_keys = key_laws.call_login
lemmas authenticate_keys = key_laws.call_authenticate
lemmas logout_keys = key_laws.call_logout
lemmas cleanup_keys = key_laws.call_cleanup
lemmas bootstrap_keys = key_laws.call_bootstrap

text \<open>
  The token of a login opens the session for its user until it expires: however many requests were
  served in between, as long as the rows of the session and of the user are there, the user is
  active and nobody revoked the session.
\<close>

lemma session_by_hash_find: "session_by_hash db h = Inr s \<longleftrightarrow> find_key ss_token_hash h (sessions db) = Some s"
  by (simp add: session_by_hash_def)

lemma login_then_authenticate:
  assumes ok: "keys_ok db" and li: "login en lib s rd db input = (db1, Inr r)"
    and bytes: "li_random lib = Inr bytes" "bytes \<noteq> []"
    and u: "user_by_id db1 (uv_id (lr_user r)) = Inr u" "u_active u"
    and t: "en_now en' 0 < lr_expires_at r" and quiet: "\<And>op. en_driver en' op = None"
  shows "\<exists>db2 p. authenticate en' lib s' db1 db1 (lr_token r) = (db2, Inr p) \<and> pr_user p = u"
proof -
  from login_Inr [OF li] obtain v issued dbs e where
    issue: "issue_session (li_sha256 lib) (li_random lib) (en_uuid en 0) (u_id v) (en_now en 0) (as_ttl s) = Inr issued"
    and ins: "insert_session db (is_session issued) = Inr dbs" and aud: "insert_audit e dbs = Inr db1"
    and r: "r = \<lparr>lr_token = is_token issued, lr_expires_at = ss_expires_at (is_session issued), lr_user = view_user v\<rparr>"
    by blast
  let ?o = "is_session issued"
  have tok: "is_token issued = base64_url bytes" "ss_token_hash ?o = hash_token (li_sha256 lib) (base64_url bytes)"
    "ss_revoked_at ?o = None" "ss_user_id ?o = u_id v"
    using issue bytes by (auto simp: issue_session_def Let_def split: if_splits)
  have dbs: "dbs = db\<lparr>sessions := sessions db @ [?o]\<rparr>" using ins by (simp add: insert_session_Inr)
  have ok1: "keys_ok dbs" using insert_session_keys [OF ok ins] .
  have ses: "sessions db1 = sessions db @ [?o]" using aud by (auto simp: insert_audit_Inr dbs)
  have "distinct (map ss_token_hash (sessions db1))" using ok1 by (simp add: keys_ok_def dbs ses)
  then have found: "session_by_hash db1 (hash_token (li_sha256 lib) (base64_url bytes)) = Inr ?o"
    unfolding session_by_hash_find using find_key_in_set [of ss_token_hash "sessions db1" ?o] by (simp add: ses tok(2))
  have usr: "user_by_id db1 (ss_user_id ?o) = Inr u" using u(1) by (simp add: r tok(4) view_user_def)
  have live: "session_validate ?o (en_now en' 0) = Inr ()" using t tok(3) by (simp add: session_validate_Inr r)
  show ?thesis
    using u(2) bytes(2)
    by (auto simp: authenticate_def r tok(1) trim_base64_url Let_def via_def quiet found usr live map_error_def
        touch_session_def split: prod.split bool.split)
qed

text \<open>After a logout the session is refused, whatever the clock says.\<close>

lemma logout_then_refused:
  assumes ok: "keys_ok db" and out: "logout en db p request = (db1, Inr ())"
    and tok: "find_key ss_token_hash (hash_token (li_sha256 lib) (trim_space token)) (sessions db) = Some o1"
    and o1: "ss_id o1 = ss_id (pr_session p)" "trim_space token \<noteq> ''''"
    and quiet: "en_driver en' ''sqlite.SessionByHash'' = None"
  shows "authenticate en' lib s db1 db1 token
    = (db1, Inl (new_fault Unauthenticated ''session_revoked'' ''session has been revoked''))"
proof -
  let ?now = "en_now en 0" and ?h = "hash_token (li_sha256 lib) (trim_space token)"
  let ?P = "\<lambda>s. ss_id s = ss_id (pr_session p) \<and> ss_revoked_at s = None"
  from out obtain dbs e where rev: "revoke_session db (ss_id (pr_session p)) ?now = Inr dbs"
    and aud: "insert_audit e dbs = Inr db1" by (auto simp: logout_def Let_def)
  have ses: "sessions db1 = update_where ?P (\<lambda>s. s\<lparr>ss_revoked_at := Some ?now\<rparr>) (sessions db)"
    using rev aud by (auto simp: revoke_session_Inr insert_audit_Inr)
  obtain o2 where "find_key ss_token_hash ?h (sessions db1) = Some o2" "ss_revoked_at o2 \<noteq> None"
    using o1(1) by (auto simp: ses find_key_update_where tok)
  then show ?thesis
    using o1(2) by (auto simp: authenticate_def Let_def via_def quiet session_by_hash_find [symmetric]
        map_error_def session_validate_def)
qed

text \<open>
  Bootstrapping again, on the database the first call left, finds the user and changes nothing.
\<close>

lemma bootstrap_twice:
  assumes ok: "keys_ok db" and first: "bootstrap en lib rd db input = (db1, Inr u)" and rd: "rd = db"
    and quiet: "en_driver en' ''sqlite.scanUser'' = None"
  shows "bootstrap en' lib db1 db1 input = (db1, Inr u)"
proof -
  from first obtain email where e: "normalize_email (li_lower lib) (li_address lib) (nu_email input) = Inr email"
    by (auto simp: bootstrap_def)
  have "user_by_email db1 email = Inr u"
  proof (cases "via en ''sqlite.scanUser'' (user_by_email rd email)")
    case (Inr v)
    then have v: "user_by_email rd email = Inr v" by simp
    have "db1 = db" "u = v" using first by (simp_all add: bootstrap_def e Inr)
    with v rd show ?thesis by simp
  next
    case (Inl x)
    with first e obtain
      c: "create_user (li_lower lib) (li_address lib) (li_bcrypt lib) (en_uuid en 0) input (en_now en 0) = Inr u"
      and ins: "insert_user db u = Inr db1"
      by (auto simp: bootstrap_def split: if_splits)
    have "u_email u = email" using c e by (auto simp: create_user_def Let_def split: sum.splits if_splits)
    moreover have "keys_ok db1" using insert_user_keys [OF ok ins] .
    moreover have "u \<in> set (users db1)" using ins by (auto simp: insert_user_Inr)
    ultimately show ?thesis
      using find_key_in_set [of "\<lambda>u. nocase (u_email u)" "users db1" u]
      by (simp add: user_by_email_def keys_ok_def)
  qed
  then show ?thesis by (simp add: bootstrap_def e via_def quiet)
qed

end
