(* ===== verification/HttpContext.thy ===== *)
theory HttpContext
  imports ServiceAuth
begin

text \<open>
  The values that the middleware attaches to the context of a request and the handlers read from it
  (\<open>internal/httpapi/context.go\<close>).  A context is the list of its values, the newest first, each under
  the key of its type \<open>contextKey\<close>.
\<close>

datatype context_key = RequestIdKey | PrincipalKey

datatype context_value = TextValue string | PrincipalValue principal

type_synonym request_context = "(context_key \<times> context_value) list"

definition with_request_id :: "request_context \<Rightarrow> string \<Rightarrow> request_context" where
  "with_request_id ctx value = (RequestIdKey, TextValue value) # ctx"

definition with_principal :: "request_context \<Rightarrow> principal \<Rightarrow> request_context" where
  "with_principal ctx value = (PrincipalKey, PrincipalValue value) # ctx"

text \<open>The type assertions of Go: a value that is absent or of another type is the zero value.\<close>

definition context_request_id :: "request_context \<Rightarrow> string" where
  "context_request_id ctx = (case map_of ctx RequestIdKey of Some (TextValue value) \<Rightarrow> value | _ \<Rightarrow> '''')"

definition context_principal :: "request_context \<Rightarrow> principal option" where
  "context_principal ctx = (case map_of ctx PrincipalKey of Some (PrincipalValue value) \<Rightarrow> Some value | _ \<Rightarrow> None)"

lemma context_read [simp]:
  "context_request_id (with_request_id ctx value) = value"
  "context_request_id (with_principal ctx p) = context_request_id ctx"
  "context_principal (with_principal ctx p) = Some p"
  "context_principal (with_request_id ctx value) = context_principal ctx"
  "context_principal [] = None"
  by (simp_all add: context_request_id_def context_principal_def with_request_id_def with_principal_def)

end
