(* ===== verification/ServiceSites.thy ===== *)
theory ServiceSites
  imports ServiceAuth
begin

text \<open>\<open>internal/service/sites.go\<close>: creating sites and clusters, moving sites on, the list.\<close>

definition audit_insert :: "env \<Rightarrow> event res \<Rightarrow> database \<Rightarrow> database res" where
  "audit_insert en e db = via en ''sqlite.insertAudit'' (insert_audit (event_or_zero e) db)"

definition create_site ::
    "env \<Rightarrow> (string \<Rightarrow> go_error option) \<Rightarrow> database \<Rightarrow> principal \<Rightarrow> new_site \<Rightarrow> string \<Rightarrow> database \<times> site res" where
  "create_site en load_location db p input request =
     checked (principal_require p PermissionSiteManage) db (\<lambda>_.
     checked (site_create load_location (en_uuid en 0) input (en_now en 0)) db (\<lambda>entity.
     checked (via en ''sqlite.InsertSite'' (insert_site db entity)) db (\<lambda>db.
     checked (audit_insert en (new_event (en_uuid en 1) (u_id (pr_user p)) (request_id request) ''site'' (s_id entity)
         ''create'' ''success''
         (json_object [(''code'', json_string (s_code entity)), (''grid_limit_kw'', int_text (s_grid_limit entity))])
         (en_now en 1)) db) db (\<lambda>db.
     (db, Inr entity)))))"

definition transition_site ::
    "env \<Rightarrow> database \<Rightarrow> database \<Rightarrow> principal \<Rightarrow> string \<Rightarrow> site_status \<Rightarrow> i64 \<Rightarrow> string \<Rightarrow> database \<times> site res" where
  "transition_site en rd db p sid target expected request =
     checked (principal_require p PermissionSiteManage) db (\<lambda>_.
     checked (via en ''sqlite.scanSite'' (site_by_id rd sid)) db (\<lambda>entity.
     if s_version entity \<noteq> expected then (db, Inl err_version_conflict)
     else
     checked (site_transition entity target (en_now en 0)) db (\<lambda>changed.
     checked (via en ''sqlite.UpdateSite'' (update_site db changed expected)) db (\<lambda>db.
     checked (audit_insert en (new_event (en_uuid en 0) (u_id (pr_user p)) (request_id request) ''site'' sid
         ''transition'' ''success''
         (json_object [(''from'', json_string (site_status_text (s_status entity))),
                       (''to'', json_string (site_status_text (s_status changed)))]) (en_now en 1)) db) db (\<lambda>db.
     (db, Inr changed))))))"

definition create_cluster ::
    "env \<Rightarrow> database \<Rightarrow> database \<Rightarrow> principal \<Rightarrow> new_cluster \<Rightarrow> string \<Rightarrow> database \<times> cluster res" where
  "create_cluster en rd db p input request =
     checked (principal_require p PermissionSiteManage) db (\<lambda>_.
     checked (via en ''sqlite.scanSite'' (site_by_id rd (nc_site_id input))) db (\<lambda>owner.
     if s_status owner = StatusRetired then
       (db, Inl (new_fault Conflict ''site_retired'' ''retired site cannot accept battery clusters''))
     else
     checked (cluster_create (en_uuid en 0) input (en_now en 0)) db (\<lambda>cluster.
     checked (via en ''sqlite.InsertCluster'' (insert_cluster db cluster)) db (\<lambda>db.
     checked (audit_insert en (new_event (en_uuid en 1) (u_id (pr_user p)) (request_id request) ''battery_cluster''
         (c_id cluster) ''create'' ''success''
         (json_object [(''rated_power_kw'', int_text (c_rated_kw cluster)),
                       (''site_id'', json_string (c_site_id cluster))]) (en_now en 1)) db) db (\<lambda>db.
     (db, Inr cluster))))))"

definition service_list_sites :: "env \<Rightarrow> database \<Rightarrow> principal \<Rightarrow> site_filter \<Rightarrow> site_page res" where
  "service_list_sites en rd p filter_by =
     (if \<not> u_active (pr_user p) then Inl err_unauthorized
      else via en ''sqlite.ListSites'' (list_sites rd filter_by))"

section \<open>What the calls keep and do\<close>

lemma audit_insert_Inr: "audit_insert en e db = Inr db' \<longleftrightarrow>
    en_driver en ''sqlite.insertAudit'' = None \<and> insert_audit (event_or_zero e) db = Inr db'"
  by (simp add: audit_insert_def)

context statement_frame
begin

lemma audited: "ok db \<Longrightarrow> audit_insert en e db = Inr db' \<Longrightarrow> ok db'"
  by (auto simp: audit_insert_Inr dest: event)

lemma call_create_site: "ok db \<Longrightarrow> create_site en ll db p input req = (db', out) \<Longrightarrow> ok db'"
  by (auto simp: create_site_def checked_def split: sum.splits dest: site audited)

lemma call_transition_site: "ok db \<Longrightarrow> transition_site en rd db p sid st v req = (db', out) \<Longrightarrow> ok db'"
  by (auto simp: transition_site_def checked_def split: sum.splits if_splits dest: site_update audited)

lemma call_create_cluster: "ok db \<Longrightarrow> create_cluster en rd db p input req = (db', out) \<Longrightarrow> ok db'"
  by (auto simp: create_cluster_def checked_def split: sum.splits if_splits dest: cluster audited)

end

lemmas create_site_keys = key_laws.call_create_site
lemmas transition_site_keys = key_laws.call_transition_site
lemmas create_cluster_keys = key_laws.call_create_cluster

text \<open>Without the permission nothing is written.\<close>

lemma site_calls_guarded:
  assumes "\<not> role_allows (u_role (pr_user p)) PermissionSiteManage"
  shows "fst (create_site en ll db p input req) = db"
    "fst (transition_site en rd db p sid st v req) = db"
    "fst (create_cluster en rd db p cinput req) = db"
  using assms by (auto simp: create_site_def transition_site_def create_cluster_def principal_require_def
      user_can_def require_permission_def)

lemma transition_site_Inr:
  assumes ok: "keys_ok db" and tr: "transition_site en rd db p sid st v req = (db', Inr changed)"
  shows "\<exists>entity old. find_key s_id sid (sites rd) = Some entity \<and> s_version entity = v
    \<and> site_transition entity st (en_now en 0) = Inr changed
    \<and> find_key s_id sid (sites db) = Some old \<and> s_version old = v
    \<and> sites db' = update_where (\<lambda>r. s_id r = sid) (assign_site changed) (sites db)"
proof -
  from tr obtain entity dbs where entity: "find_key s_id sid (sites rd) = Some entity" "s_version entity = v"
    and ch: "site_transition entity st (en_now en 0) = Inr changed"
    and upd: "update_site db changed v = Inr dbs" and aud: "\<exists>e. insert_audit e dbs = Inr db'"
    by (auto simp: transition_site_def site_by_id_def audit_insert_Inr split: if_splits)
  have "s_id changed = sid"
    using ch find_key_SomeD [OF entity(1)] by (auto simp: site_transition_def split: if_splits)
  with upd entity ch aud show ?thesis
    by (auto simp: update_site_Inr [OF ok] insert_audit_Inr)
qed

end
