(* ===== verification/ServiceDispatch.thy ===== *)
theory ServiceDispatch
  imports ServiceSites
begin

text \<open>
  \<open>internal/service/dispatch.go\<close>: drafting, submitting, approving and dispatching plans.  The
  order in which Go visits the map of ratings is an argument: \<open>visit k\<close> is the order of the
  k-th loop over the map inside \<open>AllocatePower\<close>.
\<close>

definition create_plan :: "env \<Rightarrow> database \<Rightarrow> database \<Rightarrow> principal \<Rightarrow> new_plan \<Rightarrow> string \<Rightarrow> database \<times> plan res" where
  "create_plan en rd db p input request =
     checked (principal_require p PermissionPlanWrite) db (\<lambda>_.
     let input = input\<lparr>np_created_by := u_id (pr_user p)\<rparr> in
     checked (via en ''sqlite.scanSite'' (site_by_id rd (np_site_id input))) db (\<lambda>_.
     checked (plan_create (en_uuid en 0) input (en_now en 0)) db (\<lambda>plan.
     checked (via en ''sqlite.InsertPlan'' (insert_plan db plan)) db (\<lambda>db.
     checked (audit_insert en (new_event (en_uuid en 1) (u_id (pr_user p)) (request_id request) ''dispatch_plan''
         (p_id plan) ''create'' ''success''
         (json_object [(''direction'', json_string (direction_text (p_direction plan))),
                       (''requested_kw'', int_text (p_requested_kw plan))]) (en_now en 1)) db) db (\<lambda>db.
     (db, Inr plan))))))"

record submit_plan_input =
  sp_plan_id :: string
  sp_expected_version :: i64
  sp_cluster_ids :: "string list"

definition min_int64 :: "i64 \<Rightarrow> i64 \<Rightarrow> i64" where
  "min_int64 a b = (if a < b then a else b)"

text \<open>The loop over the selected clusters, with the identifiers seen so far.\<close>

fun select_clusters :: "env \<Rightarrow> database \<Rightarrow> plan \<Rightarrow> string set \<Rightarrow> string list \<Rightarrow> cluster list res" where
  "select_clusters en rd p seen [] = Inr []"
| "select_clusters en rd p seen (cid # ids) =
     (if cid \<in> seen then Inl (new_fault Invalid ''duplicate_cluster'' ''cluster can only be selected once'')
      else and_then (via en ''sqlite.ClusterByID'' (cluster_by_id rd cid)) (\<lambda>c.
        if c_site_id c \<noteq> p_site_id p then
          Inl (new_fault Conflict ''cluster_site_mismatch'' ''selected cluster belongs to another site'')
        else and_then (cluster_eligible c (direction_text (p_direction p))
            (min_int64 (p_requested_kw p) (c_rated_kw c))) (\<lambda>_.
        and_then (select_clusters en rd p (insert cid seen) ids) (\<lambda>cs. Inr (c # cs)))))"

definition ratings_of :: "cluster list \<Rightarrow> ratings" where
  "ratings_of cs = map (\<lambda>c. (c_id c, c_rated_kw c)) cs"

text \<open>The loop that makes a reservation for each selected cluster.\<close>

fun make_reservations :: "env \<Rightarrow> plan \<Rightarrow> (string \<rightharpoonup> i64) \<Rightarrow> nat \<Rightarrow> cluster list \<Rightarrow> reservation list res" where
  "make_reservations en p shares k [] = Inr []"
| "make_reservations en p shares k (c # cs) =
     and_then (new_reservation (en_uuid en k) (p_id p) (c_id c) (share_of shares (c_id c)) (p_window p) (en_now en k)) (\<lambda>r.
     and_then (make_reservations en p shares (Suc k) cs) (\<lambda>rs. Inr (r # rs)))"

definition submit_plan ::
    "env \<Rightarrow> (nat \<Rightarrow> ratings \<Rightarrow> ratings) \<Rightarrow> database \<Rightarrow> database \<Rightarrow> principal \<Rightarrow> submit_plan_input \<Rightarrow> string
     \<Rightarrow> database \<times> plan res" where
  "submit_plan en visit rd db p input request =
     checked (principal_require p PermissionPlanWrite) db (\<lambda>_.
     checked (via en ''sqlite.scanPlan'' (plan_by_id rd (sp_plan_id input))) db (\<lambda>plan.
     if p_created_by plan \<noteq> u_id (pr_user p) then
       (db, Inl (new_fault Forbidden ''plan_owner_required'' ''only plan creator can submit this draft''))
     else if p_version plan \<noteq> sp_expected_version input then (db, Inl err_version_conflict)
     else
     checked (via en ''sqlite.scanSite'' (site_by_id rd (p_site_id plan))) db (\<lambda>owner.
     checked (can_accept_plans owner) db (\<lambda>_.
     checked (select_clusters en rd plan {} (sp_cluster_ids input)) db (\<lambda>clusters.
     let ratings = ratings_of clusters in
     checked (allocate_power (p_requested_kw plan) (visit 0 ratings) (visit 1 ratings) (visit 2 ratings)) db (\<lambda>shares.
     checked (make_reservations en plan shares 0 clusters) db (\<lambda>rs.
     checked (plan_submit plan (int (length rs)) (p_requested_kw plan) (en_now en (length rs))) db (\<lambda>submitted.
     let event = event_or_zero (new_event (en_uuid en (length rs)) (u_id (pr_user p)) (request_id request)
           ''dispatch_plan'' (p_id plan) ''submit'' ''success''
           (json_object [(''clusters'', nat_text (length rs)), (''reserved_kw'', int_text (p_requested_kw plan))])
           (en_now en (length rs + 1))) in
     checked (submit_plan_atomic (en_tx en) db submitted (p_version plan) rs (s_id owner) (p_requested_kw plan)
         (s_version owner) (audit_inserter event)) db (\<lambda>db.
     (db, Inr submitted))))))))))"

definition approve_plan ::
    "env \<Rightarrow> database \<Rightarrow> database \<Rightarrow> principal \<Rightarrow> string \<Rightarrow> i64 \<Rightarrow> string \<Rightarrow> database \<times> plan res" where
  "approve_plan en rd db p pid expected request =
     checked (principal_require p PermissionPlanApprove) db (\<lambda>_.
     checked (via en ''sqlite.scanPlan'' (plan_by_id rd pid)) db (\<lambda>plan.
     checked (plan_approve plan (u_id (pr_user p)) expected (en_now en 0)) db (\<lambda>approved.
     checked (via en ''sqlite.UpdatePlan'' (update_plan db approved expected)) db (\<lambda>db.
     checked (audit_insert en (new_event (en_uuid en 0) (u_id (pr_user p)) (request_id request) ''dispatch_plan'' pid
         ''approve'' ''success'' json_null (en_now en 1)) db) db (\<lambda>db.
     (db, Inr approved))))))"

text \<open>The loop that makes a job for each reservation.\<close>

fun make_jobs :: "env \<Rightarrow> string \<Rightarrow> nat \<Rightarrow> reservation list \<Rightarrow> job list res" where
  "make_jobs en pid k [] = Inr []"
| "make_jobs en pid k (r # rs) =
     and_then (new_job (en_uuid en k) pid (r_cluster_id r) 5 (en_now en k)) (\<lambda>j.
     and_then (make_jobs en pid (Suc k) rs) (\<lambda>js. Inr (j # js)))"

definition dispatch_plan ::
    "env \<Rightarrow> database \<Rightarrow> database \<Rightarrow> principal \<Rightarrow> string \<Rightarrow> i64 \<Rightarrow> string \<Rightarrow> database \<times> plan res" where
  "dispatch_plan en rd db p pid expected request =
     checked (principal_require p PermissionPlanDispatch) db (\<lambda>_.
     checked (via en ''sqlite.scanPlan'' (plan_by_id rd pid)) db (\<lambda>plan.
     checked (via en ''sqlite.ReservationsByPlan'' (Inr (reservations_by_plan rd pid))) db (\<lambda>rs.
     checked (make_jobs en pid 0 rs) db (\<lambda>js.
     checked (plan_dispatch plan (int (length js)) (int (length rs)) (en_now en (length js))) db (\<lambda>changed.
     let event = event_or_zero (new_event (en_uuid en (length js)) (u_id (pr_user p)) (request_id request)
           ''dispatch_plan'' pid ''dispatch'' ''success'' (json_object [(''jobs'', nat_text (length js))])
           (en_now en (length js + 1))) in
     checked (dispatch_plan_atomic (en_tx en) db changed expected js (audit_inserter event)) db (\<lambda>db.
     (db, Inr changed)))))))"

definition service_get_plan :: "env \<Rightarrow> database \<Rightarrow> principal \<Rightarrow> string \<Rightarrow> plan res" where
  "service_get_plan en rd p pid =
     (if \<not> u_active (pr_user p) then Inl err_unauthorized
      else via en ''sqlite.scanPlan'' (plan_by_id rd pid))"

definition service_list_plans :: "env \<Rightarrow> database \<Rightarrow> principal \<Rightarrow> plan_filter \<Rightarrow> plan_page res" where
  "service_list_plans en rd p filter_by =
     (if \<not> u_active (pr_user p) then Inl err_unauthorized
      else via en ''sqlite.ListPlans'' (list_plans rd filter_by))"

text \<open>
  \<open>WaitUntilStart\<close>: it returns at once when the start has passed, at the start otherwise, unless its
  context ends before.  The value is the time at which it returns and the error of the context.
\<close>

definition wait_until_start :: "time \<Rightarrow> (time \<times> go_error) option \<Rightarrow> plan \<Rightarrow> time \<times> go_error option" where
  "wait_until_start now ended p =
     (let delay = time_sub (w_start (p_window p)) now in
      if delay \<le> 0 then (now, None)
      else case ended of
        Some (at, e) \<Rightarrow> if at < time_add now delay then (max now at, Some e) else (time_add now delay, None)
      | None \<Rightarrow> (time_add now delay, None))"

section \<open>The loops\<close>

lemma select_clusters_Inr:
  assumes "select_clusters en rd p seen ids = Inr cs"
  shows "map c_id cs = ids \<and> distinct ids \<and> set ids \<inter> seen = {}
    \<and> (\<forall>c \<in> set cs. find_key c_id (c_id c) (clusters rd) = Some c \<and> c_site_id c = p_site_id p
         \<and> c_status c = ClusterAvailable)"
  using assms
proof (induction ids arbitrary: seen cs)
  case (Cons cid ids)
  from Cons.prems obtain c ds where c: "find_key c_id cid (clusters rd) = Some c" "c_site_id c = p_site_id p"
      "c_status c = ClusterAvailable" "cid \<notin> seen"
    and ds: "select_clusters en rd p (insert cid seen) ids = Inr ds" "cs = c # ds"
    by (auto simp: cluster_by_id_def cluster_eligible_Inr split: if_splits)
  from Cons.IH [OF ds(1)] c ds(2) find_key_SomeD [OF c(1)] show ?case by auto
qed simp

lemma make_reservations_Inr:
  assumes "make_reservations en p shares k cs = Inr rs"
  shows "map r_cluster_id rs = map c_id cs \<and> map r_kw rs = map (share_of shares \<circ> c_id) cs
    \<and> (\<forall>r \<in> set rs. r_plan_id r = p_id p \<and> r_window r = p_window p \<and> r_status r = ReservationHeld \<and> 0 < r_kw r)"
  using assms
proof (induction cs arbitrary: k rs)
  case (Cons c cs)
  then obtain r qs where "new_reservation (en_uuid en k) (p_id p) (c_id c) (share_of shares (c_id c)) (p_window p) (en_now en k) = Inr r"
    and "make_reservations en p shares (Suc k) cs = Inr qs" "rs = r # qs" by auto
  with Cons.IH [of "Suc k" qs] show ?case by (auto simp: new_reservation_Inr)
qed simp

text \<open>Positive shares make the loop succeed.\<close>

lemma make_reservations_total:
  assumes "\<not> blank (p_id p)" "window_ok (p_window p)"
    and "\<forall>c \<in> set cs. \<not> blank (c_id c) \<and> 0 < share_of shares (c_id c)"
  shows "\<exists>rs. make_reservations en p shares k cs = Inr rs"
  using assms(3)
proof (induction cs arbitrary: k)
  case (Cons c cs)
  then obtain rs where "make_reservations en p shares (Suc k) cs = Inr rs" by auto
  moreover from Cons.prems have "\<exists>r. new_reservation (en_uuid en k) (p_id p) (c_id c) (share_of shares (c_id c))
      (p_window p) (en_now en k) = Inr r"
    using assms(1,2) by (simp add: new_reservation_Inr)
  ultimately show ?case by auto
qed simp

lemma make_jobs_Inr:
  assumes "make_jobs en pid k rs = Inr js"
  shows "map j_cluster_id js = map r_cluster_id rs
    \<and> (\<forall>j \<in> set js. j_plan_id j = pid \<and> j_status j = JobPending \<and> j_attempts j = 0 \<and> j_version j = 1
         \<and> j_max_attempts j = 5 \<and> j_lease_until j = None \<and> j_lease_owner j = '''')"
  using assms
proof (induction rs arbitrary: k js)
  case (Cons r rs)
  then obtain j ks where "new_job (en_uuid en k) pid (r_cluster_id r) 5 (en_now en k) = Inr j"
    "make_jobs en pid (Suc k) rs = Inr ks" "js = j # ks" by auto
  with Cons.IH [of "Suc k" ks] show ?case by (auto simp: new_job_Inr)
qed simp

section \<open>Submitting\<close>

definition visits_all :: "(nat \<Rightarrow> ratings \<Rightarrow> ratings) \<Rightarrow> bool" where
  "visits_all visit \<longleftrightarrow> (\<forall>k rs. mset (visit k rs) = mset rs)"

lemma sum_ratings_bound:
  assumes "\<forall>c \<in> set cs. 1 \<le> c_rated_kw c \<and> c_rated_kw c \<le> 2000000" "length cs \<le> 4000000000000"
  shows "in_i64 (sum_list (map c_rated_kw cs))"
proof -
  have "0 \<le> sum_list (map c_rated_kw cs) \<and> sum_list (map c_rated_kw cs) \<le> 2000000 * int (length cs)"
    using assms(1) by (induction cs) auto
  moreover have "2000000 * int (length cs) \<le> 8000000000000000000" using assms(2) by simp
  ultimately show ?thesis unfolding in_i64_def by linarith
qed

lemma allocate_power_enough:
  "allocate_power kw o1 o2 o3 = Inr result \<Longrightarrow> 0 < kw \<and> (\<exists>t. alloc_total o1 0 = Inr t \<and> kw \<le> t)"
  by (auto simp: allocate_power_def Let_def split: if_splits)

lemma submit_shares:
  assumes cs: "\<forall>c \<in> set cs. cluster_ok c \<and> \<not> blank (c_id c)" "distinct (map c_id cs)" "length cs \<le> 4000000000000"
    and visit: "visits_all visit" and kw: "kw \<le> 10000000"
    and alloc: "allocate_power kw (visit 0 (ratings_of cs)) (visit 1 (ratings_of cs)) (visit 2 (ratings_of cs)) = Inr shares"
  shows "sum_list (map (share_of shares \<circ> c_id) cs) = kw"
    "\<forall>c \<in> set cs. share_of shares (c_id c) \<le> c_rated_kw c"
proof -
  let ?o = "\<lambda>k. visit k (ratings_of cs)"
  have perm: "mset (?o k) = mset (ratings_of cs)" for k using visit by (simp add: visits_all_def)
  have setp: "set (?o k) = set (ratings_of cs)" for k using perm [of k] by (metis set_mset_mset)
  have sums: "sum_list (map f (?o k)) = sum_list (map f (ratings_of cs))" for f :: "string \<times> i64 \<Rightarrow> i64" and k
    using perm [of k] by (metis mset_map sum_mset_sum_list)
  have maps: "map snd (ratings_of cs) = map c_rated_kw cs" "map fst (ratings_of cs) = map c_id cs"
    by (auto simp: ratings_of_def)
  have rate: "\<forall>c \<in> set cs. 1 \<le> c_rated_kw c \<and> c_rated_kw c \<le> 2000000"
    using cs(1) by (auto simp: cluster_ok_def)
  have "mset (map fst (?o 0)) = mset (map fst (ratings_of cs))" using perm [of 0] by (metis mset_map)
  then have "distinct (map fst (?o 0))" using cs(2) maps(2) by (metis mset_eq_imp_distinct_iff)
  moreover have "in_i64 (sum_list (map snd (?o 0)))"
    using sum_ratings_bound [OF rate cs(3)] by (simp add: sums maps)
  moreover have "\<forall>(c, r) \<in> set (?o 0). \<not> blank c \<and> 0 < r \<and> r \<le> 2000000"
    unfolding setp using rate cs(1) by (auto simp: ratings_of_def dest!: bspec)
  ultimately have ok: "ratings_ok (?o 0)" unfolding ratings_ok_def by blast
  have "alloc_total (?o 0) 0 = Inr (sum_list (map snd (?o 0)))"
    using alloc_total_sum [OF ok, of 0] ok by (simp add: ratings_ok_def)
  with allocate_power_enough [OF alloc] have "0 < kw" "kw \<le> sum_list (map snd (?o 0))" by auto
  from allocate_power_exact [OF ok _ this(1) kw this(2), of "?o 1" "?o 2"] alloc perm
  have dist: "\<forall>(c, r) \<in> set (?o 0). 0 \<le> share_of shares c \<and> share_of shares c \<le> r"
    and sum: "sum_list (map (share_of shares \<circ> fst) (?o 0)) = kw" by auto
  show "sum_list (map (share_of shares \<circ> c_id) cs) = kw"
    using sum sums [of "share_of shares \<circ> fst" 0] by (simp add: ratings_of_def comp_def)
  show "\<forall>c \<in> set cs. share_of shares (c_id c) \<le> c_rated_kw c"
    using dist unfolding setp by (auto simp: ratings_of_def)
qed

lemma submit_plan_Inr:
  assumes ok: "keys_ok db" and sub: "submit_plan en visit rd db p input req = (db', Inr submitted)"
  obtains plan owner cs shares rs now e where
    "find_key p_id (sp_plan_id input) (plans rd) = Some plan" "p_status plan = PlanDraft"
    "p_created_by plan = u_id (pr_user p)" "p_version plan = sp_expected_version input"
    "find_key s_id (p_site_id plan) (sites rd) = Some owner"
    "map c_id cs = sp_cluster_ids input" "distinct (map c_id cs)" "cs \<noteq> []"
    "\<forall>c \<in> set cs. find_key c_id (c_id c) (clusters rd) = Some c \<and> c_site_id c = p_site_id plan"
    "allocate_power (p_requested_kw plan) (visit 0 (ratings_of cs)) (visit 1 (ratings_of cs)) (visit 2 (ratings_of cs)) = Inr shares"
    "make_reservations en plan shares 0 cs = Inr rs"
    "submitted = set_plan_status PlanSubmitted plan now"
    "submit_body submitted (p_version plan) rs (p_site_id plan) (p_requested_kw plan) (s_version owner)
       (Some (insert_audit e)) db = Inr db'"
proof -
  from sub obtain plan owner cs shares rs e where
    plan: "find_key p_id (sp_plan_id input) (plans rd) = Some plan" "p_created_by plan = u_id (pr_user p)"
      "p_version plan = sp_expected_version input"
    and owner: "find_key s_id (p_site_id plan) (sites rd) = Some owner"
    and cs: "select_clusters en rd plan {} (sp_cluster_ids input) = Inr cs"
    and alloc: "allocate_power (p_requested_kw plan) (visit 0 (ratings_of cs)) (visit 1 (ratings_of cs)) (visit 2 (ratings_of cs)) = Inr shares"
    and rs: "make_reservations en plan shares 0 cs = Inr rs"
    and st: "plan_submit plan (int (length rs)) (p_requested_kw plan) (en_now en (length rs)) = Inr submitted"
    and body: "submit_plan_atomic (en_tx en) db submitted (p_version plan) rs (s_id owner) (p_requested_kw plan)
        (s_version owner) (audit_inserter e) = Inr db'"
    by (auto simp: submit_plan_def plan_by_id_def site_by_id_def Let_def split: if_splits; blast)
  have "s_id owner = p_site_id plan" using find_key_SomeD [OF owner] by simp
  moreover have "length rs = length cs" using make_reservations_Inr [OF rs] by (metis length_map)
  ultimately show ?thesis
    using plan owner select_clusters_Inr [OF cs] alloc rs st body
    by (intro that [of plan owner cs shares rs "en_now en (length rs)" e])
      (auto simp: submit_plan_atomic_def audit_inserter_def plan_submit_Inr)
qed

text \<open>
  The power that a submission takes from the site is the power its reservations hold, all of them
  new ones, and no cluster is asked for more than its rating.
\<close>

lemma submit_plan_power:
  assumes ok: "keys_ok db" and sub: "submit_plan en visit rd db p input req = (db', Inr submitted)"
    and wf: "\<forall>c \<in> set (clusters rd). cluster_ok c \<and> \<not> blank (c_id c)" "visits_all visit"
      "length (sp_cluster_ids input) \<le> 4000000000000" "p_requested_kw submitted \<le> 10000000"
  shows "\<exists>rs. reservations db' = reservations db @ rs
    \<and> sum_list (map r_kw rs) = p_requested_kw submitted
    \<and> map r_cluster_id rs = sp_cluster_ids input
    \<and> (\<forall>r \<in> set rs. r_plan_id r = p_id submitted \<and> r_window r = p_window submitted \<and> 0 < r_kw r
         \<and> (\<exists>c. find_key c_id (r_cluster_id r) (clusters rd) = Some c \<and> r_kw r \<le> c_rated_kw c))"
proof -
  obtain plan and owner :: site and cs shares rs e now where
    cs: "map c_id cs = sp_cluster_ids input" "distinct (map c_id cs)"
      "\<forall>c \<in> set cs. find_key c_id (c_id c) (clusters rd) = Some c \<and> c_site_id c = p_site_id plan"
    and alloc: "allocate_power (p_requested_kw plan) (visit 0 (ratings_of cs)) (visit 1 (ratings_of cs)) (visit 2 (ratings_of cs)) = Inr shares"
    and mk: "make_reservations en plan shares 0 cs = Inr rs"
    and st: "submitted = set_plan_status PlanSubmitted plan now"
    and body: "submit_body submitted (p_version plan) rs (p_site_id plan) (p_requested_kw plan) (s_version owner)
        (Some (insert_audit e)) db = Inr db'"
    by (rule submit_plan_Inr [OF ok sub]) (rule that, assumption+)
  have "\<forall>c \<in> set cs. cluster_ok c \<and> \<not> blank (c_id c)"
    using cs(3) wf(1) by (auto dest: find_key_SomeD)
  moreover have "length cs \<le> 4000000000000" using cs(1) wf(3) by (metis length_map)
  moreover have kw: "p_requested_kw plan = p_requested_kw submitted" by (simp add: st set_plan_status_def)
  ultimately have shares: "sum_list (map (share_of shares \<circ> c_id) cs) = p_requested_kw submitted"
    "\<forall>c \<in> set cs. share_of shares (c_id c) \<le> c_rated_kw c"
    using submit_shares [OF _ cs(2) _ wf(2) _ alloc] wf(4) by auto
  note r = make_reservations_Inr [OF mk]
  have "reservations db' = reservations db @ rs"
    using submit_body_Inr [OF ok body] by (auto simp: insert_audit_Inr submitted_db_def)
  moreover have "\<exists>c. find_key c_id (r_cluster_id r) (clusters rd) = Some c \<and> r_kw r \<le> c_rated_kw c" if "r \<in> set rs" for r
  proof -
    from that obtain i where i: "i < length rs" "r = rs ! i" by (metis in_set_conv_nth)
    have len: "length cs = length rs" using r by (metis length_map)
    have "r_cluster_id r = c_id (cs ! i)" using r i len by (metis nth_map)
    moreover have "r_kw r = share_of shares (c_id (cs ! i))" using r i len by (metis comp_apply nth_map)
    ultimately show ?thesis using cs(3) shares(2) i len by auto
  qed
  ultimately show ?thesis using r shares(1) cs(1) by (auto simp: st set_plan_status_def)
qed

context statement_frame
begin

lemma call_submit_plan: "ok db \<Longrightarrow> submit_plan en visit rd db p input req = (db', out) \<Longrightarrow> ok db'"
  by (auto simp: submit_plan_def submit_plan_atomic_def checked_def Let_def split: sum.splits if_splits dest: submitted)

lemma call_create_plan: "ok db \<Longrightarrow> create_plan en rd db p input req = (db', out) \<Longrightarrow> ok db'"
  by (auto simp: create_plan_def checked_def Let_def split: sum.splits dest: plan audited)

lemma call_approve_plan: "ok db \<Longrightarrow> approve_plan en rd db p pid v req = (db', out) \<Longrightarrow> ok db'"
  by (auto simp: approve_plan_def checked_def split: sum.splits dest: plan_update audited)

lemma call_dispatch_plan: "ok db \<Longrightarrow> dispatch_plan en rd db p pid v req = (db', out) \<Longrightarrow> ok db'"
  by (auto simp: dispatch_plan_def dispatch_plan_atomic_def checked_def Let_def split: sum.splits if_splits dest: dispatched)

end

lemmas submit_plan_keys = key_laws.call_submit_plan
lemmas create_plan_keys = key_laws.call_create_plan
lemmas approve_plan_keys = key_laws.call_approve_plan
lemmas dispatch_plan_keys = key_laws.call_dispatch_plan

text \<open>A submission that fails changes nothing.\<close>

lemma submit_plan_atomic_failure: "submit_plan en visit rd db p input req = (db', Inl e) \<Longrightarrow> db' = db"
  by (auto simp: submit_plan_def checked_def Let_def split: sum.splits if_splits)

lemma dispatch_plan_atomic_failure: "dispatch_plan en rd db p pid v req = (db', Inl e) \<Longrightarrow> db' = db"
  by (auto simp: dispatch_plan_def checked_def Let_def split: sum.splits if_splits)

section \<open>Dispatching\<close>

lemma insert_jobs_effect:
  assumes "keys_ok db" "fold_res insert_job js db = Inr db'" "\<forall>j \<in> set js. j_lease_owner j = '''' \<and> j_plan_id j = pid"
  shows "keys_ok db' \<and> db' = db\<lparr>jobs := jobs db @ js\<rparr> \<and> distinct (map j_cluster_id js)
    \<and> (\<forall>j \<in> set js. \<forall>k \<in> set (jobs db). j_plan_id k = pid \<longrightarrow> j_cluster_id j \<noteq> j_cluster_id k)"
  using assms
proof (induction js arbitrary: db)
  case (Cons j js)
  from Cons.prems(2) obtain db1 where db1: "insert_job j db = Inr db1" "fold_res insert_job js db1 = Inr db'" by auto
  have "nullable_string (j_lease_owner j) = j_lease_owner j" using Cons.prems(3) by (simp add: nullable_string_def)
  with db1(1) have j: "db1 = db\<lparr>jobs := jobs db @ [j]\<rparr>" "job_violation db j = None" by (auto simp: insert_job_Inr)
  have pj: "\<forall>j \<in> set js. j_lease_owner j = '''' \<and> j_plan_id j = pid" using Cons.prems(3) by simp
  note IH = Cons.IH [OF insert_job_keys [OF Cons.prems(1) db1(1)] db1(2) pj]
  have new: "\<forall>k \<in> set (jobs db). j_plan_id k = pid \<longrightarrow> j_cluster_id j \<noteq> j_cluster_id k"
  proof -
    have "\<not> list_ex (\<lambda>k. j_id k = j_id j \<or> j_command_key k = j_command_key j
          \<or> (j_plan_id k = j_plan_id j \<and> j_cluster_id k = j_cluster_id j)) (jobs db)"
      using j(2) unfolding job_violation_def by (rule contrapos_pn) (simp split: if_splits)
    then show ?thesis using Cons.prems(3) unfolding list_ex_iff by fastforce
  qed
  have sets: "jobs db1 = jobs db @ [j]" "j_plan_id j = pid" using Cons.prems(3) by (simp_all add: j)
  note k = IH [THEN conjunct1] and eq = IH [THEN conjunct2, THEN conjunct1]
    and d = IH [THEN conjunct2, THEN conjunct2, THEN conjunct1]
    and old = IH [THEN conjunct2, THEN conjunct2, THEN conjunct2]
  have "db' = db\<lparr>jobs := jobs db @ j # js\<rparr>" unfolding eq by (simp add: j(1))
  moreover have "distinct (map j_cluster_id (j # js))" using d old sets by auto
  moreover have "\<forall>i \<in> set (j # js). \<forall>k \<in> set (jobs db). j_plan_id k = pid \<longrightarrow> j_cluster_id i \<noteq> j_cluster_id k"
    using old new sets(1) by simp
  ultimately show ?case using k by (intro conjI)
qed simp

lemma dispatch_plan_Inr:
  assumes ok: "keys_ok db" and dis: "dispatch_plan en rd db p pid v req = (db', Inr changed)"
  obtains plan rs js now e dbs where
    "find_key p_id pid (plans rd) = Some plan" "p_status plan = PlanApproved"
    "rs = reservations_by_plan rd pid" "rs \<noteq> []" "make_jobs en pid 0 rs = Inr js" "length js = length rs"
    "changed = set_plan_status PlanDispatched plan now"
    "keys_ok dbs" "insert_audit e dbs = Inr db'"
    "\<exists>old. find_key p_id pid (plans db) = Some old \<and> p_version old = v"
    "dbs = db\<lparr>jobs := jobs db @ js, plans := update_where (\<lambda>q. p_id q = pid) (assign_plan_status changed) (plans db)\<rparr>"
    "distinct (map j_cluster_id js)"
    "\<forall>j \<in> set js. \<forall>k \<in> set (jobs db). (j_plan_id j, j_cluster_id j) \<noteq> (j_plan_id k, j_cluster_id k)"
proof -
  from dis obtain plan js e where
    plan: "find_key p_id pid (plans rd) = Some plan"
    and js: "make_jobs en pid 0 (reservations_by_plan rd pid) = Inr js"
    and st: "plan_dispatch plan (int (length js)) (int (length (reservations_by_plan rd pid))) (en_now en (length js)) = Inr changed"
    and body: "dispatch_plan_atomic (en_tx en) db changed v js (audit_inserter e) = Inr db'"
    by (auto simp: dispatch_plan_def plan_by_id_def Let_def split: if_splits; blast)
  from body obtain db1 dbs where f: "fold_res insert_job js db = Inr db1"
    and u: "update_plan_status ''sqlite.dispatchPlan'' changed v db1 = Inr dbs" and a: "insert_audit e dbs = Inr db'"
    by (auto simp: dispatch_plan_atomic_def dispatch_body_def audit_inserter_def)
  note mk = make_jobs_Inr [OF js]
  then have jp: "\<forall>j \<in> set js. j_lease_owner j = '''' \<and> j_plan_id j = pid" by simp
  note eff = insert_jobs_effect [OF ok f jp]
  note ins = eff [THEN conjunct1] eff [THEN conjunct2, THEN conjunct1]
    eff [THEN conjunct2, THEN conjunct2, THEN conjunct1] eff [THEN conjunct2, THEN conjunct2, THEN conjunct2]
  have len: "length js = length (reservations_by_plan rd pid)" using mk by (metis length_map)
  have pid: "p_id changed = pid"
    using st find_key_SomeD [OF plan] by (simp add: plan_dispatch_Inr set_plan_status_def)
  from u have upd: "\<exists>old. find_key p_id pid (plans db) = Some old \<and> p_version old = v"
    "dbs = db\<lparr>jobs := jobs db @ js, plans := update_where (\<lambda>q. p_id q = pid) (assign_plan_status changed) (plans db)\<rparr>"
    by (auto simp: update_plan_status_Inr [OF ins(1)] pid) (auto simp: ins(2))
  show thesis
    using plan st js len update_plan_status_keys [OF ins(1) u] a upd ins(3,4) jp
    by (intro that [of plan "reservations_by_plan rd pid" js "en_now en (length js)" dbs e])
      (auto simp: plan_dispatch_Inr)
qed

end
