(* ===== verification/ServiceOperations.thy ===== *)
theory ServiceOperations
  imports ServiceSites
begin

text \<open>
  The services of \<open>internal/service/telemetry.go\<close>, \<open>alarms.go\<close>, \<open>settlements.go\<close>,
  \<open>audits.go\<close> and \<open>idempotency.go\<close>.
\<close>

section \<open>Telemetry\<close>

record telemetry_result =
  tr_snapshot :: snapshot
  tr_conditions :: "condition list"
  tr_alarm_ids :: "string list"

text \<open>The loop that makes an alarm for each condition; the k-th one reads the clock for the k-th time.\<close>

fun make_alarms :: "env \<Rightarrow> cluster \<Rightarrow> nat \<Rightarrow> condition list \<Rightarrow> alarm list res" where
  "make_alarms en c k [] = Inr []"
| "make_alarms en c k (cd # cds) =
     (let severity = (if cd_severity cd = ''critical'' then SeverityCritical else SeverityWarning) in
      and_then (alarm_create (en_uuid en k) \<lparr>na_site_id = c_site_id c, na_cluster_id = c_id c, na_type = cd_type cd,
        na_fingerprint = cd_fingerprint cd, na_message = cd_message cd, na_severity = severity\<rparr> (en_now en k)) (\<lambda>a.
      and_then (make_alarms en c (Suc k) cds) (\<lambda>as. Inr (a # as))))"

definition record_telemetry ::
    "env \<Rightarrow> thresholds \<Rightarrow> database \<Rightarrow> database \<Rightarrow> principal \<Rightarrow> reading \<Rightarrow> string \<Rightarrow> database \<times> telemetry_result res" where
  "record_telemetry en th rd db p input request =
     checked (principal_require p PermissionTelemetryWrite) db (\<lambda>_.
     checked (via en ''sqlite.ClusterByID'' (cluster_by_id rd (rd_cluster_id input))) db (\<lambda>cluster.
     checked (new_snapshot (en_uuid en 0) input (en_now en 0)) db (\<lambda>snapshot.
     checked (cluster_apply_telemetry cluster (t_sequence snapshot) (t_soc snapshot) (t_observed_at snapshot) (en_now en 1)) db (\<lambda>updated.
     checked (evaluate snapshot th) db (\<lambda>conditions.
     checked (make_alarms en cluster 2 conditions) db (\<lambda>as.
     let event = event_or_zero (new_event (en_uuid en 1) (u_id (pr_user p)) (request_id request) ''battery_cluster''
           (c_id cluster) ''record_telemetry'' ''success''
           (json_object [(''condition_count'', nat_text (length conditions)), (''sequence'', int_text (t_sequence snapshot))])
           (en_now en (length as + 2))) in
     checked (store_telemetry_atomic (en_tx en) db snapshot (c_soc updated) (c_version cluster) as event) db (\<lambda>db.
     (db, Inr \<lparr>tr_snapshot = snapshot, tr_conditions = conditions, tr_alarm_ids = map a_id as\<rparr>))))))))"

section \<open>Alarms\<close>

definition acknowledge_alarm ::
    "env \<Rightarrow> database \<Rightarrow> database \<Rightarrow> principal \<Rightarrow> string \<Rightarrow> i64 \<Rightarrow> string \<Rightarrow> database \<times> alarm res" where
  "acknowledge_alarm en rd db p aid expected request =
     checked (principal_require p PermissionAlarmManage) db (\<lambda>_.
     checked (via en ''sqlite.AlarmByID'' (alarm_by_id rd aid)) db (\<lambda>current.
     checked (alarm_acknowledge current (u_id (pr_user p)) expected (en_now en 0)) db (\<lambda>changed.
     let event = event_or_zero (new_event (en_uuid en 0) (u_id (pr_user p)) (request_id request) ''alarm'' aid
           ''acknowledge'' ''success'' json_null (en_now en 1)) in
     checked (update_alarm (en_tx en) db changed expected event) db (\<lambda>db.
     (db, Inr changed)))))"

definition resolve_alarm ::
    "env \<Rightarrow> thresholds \<Rightarrow> database \<Rightarrow> database \<Rightarrow> principal \<Rightarrow> string \<Rightarrow> i64 \<Rightarrow> string \<Rightarrow> database \<times> alarm res" where
  "resolve_alarm en th rd db p aid expected request =
     checked (principal_require p PermissionAlarmManage) db (\<lambda>_.
     checked (via en ''sqlite.AlarmByID'' (alarm_by_id rd aid)) db (\<lambda>current.
     checked (via en ''sqlite.ClusterByID'' (cluster_by_id rd (a_cluster_id current))) db (\<lambda>cluster.
     if c_telemetry_at cluster = None then
       (db, Inl (new_fault Conflict ''telemetry_missing'' ''cluster has no recovery telemetry''))
     else
     let healthy = th_low_soc th < c_soc cluster \<and> c_soc cluster < th_high_soc th in
     checked (alarm_resolve current (u_id (pr_user p)) expected healthy (en_now en 0)) db (\<lambda>changed.
     let event = event_or_zero (new_event (en_uuid en 0) (u_id (pr_user p)) (request_id request) ''alarm'' aid
           ''resolve'' ''success'' (json_object [(''cluster_soc'', int_text (c_soc cluster))]) (en_now en 1)) in
     checked (update_alarm (en_tx en) db changed expected event) db (\<lambda>db.
     (db, Inr changed))))))"

text \<open>
  The batch runs one call after the other on the database the previous call left; \<open>ens k\<close> is the
  environment of the k-th call.  A missing key of the map \<open>versions\<close> reads as 0.
\<close>

definition version_of :: "(string \<rightharpoonup> i64) \<Rightarrow> string \<Rightarrow> i64" where
  "version_of versions aid = (case versions aid of None \<Rightarrow> 0 | Some v \<Rightarrow> v)"

fun acknowledge_each ::
    "(nat \<Rightarrow> env) \<Rightarrow> principal \<Rightarrow> (string \<rightharpoonup> i64) \<Rightarrow> string \<Rightarrow> nat \<Rightarrow> string set \<Rightarrow> string list
     \<Rightarrow> database \<Rightarrow> database \<times> item_result list" where
  "acknowledge_each ens p versions request k seen [] db = (db, [])"
| "acknowledge_each ens p versions request k seen (aid # ids) db =
     (if aid \<in> seen then
        (let (db', items) = acknowledge_each ens p versions request (Suc k) seen ids db in
         (db', \<lparr>ir_id = aid, ir_status = ''failed'', ir_error_code = ''duplicate_id''\<rparr> # items))
      else
        (let (db1, out) = acknowledge_alarm (ens k) db db p aid (version_of versions aid) request;
             item = (case out of
                 Inl e \<Rightarrow> \<lparr>ir_id = aid, ir_status = ''failed'', ir_error_code = code_of e\<rparr>
               | Inr _ \<Rightarrow> \<lparr>ir_id = aid, ir_status = ''acknowledged'', ir_error_code = ''''\<rparr>);
             (db', items) = acknowledge_each ens p versions request (Suc k) (insert aid seen) ids db1 in
         (db', item # items)))"

definition acknowledge_batch ::
    "(nat \<Rightarrow> env) \<Rightarrow> database \<Rightarrow> principal \<Rightarrow> string list \<Rightarrow> (string \<rightharpoonup> i64) \<Rightarrow> string \<Rightarrow> database \<times> batch_result" where
  "acknowledge_batch ens db p ids versions request =
     (let (db', items) = acknowledge_each ens p versions request 0 {} ids db in (db', build_batch_result items))"

section \<open>Settlement\<close>

definition create_period ::
    "env \<Rightarrow> database \<Rightarrow> principal \<Rightarrow> string \<Rightarrow> time \<Rightarrow> time \<Rightarrow> database \<times> period res" where
  "create_period en db p site_id start finish =
     checked (principal_require p PermissionSettlementClose) db (\<lambda>_.
     checked (new_period (en_uuid en 0) site_id start finish (en_now en 0)) db (\<lambda>period.
     checked (via en ''sqlite.InsertPeriod'' (insert_period db period)) db (\<lambda>db.
     (db, Inr period))))"

text \<open>The loop that settles one plan after the other.\<close>

fun make_entries :: "env \<Rightarrow> database \<Rightarrow> period \<Rightarrow> i64 \<Rightarrow> nat \<Rightarrow> plan list \<Rightarrow> entry list res" where
  "make_entries en rd pd price k [] = Inr []"
| "make_entries en rd pd price k (q # qs) =
     and_then (via en ''sqlite.ActualEnergyForPlan'' (actual_energy_for_plan rd (p_id q))) (\<lambda>actual_wh.
     and_then (new_entry (en_uuid en k) (pd_id pd) (p_id q) (wrap64 (p_target_kwh q * 1000)) actual_wh price (en_now en (Suc k))) (\<lambda>e.
     and_then (make_entries en rd pd price (Suc k) qs) (\<lambda>es. Inr (e # es))))"

definition calculate_and_close ::
    "env \<Rightarrow> database \<Rightarrow> database \<Rightarrow> principal \<Rightarrow> string \<Rightarrow> i64 \<Rightarrow> i64 \<Rightarrow> string \<Rightarrow> database \<times> (period \<times> summary) res" where
  "calculate_and_close en rd db p pid expected price request =
     checked (principal_require p PermissionSettlementClose) db (\<lambda>_.
     checked (via en ''sqlite.PeriodByID'' (period_by_id rd pid)) db (\<lambda>period.
     if pd_version period \<noteq> expected then (db, Inl err_version_conflict)
     else
     checked (via en ''sqlite.CompletedPlansForPeriod'' (completed_plans_for_period rd period)) db (\<lambda>qs.
     checked (period_begin period expected (int (length qs)) (int (length qs)) (en_now en 0)) db (\<lambda>calculating.
     checked (make_entries en rd period price 0 qs) db (\<lambda>es.
     checked (period_close calculating (u_id (pr_user p)) (pd_version calculating) (int (length qs)) (int (length es))
         (en_now en (length es + 1))) db (\<lambda>closed.
     let event = event_or_zero (new_event (en_uuid en (length es)) (u_id (pr_user p)) (request_id request)
           ''settlement_period'' (pd_id period) ''close'' ''success''
           (json_object [(''entry_count'', nat_text (length es))]) (en_now en (length es + 2))) in
     checked (insert_entries_atomic (en_tx en) db closed expected es event) db (\<lambda>db.
     (db, Inr (closed, summarize es)))))))))"

section \<open>The audit log\<close>

definition service_list_audit :: "env \<Rightarrow> database \<Rightarrow> principal \<Rightarrow> audit_filter \<Rightarrow> audit_page res" where
  "service_list_audit en rd p filter_by =
     and_then (principal_require p PermissionAuditRead) (\<lambda>_. via en ''sqlite.ListAudit'' (list_audit rd filter_by))"

section \<open>Idempotency keys\<close>

record idem_decision =
  id_record :: idem_record
  id_replay :: bool
  id_status :: i64
  id_body :: string

text \<open>
  \<open>Begin\<close> calls itself when its insertion meets a conflict.  The k-th turn runs in the environment
  \<open>ens k\<close> and on the database \<open>dbs k\<close> its query finds, its statement on \<open>dbs' k\<close>; a turn consumes
  one unit of fuel, and no fuel left is None.
\<close>

fun begin_request ::
    "(string \<Rightarrow> string) \<Rightarrow> (string \<Rightarrow> string) \<Rightarrow> duration \<Rightarrow> (nat \<Rightarrow> env) \<Rightarrow> (nat \<Rightarrow> database) \<Rightarrow> (nat \<Rightarrow> database) \<Rightarrow> nat \<Rightarrow> nat
     \<Rightarrow> principal \<Rightarrow> string \<Rightarrow> string \<Rightarrow> string \<Rightarrow> string \<Rightarrow> (database \<times> idem_decision res) option" where
  "begin_request upper sha256 ttl ens rds dbs k 0 p http_method path key request = None"
| "begin_request upper sha256 ttl ens rds dbs k (Suc fuel) p http_method path key request =
     (let en = ens k; db = dbs k in
      case via en ''sqlite.IdempotencyByScope'' (idempotency_by_scope (rds k) (u_id (pr_user p)) http_method path key) of
        Inr existing \<Rightarrow>
          Some (checked (idem_replay sha256 existing request (en_now en 0)) db (\<lambda>(status, body).
            (db, Inr \<lparr>id_record = existing, id_replay = True, id_status = status, id_body = body\<rparr>)))
      | Inl e \<Rightarrow>
          if \<not> is_kind e NotFound then Some (db, Inl e)
          else (case idem_start upper sha256 (en_uuid en 0) (u_id (pr_user p)) http_method path key request (en_now en 0) ttl of
            Inl e \<Rightarrow> Some (db, Inl e)
          | Inr r \<Rightarrow>
              (case via en ''sqlite.InsertIdempotency'' (insert_idempotency db r) of
                 Inl e \<Rightarrow> if is_kind e Conflict
                   then begin_request upper sha256 ttl ens rds dbs (Suc k) fuel p http_method path key request
                   else Some (db, Inl e)
               | Inr db' \<Rightarrow> Some (db', Inr \<lparr>id_record = r, id_replay = False, id_status = 0, id_body = ''''\<rparr>))))"

definition complete_request :: "env \<Rightarrow> database \<Rightarrow> idem_record \<Rightarrow> i64 \<Rightarrow> string \<Rightarrow> database \<times> unit res" where
  "complete_request en db r status body =
     checked (idem_complete r status body (en_now en 0)) db (\<lambda>completed.
     checked (via en ''sqlite.CompleteIdempotency'' (complete_idempotency db completed)) db (\<lambda>db. (db, Inr ())))"

section \<open>What the calls keep\<close>

context statement_frame
begin

lemma call_telemetry: "ok db \<Longrightarrow> record_telemetry en th rd db p input req = (db', out) \<Longrightarrow> ok db'"
  by (auto simp: record_telemetry_def checked_def Let_def split: sum.splits dest: telemetry_stored)

lemma call_acknowledge: "ok db \<Longrightarrow> acknowledge_alarm en rd db p aid v req = (db', out) \<Longrightarrow> ok db'"
  by (auto simp: acknowledge_alarm_def checked_def Let_def split: sum.splits dest: alarm_stored)

lemma call_resolve: "ok db \<Longrightarrow> resolve_alarm en th rd db p aid v req = (db', out) \<Longrightarrow> ok db'"
  by (auto simp: resolve_alarm_def checked_def Let_def split: sum.splits if_splits dest: alarm_stored)

lemma call_create_period: "ok db \<Longrightarrow> create_period en db p sid a b = (db', out) \<Longrightarrow> ok db'"
  by (auto simp: create_period_def checked_def split: sum.splits dest: period)

lemma call_close_period: "ok db \<Longrightarrow> calculate_and_close en rd db p pid v price req = (db', out) \<Longrightarrow> ok db'"
  by (auto simp: calculate_and_close_def checked_def Let_def split: sum.splits if_splits dest: entries_stored)

end

context statement_kept
begin

lemma call_complete: "ok db \<Longrightarrow> complete_request en db r st b = (db', out) \<Longrightarrow> ok db'"
  by (auto simp: complete_request_def checked_def split: sum.splits dest: idempotency_done)

end

lemmas record_telemetry_keys = key_laws.call_telemetry
lemmas acknowledge_alarm_keys = key_laws.call_acknowledge
lemmas resolve_alarm_keys = key_laws.call_resolve
lemmas create_period_keys = key_laws.call_create_period
lemmas calculate_and_close_keys = key_laws.call_close_period
lemmas complete_request_keys = key_laws.call_complete

text \<open>The calls that write in one transaction leave the database alone when they fail.\<close>

lemma failed_calls_change_nothing:
  "record_telemetry en th rd db p input req = (db', Inl e) \<Longrightarrow> db' = db"
  "acknowledge_alarm en rd db p aid v req = (db', Inl e) \<Longrightarrow> db' = db"
  "resolve_alarm en th rd db p aid v req = (db', Inl e) \<Longrightarrow> db' = db"
  "calculate_and_close en rd db p pid v price req = (db', Inl e) \<Longrightarrow> db' = db"
  "complete_request en db r st b = (db', Inl e) \<Longrightarrow> db' = db"
  by (auto simp: record_telemetry_def acknowledge_alarm_def resolve_alarm_def calculate_and_close_def
      complete_request_def checked_def Let_def split: sum.splits if_splits)

section \<open>Telemetry\<close>

lemma record_telemetry_Inr:
  assumes ok: "keys_ok db" and rec: "record_telemetry en th rd db p input req = (db', Inr out)"
  obtains seen c rows e where
    "find_key c_id (rd_cluster_id input) (clusters rd) = Some seen" "c_sequence seen < t_sequence (tr_snapshot out)"
    "new_snapshot (en_uuid en 0) input (en_now en 0) = Inr (tr_snapshot out)"
    "evaluate (tr_snapshot out) th = Inr (tr_conditions out)"
    "find_key c_id (rd_cluster_id input) (clusters db) = Some c" "c_version c = c_version seen"
    "c_sequence c < t_sequence (tr_snapshot out)"
    "db' = db\<lparr>snapshots := snapshots db @ [tr_snapshot out],
       clusters := update_where (\<lambda>c. c_id c = rd_cluster_id input)
         (advance (tr_snapshot out) (t_soc (tr_snapshot out))) (clusters db),
       alarms := rows, audit_events := audit_events db @ [stored_event e]\<rparr>"
proof -
  from rec obtain seen snap upd conds as e where
    seen: "find_key c_id (rd_cluster_id input) (clusters rd) = Some seen"
    and snap: "new_snapshot (en_uuid en 0) input (en_now en 0) = Inr snap"
    and upd: "cluster_apply_telemetry seen (t_sequence snap) (t_soc snap) (t_observed_at snap) (en_now en 1) = Inr upd"
    and conds: "evaluate snap th = Inr conds"
    and body: "store_telemetry_body snap (c_soc upd) (c_version seen) as e db = Inr db'"
    and out: "out = \<lparr>tr_snapshot = snap, tr_conditions = conds, tr_alarm_ids = map a_id as\<rparr>"
    by (auto simp: record_telemetry_def cluster_by_id_def store_telemetry_atomic_def Let_def; blast)
  have tc: "t_cluster_id snap = rd_cluster_id input"
    using snap by (auto simp: new_snapshot_def split: if_splits)
  have soc: "c_soc upd = t_soc snap" "c_sequence seen < t_sequence snap"
    using upd by (auto simp: apply_telemetry_Inr)
  note st = store_telemetry_body_Inr [OF ok body]
  from st(3,4) obtain c rows where c: "find_key c_id (rd_cluster_id input) (clusters db) = Some c"
      "c_version c = c_version seen" "c_sequence c < t_sequence snap"
    and db': "db' = db\<lparr>snapshots := snapshots db @ [snap],
       clusters := update_where (\<lambda>c. c_id c = rd_cluster_id input) (advance snap (t_soc snap)) (clusters db),
       alarms := rows, audit_events := audit_events db @ [stored_event e]\<rparr>"
    unfolding tc soc by blast
  show thesis using seen snap conds soc(2) c db' by (intro that [where seen = seen and c = c and rows = rows and e = e]) (simp_all add: out)
qed
section \<open>Alarms\<close>

lemma update_alarm_Inr:
  assumes ok: "keys_ok db" and upd: "update_alarm tx db a v e = Inr db'"
  shows "\<exists>old. find_key a_id (a_id a) (alarms db) = Some old \<and> a_version old = v
    \<and> db' = db\<lparr>alarms := update_where (\<lambda>r. a_id r = a_id a) (assign_alarm a) (alarms db),
        audit_events := audit_events db @ [stored_event e]\<rparr>"
proof -
  from upd obtain db1 where "update_alarm_row a v db = Inr db1" "insert_audit e db1 = Inr db'"
    by (auto simp: update_alarm_def)
  then show ?thesis by (auto simp: update_alarm_row_Inr [OF ok] insert_audit_Inr)
qed

lemma acknowledge_alarm_Inr:
  assumes ok: "keys_ok db" and ack: "acknowledge_alarm en rd db p aid v req = (db', Inr a)"
  shows "\<exists>current. find_key a_id aid (alarms rd) = Some current
    \<and> alarm_acknowledge current (u_id (pr_user p)) v (en_now en 0) = Inr a"
    "find_key a_id aid (alarms db') = map_option (assign_alarm a) (find_key a_id aid (alarms db))"
    "find_key a_id aid (alarms db) \<noteq> None"
proof -
  from ack obtain current e where cur: "find_key a_id aid (alarms rd) = Some current"
    and tr: "alarm_acknowledge current (u_id (pr_user p)) v (en_now en 0) = Inr a"
    and upd: "update_alarm (en_tx en) db a v e = Inr db'"
    by (auto simp: acknowledge_alarm_def alarm_by_id_def Let_def)
  then show "\<exists>current. find_key a_id aid (alarms rd) = Some current
    \<and> alarm_acknowledge current (u_id (pr_user p)) v (en_now en 0) = Inr a" by blast
  have a: "a_id a = aid" using tr find_key_SomeD [OF cur] by (auto simp: alarm_acknowledge_Inr)
  from update_alarm_Inr [OF ok upd] a
  show "find_key a_id aid (alarms db') = map_option (assign_alarm a) (find_key a_id aid (alarms db))"
    and "find_key a_id aid (alarms db) \<noteq> None"
    by (auto simp: find_key_update_where dest: find_key_SomeD)
qed

text \<open>An alarm is resolved only after it was acknowledged, and while the charge is between the thresholds.\<close>

lemma resolve_alarm_Inr:
  assumes "resolve_alarm en th rd db p aid v req = (db', Inr a)"
  shows "\<exists>current cluster. find_key a_id aid (alarms rd) = Some current \<and> a_status current = AlarmAcknowledged
    \<and> a_version current = v \<and> find_key c_id (a_cluster_id current) (clusters rd) = Some cluster
    \<and> c_telemetry_at cluster \<noteq> None \<and> th_low_soc th < c_soc cluster \<and> c_soc cluster < th_high_soc th"
  using assms
  by (auto simp: resolve_alarm_def alarm_by_id_def cluster_by_id_def Let_def alarm_resolve_def split: if_splits)

text \<open>The batch: one item per identifier, in order; the counts add up; a repeated identifier fails.\<close>

lemma acknowledge_each_step:
  assumes "acknowledge_each ens p versions req k seen (aid # ids) db = (db', items)"
  obtains item rest db1 out where
    "items = item # rest" "ir_id item = aid"
    "acknowledge_each ens p versions req (Suc k) (insert aid seen) ids db1 = (db', rest)"
    "aid \<in> seen \<Longrightarrow> db1 = db \<and> ir_status item = ''failed'' \<and> ir_error_code item = ''duplicate_id''"
    "aid \<notin> seen \<Longrightarrow> acknowledge_alarm (ens k) db db p aid (version_of versions aid) req = (db1, out)
       \<and> ir_status item = (case out of Inl _ \<Rightarrow> ''failed'' | Inr _ \<Rightarrow> ''acknowledged'')
       \<and> ir_error_code item = (case out of Inl e \<Rightarrow> code_of e | Inr _ \<Rightarrow> '''')"
proof (cases "aid \<in> seen")
  case True
  obtain db2 rest where "acknowledge_each ens p versions req (Suc k) seen ids db = (db2, rest)" by force
  with True assms that [of "hd items" rest db] show thesis by (auto simp: insert_absorb)
next
  case False
  obtain db1 out where ack: "acknowledge_alarm (ens k) db db p aid (version_of versions aid) req = (db1, out)" by force
  obtain db2 rest where "acknowledge_each ens p versions req (Suc k) (insert aid seen) ids db1 = (db2, rest)" by force
  with False assms ack that [of "hd items" rest db1 out] show thesis by (auto simp: Let_def split: sum.splits)
qed

lemma acknowledge_each_items:
  assumes "acknowledge_each ens p versions req k seen ids db = (db', items)"
  shows "map ir_id items = ids \<and> distinct (map ir_id (filter (\<lambda>i. ir_status i = ''acknowledged'') items))
    \<and> (\<forall>i \<in> set items. ir_status i = ''acknowledged'' \<longrightarrow> ir_id i \<notin> seen)"
  using assms
proof (induction ids arbitrary: k seen db items)
  case (Cons aid ids)
  from Cons.prems show ?case
  proof (rule acknowledge_each_step)
    fix item rest db1 and out :: "alarm res"
    assume st: "items = item # rest" "ir_id item = aid"
      "acknowledge_each ens p versions req (Suc k) (insert aid seen) ids db1 = (db', rest)"
      "aid \<in> seen \<Longrightarrow> db1 = db \<and> ir_status item = ''failed'' \<and> ir_error_code item = ''duplicate_id''"
    show ?thesis
    proof (cases "aid \<in> seen")
      case True
      then show ?thesis using Cons.IH [OF st(3)] st(1,2) st(4) [OF True] by auto
    next
      case False
      then show ?thesis using Cons.IH [OF st(3)] st(1,2) by auto
    qed
  qed
qed simp

context statement_frame
begin

lemma call_acknowledge_each:
  "ok db \<Longrightarrow> acknowledge_each ens p versions req k seen ids db = (db', items) \<Longrightarrow> ok db'"
proof (induction ids arbitrary: k seen db items)
  case (Cons aid ids)
  from Cons.prems(2) show ?case
  proof (rule acknowledge_each_step)
    fix item rest db1 and out :: "alarm res"
    assume st: "acknowledge_each ens p versions req (Suc k) (insert aid seen) ids db1 = (db', rest)"
      "aid \<in> seen \<Longrightarrow> db1 = db \<and> ir_status item = ''failed'' \<and> ir_error_code item = ''duplicate_id''"
      "aid \<notin> seen \<Longrightarrow> acknowledge_alarm (ens k) db db p aid (version_of versions aid) req = (db1, out)
       \<and> ir_status item = (case out of Inl _ \<Rightarrow> ''failed'' | Inr _ \<Rightarrow> ''acknowledged'')
       \<and> ir_error_code item = (case out of Inl e \<Rightarrow> code_of e | Inr _ \<Rightarrow> '''')"
    have "ok db1"
    proof (cases "aid \<in> seen")
      case True
      with st(2) Cons.prems(1) show ?thesis by simp
    next
      case False
      with st(3) have "acknowledge_alarm (ens k) db db p aid (version_of versions aid) req = (db1, out)" by blast
      then show ?thesis by (rule call_acknowledge [OF Cons.prems(1)])
    qed
    then show ?thesis using Cons.IH st(1) by blast
  qed
qed simp

end

lemmas acknowledge_each_keys = key_laws.call_acknowledge_each

text \<open>
  The batch acknowledges the alarms of the items it reports as acknowledged, and leaves every other
  alarm as it was.
\<close>

lemma acknowledge_alarm_rows:
  assumes "keys_ok db" "acknowledge_alarm en db db p aid v req = (db1, out)"
  shows "b \<noteq> aid \<Longrightarrow> find_key a_id b (alarms db1) = find_key a_id b (alarms db)"
    "out = Inl e \<Longrightarrow> db1 = db"
    "out = Inr a \<Longrightarrow> \<exists>row. find_key a_id aid (alarms db1) = Some row \<and> a_status row = AlarmAcknowledged
       \<and> a_acknowledged_by row = nullable_string (u_id (pr_user p))"
proof -
  show fail: "out = Inl e \<Longrightarrow> db1 = db" for e using assms(2) failed_calls_change_nothing(2) by blast
  show "find_key a_id b (alarms db1) = find_key a_id b (alarms db)" if "b \<noteq> aid"
  proof (cases out)
    case (Inr a)
    with assms(2) obtain current ev where u: "alarm_acknowledge current (u_id (pr_user p)) v (en_now en 0) = Inr a"
      "find_key a_id aid (alarms db) = Some current" "update_alarm (en_tx en) db a v ev = Inr db1"
      by (auto simp: acknowledge_alarm_def alarm_by_id_def Let_def)
    then have "a_id a = aid" using find_key_SomeD [OF u(2)] by (auto simp: alarm_acknowledge_Inr)
    then show ?thesis using update_alarm_Inr [OF assms(1) u(3)] that
      by (auto simp: find_key_update_where map_option_case split: option.split dest: find_key_SomeD)
  qed (use fail in simp)
  show "\<exists>row. find_key a_id aid (alarms db1) = Some row \<and> a_status row = AlarmAcknowledged
       \<and> a_acknowledged_by row = nullable_string (u_id (pr_user p))" if "out = Inr a"
    using acknowledge_alarm_Inr [OF assms(1) assms(2) [unfolded that]]
    by (auto simp: alarm_acknowledge_Inr assign_alarm_def)
qed

lemma acknowledge_each_rows:
  assumes "keys_ok db" "acknowledge_each ens p versions req k seen ids db = (db', items)"
  shows "if aid \<in> ir_id ` {i \<in> set items. ir_status i = ''acknowledged''}
    then \<exists>row. find_key a_id aid (alarms db') = Some row \<and> a_status row = AlarmAcknowledged
       \<and> a_acknowledged_by row = nullable_string (u_id (pr_user p))
    else find_key a_id aid (alarms db') = find_key a_id aid (alarms db)"
  using assms
proof (induction ids arbitrary: k seen db items)
  case (Cons b ids)
  from Cons.prems(2) show ?case
  proof (rule acknowledge_each_step)
    fix item rest db1 and out :: "alarm res"
    assume st: "items = item # rest" "ir_id item = b"
      "acknowledge_each ens p versions req (Suc k) (insert b seen) ids db1 = (db', rest)"
      "b \<in> seen \<Longrightarrow> db1 = db \<and> ir_status item = ''failed'' \<and> ir_error_code item = ''duplicate_id''"
      "b \<notin> seen \<Longrightarrow> acknowledge_alarm (ens k) db db p b (version_of versions b) req = (db1, out)
       \<and> ir_status item = (case out of Inl _ \<Rightarrow> ''failed'' | Inr _ \<Rightarrow> ''acknowledged'')
       \<and> ir_error_code item = (case out of Inl e \<Rightarrow> code_of e | Inr _ \<Rightarrow> '''')"
    have fresh: "b \<notin> ir_id ` {i \<in> set rest. ir_status i = ''acknowledged''}"
      using acknowledge_each_items [OF st(3)] by auto
    show ?case
    proof (cases "b \<in> seen")
      case True
      have "{i \<in> set items. ir_status i = ''acknowledged''} = {i \<in> set rest. ir_status i = ''acknowledged''}"
        using st(1) st(4) [OF True] by auto
      then show ?thesis using Cons.IH [OF Cons.prems(1), of "Suc k" "insert b seen" rest] st(3) st(4) [OF True] by simp
    next
      case False
      with st(5) have a: "acknowledge_alarm (ens k) db db p b (version_of versions b) req = (db1, out)"
        and s: "ir_status item = (case out of Inl _ \<Rightarrow> ''failed'' | Inr _ \<Rightarrow> ''acknowledged'')" by blast+
      note rows = acknowledge_alarm_rows [OF Cons.prems(1) a]
      note ih = Cons.IH [OF acknowledge_alarm_keys [OF Cons.prems(1) a] st(3)]
      show ?thesis
      proof (cases "aid = b")
        case True
        have same: "find_key a_id aid (alarms db') = find_key a_id aid (alarms db1)" using ih fresh True by auto
        have acked: "aid \<in> ir_id ` {i \<in> set items. ir_status i = ''acknowledged''} \<longleftrightarrow> ir_status item = ''acknowledged''"
          using fresh st(1,2) True by auto
        show ?thesis using rows(2) rows(3) s True same acked by (cases out) simp_all
      next
        case other: False
        then have "aid \<in> ir_id ` {i \<in> set items. ir_status i = ''acknowledged''}
            \<longleftrightarrow> aid \<in> ir_id ` {i \<in> set rest. ir_status i = ''acknowledged''}" using st(1,2) by auto
        then show ?thesis using ih rows(1) [OF other] by presburger
      qed
    qed
  qed
qed simp

lemma acknowledge_batch_result:
  assumes "acknowledge_batch ens db p ids versions req = (db', b)"
  shows "map ir_id (br_items b) = ids" "br_succeeded b + br_failed b = int (length ids)"
    "distinct (map ir_id (filter (\<lambda>i. ir_status i = ''acknowledged'') (br_items b)))"
proof -
  obtain items where each: "acknowledge_each ens p versions req 0 {} ids db = (db', items)"
    and b: "b = build_batch_result items"
    using assms by (auto simp: acknowledge_batch_def split: prod.splits)
  have items: "br_items b = items" by (simp add: b build_batch_result_eq)
  show ids: "map ir_id (br_items b) = ids" using acknowledge_each_items [OF each] by (simp add: items)
  show "br_succeeded b + br_failed b = int (length ids)"
    using batch_counts [of items] ids by (metis b items length_map)
  show "distinct (map ir_id (filter (\<lambda>i. ir_status i = ''acknowledged'') (br_items b)))"
    using acknowledge_each_items [OF each] by (simp add: items)
qed

text \<open>Without the permission every item fails and nothing is written.\<close>

lemma acknowledge_each_guarded:
  assumes "\<not> role_allows (u_role (pr_user p)) PermissionAlarmManage"
    and "acknowledge_each ens p versions req k seen ids db = (db', items)"
  shows "db' = db \<and> (\<forall>i \<in> set items. ir_status i = ''failed'')"
  using assms(2)
proof (induction ids arbitrary: k seen db items)
  case (Cons aid ids)
  have denied: "\<exists>e. acknowledge_alarm (ens k) db db p aid v req = (db, Inl e)" for v
    using assms(1) by (auto simp: acknowledge_alarm_def principal_require_def user_can_def require_permission_def)
  from Cons.prems show ?case
  proof (rule acknowledge_each_step)
    fix item rest db1 and out :: "alarm res"
    assume st: "items = item # rest"
      "acknowledge_each ens p versions req (Suc k) (insert aid seen) ids db1 = (db', rest)"
      "aid \<in> seen \<Longrightarrow> db1 = db \<and> ir_status item = ''failed'' \<and> ir_error_code item = ''duplicate_id''"
      "aid \<notin> seen \<Longrightarrow> acknowledge_alarm (ens k) db db p aid (version_of versions aid) req = (db1, out)
       \<and> ir_status item = (case out of Inl _ \<Rightarrow> ''failed'' | Inr _ \<Rightarrow> ''acknowledged'')
       \<and> ir_error_code item = (case out of Inl e \<Rightarrow> code_of e | Inr _ \<Rightarrow> '''')"
    have "db1 = db \<and> ir_status item = ''failed''"
      using st(3,4) denied [of "version_of versions aid"] by (cases "aid \<in> seen") auto
    then show ?thesis using Cons.IH [of "Suc k" "insert aid seen" db rest] st(1,2) by simp
  qed
qed simp

section \<open>Settlement\<close>

lemma make_entries_Inr:
  assumes "make_entries en rd pd price k qs = Inr es"
  shows "map e_plan_id es = map p_id qs \<and> (\<forall>e \<in> set es. e_period_id e = pd_id pd \<and> 0 \<le> e_actual_wh e)"
  using assms
proof (induction qs arbitrary: k es)
  case (Cons q qs)
  from Cons.prems obtain e fs where "make_entries en rd pd price (Suc k) qs = Inr fs" "es = e # fs"
    "e_plan_id e = p_id q \<and> e_period_id e = pd_id pd \<and> 0 \<le> e_actual_wh e"
    by (auto simp: new_entry_Inr)
  with Cons.IH show ?case by auto
qed simp

lemma completed_plans_sound:
  assumes "keys_ok rd" "completed_plans_for_period rd pd = Inr qs"
  shows "set qs = set (filter (completed_in pd) (plans rd))" "distinct (map p_id qs)"
proof -
  let ?rows = "sort_key plan_start_key (filter (completed_in pd) (plans rd))"
  have dist: "distinct (map p_id (plans rd))" using assms(1) by (simp add: keys_ok_def)
  have "list_all2 (\<lambda>r q. plan_by_id rd (p_id r) = Inr q) ?rows qs"
    using assms(2) by (simp add: completed_plans_for_period_def traverse_Inr list_all2_map1)
  then have "list_all2 (=) ?rows qs"
    by (rule list.rel_mono_strong) (auto simp: plan_by_id_def find_key_in_set [OF dist])
  then have eq: "qs = ?rows" by (simp add: list.rel_eq)
  then show "set qs = set (filter (completed_in pd) (plans rd))" by simp
  show "distinct (map p_id qs)" using dist by (auto simp: eq distinct_map intro: inj_on_subset)
qed

text \<open>
  Closing a period writes one entry for each completed plan of the period that has none yet, and
  the summary it returns is the sum of the entries of this calculation.
\<close>

lemma calculate_and_close_Inr:
  assumes ok: "keys_ok rd" and close: "calculate_and_close en rd db p pid v price req = (db', Inr (closed, sm))"
  shows "\<exists>period qs es. find_key pd_id pid (periods rd) = Some period \<and> pd_version period = v
    \<and> pd_status period = PeriodOpen \<and> w_end (pd_window period) \<le> en_now en 0
    \<and> set qs = set (filter (completed_in period) (plans rd)) \<and> qs \<noteq> []
    \<and> map e_plan_id es = map p_id qs \<and> distinct (map e_plan_id es) \<and> sm = summarize es
    \<and> pd_status closed = PeriodClosed \<and> pd_id closed = pid \<and> pd_version closed = incr64 (incr64 v)
    \<and> (\<exists>db1 db2 e. fold_res insert_entry es db = Inr db1 \<and> update_period_row closed v db1 = Inr db2
         \<and> insert_audit e db2 = Inr db')"
proof -
  from close obtain period qs calc es e where
    period: "find_key pd_id pid (periods rd) = Some period" "pd_version period = v"
    and qs: "completed_plans_for_period rd period = Inr qs"
    and calc: "period_begin period v (int (length qs)) (int (length qs)) (en_now en 0) = Inr calc"
    and es: "make_entries en rd period price 0 qs = Inr es"
    and cl: "period_close calc (u_id (pr_user p)) (pd_version calc) (int (length qs)) (int (length es))
         (en_now en (length es + 1)) = Inr closed"
    and at: "insert_entries_atomic (en_tx en) db closed v es e = Inr db'" and sm: "sm = summarize es"
    by (auto simp: calculate_and_close_def period_by_id_def Let_def split: if_splits; blast)
  have "pd_id period = pid" using find_key_SomeD [OF period(1)] by simp
  then have "pd_id closed = pid" "pd_status closed = PeriodClosed" "pd_version closed = incr64 (incr64 v)" "qs \<noteq> []"
      "pd_status period = PeriodOpen" "w_end (pd_window period) \<le> en_now en 0"
    using calc cl period(2) by (auto simp: period_begin_Inr period_close_def split: if_splits)
  moreover have "map e_plan_id es = map p_id qs" using make_entries_Inr [OF es] by simp
  ultimately show ?thesis
    using period completed_plans_sound [OF ok qs] sm at
    by (intro exI [of _ period] exI [of _ qs] exI [of _ es]) (auto simp: insert_entries_atomic_def)
qed

section \<open>Idempotency keys\<close>

text \<open>
  For a scope that is already in the stored form the second turn finds the record that made the
  first insertion fail, so two units of fuel suffice; the query of the second turn runs after the
  failed statement, and records are not removed in between.
\<close>

lemma idempotency_by_scope_None: "idempotency_by_scope db a m pth k = Inl e \<Longrightarrow>
    is_kind e NotFound \<and> (\<forall>r \<in> set (idempotency_keys db). idem_scope r \<noteq> (a, m, pth, k))"
  by (auto simp: idempotency_by_scope_def is_kind_def wrap_fault_def find_None_iff split: option.splits)

lemma idempotency_by_scope_Some: "\<exists>r \<in> set (idempotency_keys db). idem_scope r = (a, m, pth, k) \<Longrightarrow>
    \<exists>r. idempotency_by_scope db a m pth k = Inr r"
  by (cases "find (\<lambda>r. idem_scope r = (a, m, pth, k)) (idempotency_keys db)")
    (auto simp: idempotency_by_scope_def find_None_iff)

definition stored_scope :: "(string \<Rightarrow> string) \<Rightarrow> principal \<Rightarrow> string \<Rightarrow> string \<Rightarrow> string \<Rightarrow> bool" where
  "stored_scope upper p http_method path key \<longleftrightarrow> trim_space (u_id (pr_user p)) = u_id (pr_user p)
     \<and> upper_text upper (trim_space http_method) = http_method \<and> trim_space path = path \<and> trim_space key = key"

lemma begin_request_returns:
  assumes scope: "stored_scope upper p m pth key"
    and actor: "user_exists (dbs 0) (u_id (pr_user p))" and fresh: "\<forall>r \<in> set (idempotency_keys (dbs 0)). i_id r \<noteq> en_uuid (ens 0) 0"
    and kept: "set (idempotency_keys (dbs 0)) \<subseteq> set (idempotency_keys (rds (Suc 0)))"
    and quiet: "\<And>k op. en_driver (ens k) op = None"
  shows "\<exists>out. begin_request upper sha256 ttl ens rds dbs 0 2 p m pth key request = Some out"
proof -
  let ?a = "u_id (pr_user p)"
  have two: "(2 :: nat) = Suc (Suc 0)" by simp
  show ?thesis
  proof (cases "idempotency_by_scope (rds 0) ?a m pth key")
    case (Inr r)
    then show ?thesis by (simp add: two via_def quiet Let_def)
  next
    case (Inl e)
    note nf = idempotency_by_scope_None [OF Inl]
    show ?thesis
    proof (cases "idem_start upper sha256 (en_uuid (ens 0) 0) ?a m pth key request (en_now (ens 0) 0) ttl")
      case (Inl e')
      then show ?thesis using nf \<open>idempotency_by_scope (rds 0) ?a m pth key = Inl e\<close>
        by (simp add: two via_def quiet Let_def)
    next
      case (Inr r)
      have r: "idem_scope r = (?a, m, pth, key)" "i_actor_id r = ?a" "i_id r = en_uuid (ens 0) 0"
        using idem_start_scope [OF Inr] scope by (simp_all add: idem_scope_def stored_scope_def)
      show ?thesis
      proof (cases "insert_idempotency (dbs 0) r")
        case Inr': (Inr db')
        then show ?thesis using nf \<open>idempotency_by_scope (rds 0) ?a m pth key = Inl e\<close> Inr
          by (simp add: two via_def quiet Let_def)
      next
        case (Inl e')
        then obtain v where "idem_violation (dbs 0) r = Some v"
          by (cases "idem_violation (dbs 0) r") (auto simp: insert_idempotency_def exec_insert_def)
        then have "\<exists>q \<in> set (idempotency_keys (dbs 0)). idem_scope q = idem_scope r"
          using actor fresh r(2,3) by (auto simp: idem_violation_def list_ex_iff split: if_splits)
        then have "\<exists>q \<in> set (idempotency_keys (rds (Suc 0))). idem_scope q = (?a, m, pth, key)"
          using kept r(1) by auto
        then obtain q where q: "idempotency_by_scope (rds (Suc 0)) ?a m pth key = Inr q"
          using idempotency_by_scope_Some by blast
        show ?thesis using nf \<open>idempotency_by_scope (rds 0) ?a m pth key = Inl e\<close> Inr Inl q
          by (cases "is_kind e' Conflict") (simp_all add: two via_def quiet Let_def)
      qed
    qed
  qed
qed

text \<open>
  A scope that is not in the stored form is stored in another one than the one the query asks for:
  once its record exists, a repeated request never finds it, its insertion conflicts every time,
  and the call never returns.
\<close>

lemma begin_request_diverges:
  assumes "trim_space (u_id (pr_user p)) = u_id (pr_user p)"
    and other: "(upper_text upper (trim_space m), trim_space pth, trim_space key) \<noteq> (m, pth, key)"
    and absent: "\<forall>r \<in> set (idempotency_keys db). idem_scope r \<noteq> (u_id (pr_user p), m, pth, key)"
    and there: "r \<in> set (idempotency_keys db)"
      "idem_scope r = (u_id (pr_user p), upper_text upper (trim_space m), trim_space pth, trim_space key)"
    and start: "\<And>k. \<exists>r. idem_start upper sha256 (en_uuid (ens k) 0) (u_id (pr_user p)) m pth key request (en_now (ens k) 0) ttl = Inr r"
    and quiet: "\<And>k op. en_driver (ens k) op = None"
  shows "begin_request upper sha256 ttl ens (\<lambda>_. db) (\<lambda>_. db) k fuel p m pth key request = None"
proof (induction fuel arbitrary: k)
  case (Suc fuel)
  let ?a = "u_id (pr_user p)"
  from start [of k] obtain q where q: "idem_start upper sha256 (en_uuid (ens k) 0) ?a m pth key request (en_now (ens k) 0) ttl = Inr q"
    by blast
  have nf: "idempotency_by_scope db ?a m pth key = Inl (translate ''sqlite.IdempotencyByScope'' err_no_rows)"
    using absent by (auto simp: idempotency_by_scope_def find_None_iff find_Some_iff split: option.splits)
  have kind: "is_kind (translate ''sqlite.IdempotencyByScope'' err_no_rows) NotFound"
    by (simp add: is_kind_def wrap_fault_def)
  have "idem_scope q = idem_scope r"
    using idem_start_scope [OF q] there(2) assms(1) by (simp add: idem_scope_def)
  then have "idem_violation db q = Some UniqueViolation"
    using there(1) by (auto simp: idem_violation_def list_ex_iff)
  then have ins: "insert_idempotency db q = Inl (translate ''sqlite.InsertIdempotency'' (violation_error UniqueViolation))"
    by (simp add: insert_idempotency_def exec_insert_def)
  have conflict: "is_kind (translate ''sqlite.InsertIdempotency'' (violation_error UniqueViolation)) Conflict"
    by (simp only: translate_violation) (simp add: is_kind_def wrap_fault_def)
  show ?case
    by (simp add: via_def quiet Let_def nf kind q ins conflict Suc.IH del: translate_no_rows violation_error.simps)
qed simp
end
