(* ===== verification/HttpServer.thy ===== *)
theory HttpServer
  imports HttpCore HttpContext ServiceDispatch ServiceOperations
begin

text \<open>
  \<open>internal/httpapi/server.go\<close> and \<open>middleware.go\<close>: the routes, the handlers and the middleware,
  from a request to the response and the database it leaves.

  The path of a request is the list of the segments of \<open>URL.EscapedPath\<close>: \<open>/v1/sites\<close> has the segments
  \<open>v1\<close> and \<open>sites\<close>, and a trailing slash is a last segment that is empty.  A body is given by the outcomes of the JSON
  decoder for the types the handlers decode into.  \<open>ens 0\<close> is the environment of the authentication
  and \<open>ens (Suc k)\<close> that of the service calls.
\<close>

section \<open>Requests and responses\<close>

record login_body =
  lb_email :: string
  lb_password :: string

record transition_body =
  tb_status :: site_status
  tb_version :: i64

record plan_body =
  pb_site_id :: string
  pb_name :: string
  pb_direction :: direction
  pb_requested_kw :: i64
  pb_target_kwh :: i64
  pb_starts_at :: string
  pb_ends_at :: string

record submit_plan_body =
  sb_version :: i64
  sb_cluster_ids :: "string list"

record telemetry_body =
  mb_cluster_id :: string
  mb_sequence :: i64
  mb_observed_at :: string
  mb_soc :: i64
  mb_power_kw :: i64
  mb_temperature :: i64
  mb_energy_wh :: i64

record batch_body =
  bb_ids :: "string list"
  bb_versions :: "string \<rightharpoonup> i64"

record json_body =
  js_login :: "login_body res"
  js_site :: "new_site res"
  js_transition :: "transition_body res"
  js_cluster :: "new_cluster res"
  js_plan :: "plan_body res"
  js_submit :: "submit_plan_body res"
  js_version :: "i64 res"
  js_telemetry :: "telemetry_body res"
  js_batch :: "batch_body res"
  js_extra :: "unit res"

record http_request =
  rq_method :: string
  rq_path :: "string list"
  rq_request_id :: string
  rq_authorization :: string
  rq_query :: "string \<Rightarrow> string"
  rq_json :: json_body
  rq_ended :: "go_error option"

datatype payload =
    NoBody
  | LoginBody login_result
  | SiteBody site
  | SitePageBody site_page
  | ClusterBody cluster
  | PlanBody plan
  | PlanPageBody plan_page
  | TelemetryBody telemetry_result
  | AlarmBody alarm
  | BatchBody batch_result
  | AliveBody time
  | ReadyBody
  | ErrorBody api_error
  | MuxBody

record http_response =
  rs_status :: nat
  rs_request_id :: string
  rs_body :: payload

record http_server =
  sv_auth :: auth_service
  sv_libs :: auth_libs
  sv_thresholds :: thresholds
  sv_load_location :: "string \<Rightarrow> go_error option"
  sv_parse_time :: "string \<Rightarrow> time res"
  sv_visit :: "nat \<Rightarrow> ratings \<Rightarrow> ratings"

section \<open>Handlers\<close>

definition error_response :: "http_request \<Rightarrow> string \<Rightarrow> go_error \<Rightarrow> http_response" where
  "error_response rq rid e = (let (status, body) = write_error (rq_ended rq) rid e in
     \<lparr>rs_status = status, rs_request_id = rid, rs_body = ErrorBody body\<rparr>)"

text \<open>The tail of every handler: \<open>writeError\<close> on an error, \<open>writeJSON\<close> with the status otherwise.\<close>

definition respond :: "http_request \<Rightarrow> string \<Rightarrow> nat \<Rightarrow> ('a \<Rightarrow> payload) \<Rightarrow> database \<times> 'a res \<Rightarrow> database \<times> http_response" where
  "respond rq rid status body = (\<lambda>(db, out). (db,
     case out of
       Inl e \<Rightarrow> error_response rq rid e
     | Inr x \<Rightarrow> \<lparr>rs_status = status, rs_request_id = rid, rs_body = body x\<rparr>))"

definition principal_or_error :: "principal option \<Rightarrow> principal res" where
  "principal_or_error p = (case p of None \<Rightarrow> Inl err_unauthorized | Some p \<Rightarrow> Inr p)"

definition body_of :: "http_request \<Rightarrow> (json_body \<Rightarrow> 'a res) \<Rightarrow> 'a res" where
  "body_of rq field = decode_json (field (rq_json rq)) (js_extra (rq_json rq))"

definition handle_login :: "http_server \<Rightarrow> env \<Rightarrow> http_request \<Rightarrow> string \<Rightarrow> database \<Rightarrow> database \<Rightarrow> database \<times> http_response" where
  "handle_login sv en rq rid rd db = respond rq rid 200 LoginBody
     (checked (body_of rq js_login) db (\<lambda>b.
      login en (sv_libs sv) (sv_auth sv) rd db \<lparr>lg_email = lb_email b, lg_password = lb_password b, lg_request = rid\<rparr>))"

definition handle_logout :: "env \<Rightarrow> http_request \<Rightarrow> string \<Rightarrow> principal option \<Rightarrow> database \<Rightarrow> database \<times> http_response" where
  "handle_logout en rq rid p db = respond rq rid 204 (\<lambda>_. NoBody)
     (checked (principal_or_error p) db (\<lambda>p. logout en db p rid))"

definition handle_create_site :: "http_server \<Rightarrow> env \<Rightarrow> http_request \<Rightarrow> string \<Rightarrow> principal option \<Rightarrow> database \<Rightarrow> database \<times> http_response" where
  "handle_create_site sv en rq rid p db = respond rq rid 201 SiteBody
     (checked (principal_or_error p) db (\<lambda>p.
      checked (body_of rq js_site) db (\<lambda>input. create_site en (sv_load_location sv) db p input rid)))"

definition handle_list_sites :: "env \<Rightarrow> http_request \<Rightarrow> string \<Rightarrow> principal option \<Rightarrow> database \<Rightarrow> database \<Rightarrow> database \<times> http_response" where
  "handle_list_sites en rq rid p rd db = respond rq rid 200 SitePageBody
     (checked (principal_or_error p) db (\<lambda>p.
      checked (query_int (rq_query rq) ''limit'' 50) db (\<lambda>limit.
      checked (query_int (rq_query rq) ''offset'' 0) db (\<lambda>offset.
      (db, service_list_sites en rd p \<lparr>sf_status = rq_query rq ''status'', sf_search = rq_query rq ''search'',
        sf_sort = rq_query rq ''sort'', sf_limit = limit, sf_offset = offset\<rparr>)))))"

definition handle_transition_site :: "env \<Rightarrow> http_request \<Rightarrow> string \<Rightarrow> string \<Rightarrow> principal option \<Rightarrow> database \<Rightarrow> database \<Rightarrow> database \<times> http_response" where
  "handle_transition_site en rq rid sid p rd db = respond rq rid 200 SiteBody
     (checked (principal_or_error p) db (\<lambda>p.
      checked (body_of rq js_transition) db (\<lambda>b.
      transition_site en rd db p sid (tb_status b) (tb_version b) rid)))"

definition handle_create_cluster :: "env \<Rightarrow> http_request \<Rightarrow> string \<Rightarrow> string \<Rightarrow> principal option \<Rightarrow> database \<Rightarrow> database \<Rightarrow> database \<times> http_response" where
  "handle_create_cluster en rq rid sid p rd db = respond rq rid 201 ClusterBody
     (checked (principal_or_error p) db (\<lambda>p.
      checked (body_of rq js_cluster) db (\<lambda>input.
      create_cluster en rd db p (input\<lparr>nc_site_id := sid\<rparr>) rid)))"

definition handle_create_plan :: "http_server \<Rightarrow> env \<Rightarrow> http_request \<Rightarrow> string \<Rightarrow> principal option \<Rightarrow> database \<Rightarrow> database \<Rightarrow> database \<times> http_response" where
  "handle_create_plan sv en rq rid p rd db = respond rq rid 201 PlanBody
     (checked (principal_or_error p) db (\<lambda>p.
      checked (body_of rq js_plan) db (\<lambda>b.
      checked (parse_rfc3339 (sv_parse_time sv) (pb_starts_at b)) db (\<lambda>start.
      checked (parse_rfc3339 (sv_parse_time sv) (pb_ends_at b)) db (\<lambda>finish.
      create_plan en rd db p \<lparr>np_site_id = pb_site_id b, np_name = pb_name b, np_direction = pb_direction b,
        np_requested_kw = pb_requested_kw b, np_target_kwh = pb_target_kwh b, np_starts_at = start,
        np_ends_at = finish, np_created_by = ''''\<rparr> rid)))))"

definition handle_get_plan :: "env \<Rightarrow> http_request \<Rightarrow> string \<Rightarrow> string \<Rightarrow> principal option \<Rightarrow> database \<Rightarrow> database \<Rightarrow> database \<times> http_response" where
  "handle_get_plan en rq rid pid p rd db = respond rq rid 200 PlanBody
     (checked (principal_or_error p) db (\<lambda>p. (db, service_get_plan en rd p pid)))"

definition handle_list_plans :: "env \<Rightarrow> http_request \<Rightarrow> string \<Rightarrow> principal option \<Rightarrow> database \<Rightarrow> database \<Rightarrow> database \<times> http_response" where
  "handle_list_plans en rq rid p rd db = respond rq rid 200 PlanPageBody
     (checked (principal_or_error p) db (\<lambda>p.
      checked (query_int (rq_query rq) ''limit'' 50) db (\<lambda>limit.
      checked (query_int (rq_query rq) ''offset'' 0) db (\<lambda>offset.
      (db, service_list_plans en rd p \<lparr>plan_filter.pf_site_id = rq_query rq ''site_id'', pf_status = rq_query rq ''status'',
        pf_from = None, pf_until = None, pf_search = rq_query rq ''search'', pf_limit = limit, pf_offset = offset,
        pf_newest = (rq_query rq ''newest'' = ''true'')\<rparr>)))))"

definition handle_submit_plan :: "http_server \<Rightarrow> env \<Rightarrow> http_request \<Rightarrow> string \<Rightarrow> string \<Rightarrow> principal option \<Rightarrow> database \<Rightarrow> database \<Rightarrow> database \<times> http_response" where
  "handle_submit_plan sv en rq rid pid p rd db = respond rq rid 200 PlanBody
     (checked (principal_or_error p) db (\<lambda>p.
      checked (body_of rq js_submit) db (\<lambda>b.
      submit_plan en (sv_visit sv) rd db p \<lparr>sp_plan_id = pid, sp_expected_version = sb_version b,
        sp_cluster_ids = sb_cluster_ids b\<rparr> rid)))"

definition plan_version_action ::
    "(principal \<Rightarrow> i64 \<Rightarrow> database \<times> plan res) \<Rightarrow> http_request \<Rightarrow> string \<Rightarrow> principal option \<Rightarrow> database
     \<Rightarrow> database \<times> http_response" where
  "plan_version_action action rq rid p db = respond rq rid 200 PlanBody
     (checked (principal_or_error p) db (\<lambda>p.
      checked (body_of rq js_version) db (\<lambda>version. action p version)))"

definition handle_approve_plan :: "env \<Rightarrow> http_request \<Rightarrow> string \<Rightarrow> string \<Rightarrow> principal option \<Rightarrow> database \<Rightarrow> database \<Rightarrow> database \<times> http_response" where
  "handle_approve_plan en rq rid pid p rd db =
     plan_version_action (\<lambda>p version. approve_plan en rd db p pid version rid) rq rid p db"

definition handle_dispatch_plan :: "env \<Rightarrow> http_request \<Rightarrow> string \<Rightarrow> string \<Rightarrow> principal option \<Rightarrow> database \<Rightarrow> database \<Rightarrow> database \<times> http_response" where
  "handle_dispatch_plan en rq rid pid p rd db =
     plan_version_action (\<lambda>p version. dispatch_plan en rd db p pid version rid) rq rid p db"

definition handle_record_telemetry :: "http_server \<Rightarrow> env \<Rightarrow> http_request \<Rightarrow> string \<Rightarrow> principal option \<Rightarrow> database \<Rightarrow> database \<Rightarrow> database \<times> http_response" where
  "handle_record_telemetry sv en rq rid p rd db = respond rq rid 201 TelemetryBody
     (checked (principal_or_error p) db (\<lambda>p.
      checked (body_of rq js_telemetry) db (\<lambda>b.
      checked (parse_rfc3339 (sv_parse_time sv) (mb_observed_at b)) db (\<lambda>observed.
      record_telemetry en (sv_thresholds sv) rd db p \<lparr>rd_cluster_id = mb_cluster_id b, rd_sequence = mb_sequence b,
        rd_observed_at = observed, rd_soc = mb_soc b, rd_power_kw = mb_power_kw b, rd_temperature = mb_temperature b,
        rd_energy_wh = mb_energy_wh b\<rparr> rid))))"

definition alarm_version_action ::
    "(principal \<Rightarrow> i64 \<Rightarrow> database \<times> alarm res) \<Rightarrow> http_request \<Rightarrow> string \<Rightarrow> principal option \<Rightarrow> database
     \<Rightarrow> database \<times> http_response" where
  "alarm_version_action action rq rid p db = respond rq rid 200 AlarmBody
     (checked (principal_or_error p) db (\<lambda>p.
      checked (body_of rq js_version) db (\<lambda>version. action p version)))"

definition handle_acknowledge_alarm :: "env \<Rightarrow> http_request \<Rightarrow> string \<Rightarrow> string \<Rightarrow> principal option \<Rightarrow> database \<Rightarrow> database \<Rightarrow> database \<times> http_response" where
  "handle_acknowledge_alarm en rq rid aid p rd db =
     alarm_version_action (\<lambda>p version. acknowledge_alarm en rd db p aid version rid) rq rid p db"

definition handle_resolve_alarm :: "http_server \<Rightarrow> env \<Rightarrow> http_request \<Rightarrow> string \<Rightarrow> string \<Rightarrow> principal option \<Rightarrow> database \<Rightarrow> database \<Rightarrow> database \<times> http_response" where
  "handle_resolve_alarm sv en rq rid aid p rd db =
     alarm_version_action (\<lambda>p version. resolve_alarm en (sv_thresholds sv) rd db p aid version rid) rq rid p db"

definition handle_batch_acknowledge :: "(nat \<Rightarrow> env) \<Rightarrow> http_request \<Rightarrow> string \<Rightarrow> principal option \<Rightarrow> database \<Rightarrow> database \<times> http_response" where
  "handle_batch_acknowledge ens rq rid p db = respond rq rid 200 BatchBody
     (checked (principal_or_error p) db (\<lambda>p.
      checked (body_of rq js_batch) db (\<lambda>b.
      let (db', out) = acknowledge_batch ens db p (bb_ids b) (bb_versions b) rid in (db', Inr out))))"

text \<open>\<open>GET /healthz\<close> and \<open>GET /readyz\<close>; \<open>ping\<close> is the outcome of the ping of the database.\<close>

definition handle_health :: "time \<Rightarrow> string \<Rightarrow> database \<Rightarrow> database \<times> http_response" where
  "handle_health now rid db = (db, \<lparr>rs_status = 200, rs_request_id = rid, rs_body = AliveBody now\<rparr>)"

definition ping :: "go_error option \<Rightarrow> unit res" where
  "ping failed = (case failed of
     Some e \<Rightarrow> Inl (wrap_fault Unavailable ''database_unreachable'' ''database is not ready'' ''sqlite.Ping'' e)
   | None \<Rightarrow> Inr ())"

definition handle_readiness :: "go_error option \<Rightarrow> http_request \<Rightarrow> string \<Rightarrow> database \<Rightarrow> database \<times> http_response" where
  "handle_readiness failed rq rid db = respond rq rid 200 (\<lambda>_. ReadyBody) (db, ping failed)"

section \<open>Routes and middleware\<close>

text \<open>The reply of \<open>http.ServeMux\<close> itself to a path it does not know, or knows for other methods only.\<close>

definition mux_reply :: "nat \<Rightarrow> string \<Rightarrow> database \<Rightarrow> database \<times> http_response" where
  "mux_reply status rid db = (db, \<lparr>rs_status = status, rs_request_id = rid, rs_body = MuxBody\<rparr>)"

text \<open>
  \<open>http.ServeMux\<close> redirects a request whose path is not clean, unless its method is \<open>CONNECT\<close>, before it
  looks at the handlers; it matches the patterns against the segments, each of them unescaped.
\<close>

fun clean_segments :: "string list \<Rightarrow> string list \<Rightarrow> string list" where
  "clean_segments out [] = rev out"
| "clean_segments out (s # ss) =
     clean_segments (if s = '''' \<or> s = ''.'' then out else if s = ''..'' then drop 1 out else s # out) ss"

definition clean_path :: "string list \<Rightarrow> string list" where
  "clean_path ss =
     (let np = clean_segments [] ss in
      if np = [] then [''''] else if last ss = '''' then np @ [''''] else np)"

definition path_redirected :: "http_request \<Rightarrow> bool" where
  "path_redirected rq \<longleftrightarrow> rq_method rq \<noteq> ''CONNECT'' \<and> clean_path (rq_path rq) \<noteq> rq_path rq"

fun percent_decode :: "string \<Rightarrow> string option" where
  "percent_decode [] = Some []"
| "percent_decode (c # s) =
     (if c = CHR 0x25 then
        (case s of
           a # b # r \<Rightarrow>
             (case hex_value a of None \<Rightarrow> None | Some x \<Rightarrow>
              case hex_value b of None \<Rightarrow> None | Some y \<Rightarrow>
                map_option ((#) (char_of (16 * x + y))) (percent_decode r))
         | _ \<Rightarrow> None)
      else map_option ((#) c) (percent_decode s))"

definition path_unescape :: "string \<Rightarrow> string" where
  "path_unescape s = (case percent_decode s of None \<Rightarrow> s | Some t \<Rightarrow> t)"

definition route_path :: "http_request \<Rightarrow> string list" where
  "route_path rq = map path_unescape (rq_path rq)"

definition is_get :: "http_request \<Rightarrow> bool" where
  "is_get rq \<longleftrightarrow> rq_method rq = ''GET'' \<or> rq_method rq = ''HEAD''"

definition is_post :: "http_request \<Rightarrow> bool" where
  "is_post rq \<longleftrightarrow> rq_method rq = ''POST''"

definition serve_protected ::
    "http_server \<Rightarrow> (nat \<Rightarrow> env) \<Rightarrow> http_request \<Rightarrow> string \<Rightarrow> principal option \<Rightarrow> database \<Rightarrow> database
     \<Rightarrow> database \<times> http_response" where
  "serve_protected sv ens rq rid p rd db =
     (let en = ens 1 in
      case route_path rq of
        [_, a] \<Rightarrow>
          if a = ''sites'' then
            if is_get rq then handle_list_sites en rq rid p rd db
            else if is_post rq then handle_create_site sv en rq rid p db else mux_reply 405 rid db
          else if a = ''dispatch-plans'' then
            if is_get rq then handle_list_plans en rq rid p rd db
            else if is_post rq then handle_create_plan sv en rq rid p rd db else mux_reply 405 rid db
          else if a = ''telemetry'' then
            if is_post rq then handle_record_telemetry sv en rq rid p rd db else mux_reply 405 rid db
          else mux_reply 404 rid db
      | [_, a, b] \<Rightarrow>
          if a = ''auth'' \<and> b = ''logout'' then
            if is_post rq then handle_logout en rq rid p db else mux_reply 405 rid db
          else if a = ''dispatch-plans'' \<and> b \<noteq> '''' \<and> b \<noteq> ''/'' then
            if is_get rq then handle_get_plan en rq rid b p rd db else mux_reply 405 rid db
          else if a = ''alarms'' \<and> b = ''batch-acknowledge'' then
            if is_post rq then handle_batch_acknowledge (\<lambda>k. ens (Suc k)) rq rid p db else mux_reply 405 rid db
          else mux_reply 404 rid db
      | [_, a, b, c] \<Rightarrow>
          if b = ''/'' then mux_reply 404 rid db
          else if a = ''sites'' \<and> c = ''transition'' then
            if is_post rq then handle_transition_site en rq rid b p rd db else mux_reply 405 rid db
          else if a = ''sites'' \<and> c = ''clusters'' then
            if is_post rq then handle_create_cluster en rq rid b p rd db else mux_reply 405 rid db
          else if a = ''dispatch-plans'' \<and> c = ''submit'' then
            if is_post rq then handle_submit_plan sv en rq rid b p rd db else mux_reply 405 rid db
          else if a = ''dispatch-plans'' \<and> c = ''approve'' then
            if is_post rq then handle_approve_plan en rq rid b p rd db else mux_reply 405 rid db
          else if a = ''dispatch-plans'' \<and> c = ''dispatch'' then
            if is_post rq then handle_dispatch_plan en rq rid b p rd db else mux_reply 405 rid db
          else if a = ''alarms'' \<and> c = ''acknowledge'' then
            if is_post rq then handle_acknowledge_alarm en rq rid b p rd db else mux_reply 405 rid db
          else if a = ''alarms'' \<and> c = ''resolve'' then
            if is_post rq then handle_resolve_alarm sv en rq rid b p rd db else mux_reply 405 rid db
          else mux_reply 404 rid db
      | _ \<Rightarrow> mux_reply 404 rid db)"

text \<open>
  \<open>Middleware.Authenticate\<close> in front of the protected routes: the handler finds the principal in the
  context, next to the request identifier of \<open>Middleware.Request\<close>.
\<close>

definition with_authentication ::
    "http_server \<Rightarrow> env \<Rightarrow> http_request \<Rightarrow> string
     \<Rightarrow> (principal option \<Rightarrow> database \<Rightarrow> database \<times> http_response) \<Rightarrow> database \<Rightarrow> database \<Rightarrow> database \<times> http_response" where
  "with_authentication sv en rq rid handler rd db =
     (case authenticate en (sv_libs sv) (sv_auth sv) rd db (bearer_token (rq_authorization rq)) of
        (db', Inl e) \<Rightarrow> (db', error_response rq rid e)
      | (db', Inr p) \<Rightarrow> handler (context_principal (with_principal (with_request_id [] rid) p)) db')"

text \<open>
  The outer multiplexer: the requests to \<open>/v1/\<close>, which it hands to \<open>Authenticate\<close>, and all others.
  The more specific pattern of the login comes first.
\<close>

definition protected_route :: "http_request \<Rightarrow> bool" where
  "protected_route rq \<longleftrightarrow> \<not> path_redirected rq \<and> (case route_path rq of
       [] \<Rightarrow> False
     | a # rest \<Rightarrow> a = ''v1'' \<and> rest \<noteq> [] \<and> \<not> (rest = [''auth'', ''login''] \<and> is_post rq))"

definition serve_public ::
    "http_server \<Rightarrow> env \<Rightarrow> go_error option \<Rightarrow> http_request \<Rightarrow> string \<Rightarrow> database \<Rightarrow> database \<Rightarrow> database \<times> http_response" where
  "serve_public sv en failed rq rid rd db =
     (if path_redirected rq then mux_reply 301 rid db
      else case route_path rq of
        [] \<Rightarrow> mux_reply 404 rid db
      | a # rest \<Rightarrow>
          if a = ''healthz'' \<and> rest = [] then
            if is_get rq then handle_health (en_now en 0) rid db else mux_reply 405 rid db
          else if a = ''readyz'' \<and> rest = [] then
            if is_get rq then handle_readiness failed rq rid db else mux_reply 405 rid db
          else if a = ''v1'' \<and> rest = [''auth'', ''login''] \<and> is_post rq then handle_login sv en rq rid rd db
          else if a = ''v1'' \<and> rest = [] then mux_reply 301 rid db
          else mux_reply 404 rid db)"

definition serve_routes ::
    "http_server \<Rightarrow> (nat \<Rightarrow> env) \<Rightarrow> go_error option \<Rightarrow> http_request \<Rightarrow> string \<Rightarrow> database \<Rightarrow> database \<times> http_response" where
  "serve_routes sv ens failed rq rid db =
     (if protected_route rq
      then with_authentication sv (ens 0) rq rid (\<lambda>p db. serve_protected sv ens rq rid p db db) db db
      else serve_public sv (ens 0) failed rq rid db db)"

text \<open>
  \<open>Middleware.Request\<close>: the request identifier and the recovery of panics; a panic of a handler is
  an error value of the model, whose response is the one \<open>recover\<close> writes.
\<close>

definition serve ::
    "http_server \<Rightarrow> (nat \<Rightarrow> env) \<Rightarrow> go_error option \<Rightarrow> string res \<Rightarrow> http_request \<Rightarrow> database \<Rightarrow> database \<times> http_response" where
  "serve sv ens failed random rq db = serve_routes sv ens failed rq (request_id_from random (rq_request_id rq)) db"

section \<open>Every request keeps what the statements keep\<close>

lemma respond_fst [simp]: "fst (respond rq rid st body x) = fst x"
  by (simp add: respond_def split_beta)

lemmas handler_defs = handle_login_def handle_logout_def handle_create_site_def handle_list_sites_def
  handle_transition_site_def handle_create_cluster_def handle_create_plan_def handle_get_plan_def
  handle_list_plans_def handle_submit_plan_def handle_approve_plan_def handle_dispatch_plan_def
  handle_record_telemetry_def handle_acknowledge_alarm_def handle_resolve_alarm_def
  handle_batch_acknowledge_def handle_health_def handle_readiness_def plan_version_action_def
  alarm_version_action_def mux_reply_def

text \<open>Walking through the routes: what holds of every branch holds of the choice.\<close>

lemma route_if: "(c \<Longrightarrow> Q (fst x)) \<Longrightarrow> (\<not> c \<Longrightarrow> Q (fst y)) \<Longrightarrow> Q (fst (if c then x else y))"
  by simp

lemma route_list: "Q (fst x) \<Longrightarrow> (\<And>a as. Q (fst (f a as))) \<Longrightarrow> Q (fst (case xs of [] \<Rightarrow> x | a # as \<Rightarrow> f a as))"
  by (cases xs) auto

context statement_frame
begin

lemma checked_keeps_fst: "ok db \<Longrightarrow> (\<And>x. r = Inr x \<Longrightarrow> ok (fst (k x))) \<Longrightarrow> ok (fst (checked r db k))"
  by (cases r) auto

lemma services_keep:
  assumes "ok db"
  shows "ok (fst (login en lib s rd db li))" "ok (fst (logout en db p req))"
    "ok (fst (authenticate en lib s rd db token))"
    "ok (fst (create_site en ll db p ns req))" "ok (fst (transition_site en rd db p sid st v req))"
    "ok (fst (create_cluster en rd db p nc req))" "ok (fst (create_plan en rd db p np req))"
    "ok (fst (submit_plan en visit rd db p sp req))" "ok (fst (approve_plan en rd db p sid v req))"
    "ok (fst (dispatch_plan en rd db p sid v req))" "ok (fst (record_telemetry en th rd db p rd' req))"
    "ok (fst (acknowledge_alarm en rd db p sid v req))" "ok (fst (resolve_alarm en th rd db p sid v req))"
    "ok (fst (acknowledge_batch ens db p ids vs req))"
  using assms by (metis call_login prod.collapse, metis call_logout prod.collapse, metis call_authenticate prod.collapse,
      metis call_create_site prod.collapse, metis call_transition_site prod.collapse,
      metis call_create_cluster prod.collapse, metis call_create_plan prod.collapse,
      metis call_submit_plan prod.collapse, metis call_approve_plan prod.collapse,
      metis call_dispatch_plan prod.collapse, metis call_telemetry prod.collapse,
      metis call_acknowledge prod.collapse, metis call_resolve prod.collapse,
      auto simp: acknowledge_batch_def split: prod.splits dest: call_acknowledge_each)

lemma handlers_keep:
  assumes "ok db"
  shows "ok (fst (handle_login sv en rq rid rd db))" "ok (fst (handle_logout en rq rid p db))"
    "ok (fst (handle_create_site sv en rq rid p db))" "ok (fst (handle_list_sites en rq rid p rd db))"
    "ok (fst (handle_transition_site en rq rid b p rd db))" "ok (fst (handle_create_cluster en rq rid b p rd db))"
    "ok (fst (handle_create_plan sv en rq rid p rd db))" "ok (fst (handle_get_plan en rq rid b p rd db))"
    "ok (fst (handle_list_plans en rq rid p rd db))" "ok (fst (handle_submit_plan sv en rq rid b p rd db))"
    "ok (fst (handle_approve_plan en rq rid b p rd db))" "ok (fst (handle_dispatch_plan en rq rid b p rd db))"
    "ok (fst (handle_record_telemetry sv en rq rid p rd db))" "ok (fst (handle_acknowledge_alarm en rq rid b p rd db))"
    "ok (fst (handle_resolve_alarm sv en rq rid b p rd db))" "ok (fst (handle_batch_acknowledge ens rq rid p db))"
    "ok (fst (handle_health now rid db))" "ok (fst (handle_readiness failed rq rid db))"
    "ok (fst (mux_reply st rid db))"
  using assms by (auto simp: handler_defs split_beta intro!: checked_keeps_fst services_keep)

lemma serve_protected_keeps:
  assumes "ok db"
  shows "ok (fst (serve_protected sv ens rq rid p rd db))"
  unfolding serve_protected_def Let_def
  by (intro route_if [where Q = ok] route_list [where Q = ok] handlers_keep assms)

lemma serve_public_keeps:
  assumes "ok db"
  shows "ok (fst (serve_public sv en failed rq rid rd db))"
  unfolding serve_public_def by (intro route_if [where Q = ok] route_list [where Q = ok] handlers_keep assms)

lemma serve_keeps:
  assumes "ok db"
  shows "ok (fst (serve sv ens failed random rq db))"
proof -
  have "ok (fst (with_authentication sv en rq rid (\<lambda>p db. serve_protected sv ens rq rid p db db) rd db))" for en rid rd
    using services_keep(3) [OF assms, of en "sv_libs sv" "sv_auth sv" rd "bearer_token (rq_authorization rq)"]
    by (auto simp: with_authentication_def split: prod.split sum.split intro!: serve_protected_keeps)
  then show ?thesis unfolding serve_def serve_routes_def by (simp add: serve_public_keeps assms)
qed

end

section \<open>Statuses\<close>

lemma error_response_status: "rs_status (error_response rq rid e) \<in> {400, 401, 403, 404, 409, 500, 503}"
  using write_error_status [of "rq_ended rq" rid e] by (simp add: error_response_def split_beta Let_def)

lemma respond_status: "rs_status (snd (respond rq rid st body x)) \<in> {st, 400, 401, 403, 404, 409, 500, 503}"
  using error_response_status by (auto simp: respond_def split: prod.split sum.split)

section \<open>Requests without a valid session\<close>

lemma serve_without_token:
  assumes "route_path rq = ''v1'' # rest" "rest \<noteq> []" "\<not> (rest = [''auth'', ''login''] \<and> is_post rq)"
    and "bearer_token (rq_authorization rq) = ''''" "rq_ended rq = None"
  shows "serve sv ens failed random rq db = (db, \<lparr>rs_status = if path_redirected rq then 301 else 401,
    rs_request_id = request_id_from random (rq_request_id rq),
    rs_body = if path_redirected rq then MuxBody
      else ErrorBody \<lparr>ae_code = ''authentication_required'', ae_message = ''valid authentication is required'',
        ae_request_id = request_id_from random (rq_request_id rq), ae_fields = None\<rparr>\<rparr>)"
proof (cases "path_redirected rq")
  case True
  then show ?thesis by (simp add: serve_def serve_routes_def protected_route_def serve_public_def mux_reply_def)
next
  case False
  then have prot: "protected_route rq" using assms(1-3) by (auto simp: protected_route_def)
  have "authenticate en lib s db db '''' = (db, Inl err_unauthorized)" for en lib s
    by (simp add: authenticate_def)
  then have auth: "with_authentication sv en rq rid h db db = (db, error_response rq rid err_unauthorized)" for en rid h
    using assms(4) by (simp add: with_authentication_def)
  show ?thesis
    using False assms(5)
    by (simp add: serve_def serve_routes_def prot auth error_response_def write_error_def err_unauthorized_def
        new_fault_def http_status_def code_of_def public_message_def fields_of_def)
qed

section \<open>What an auditor's requests can change\<close>

text \<open>The records of the business are in the same state: only sessions and audit events may differ.\<close>

definition same_records :: "database \<Rightarrow> database \<Rightarrow> bool" where
  "same_records db db' \<longleftrightarrow> db'\<lparr>sessions := sessions db, audit_events := audit_events db\<rparr> = db"

lemma same_records_refl [simp]: "same_records db db"
  by (simp add: same_records_def)

lemma same_records_trans: "same_records a b \<Longrightarrow> same_records b c \<Longrightarrow> same_records a c"
  by (cases a; cases b; cases c) (simp add: same_records_def)

lemma same_records_sessions: "same_records db (db'\<lparr>sessions := xs\<rparr>) \<longleftrightarrow> same_records db db'"
  "same_records db (db'\<lparr>audit_events := es\<rparr>) \<longleftrightarrow> same_records db db'"
  by (simp_all add: same_records_def)

lemma authenticate_same: "same_records db (fst (authenticate en lib s rd db token))"
  by (simp add: authenticate_def checked_def touch_session_def via_def same_records_sessions Let_def
      split: sum.split prod.split bool.split option.split)

lemma audit_insert_same: "insert_audit e db = Inr db' \<Longrightarrow> same_records d db' \<longleftrightarrow> same_records d db"
  by (auto simp: insert_audit_Inr same_records_sessions)

lemma logout_same: "same_records db (fst (logout en db p req))"
proof (cases "logout en db p req")
  case (Pair d out)
  have "same_records db db1" if "revoke_session db sid t = Inr db1" for db1 sid t
    using that by (auto simp: revoke_session_Inr same_records_sessions)
  then have "same_records db d"
    using Pair by (auto simp: logout_def Let_def checked_def audit_insert_same split: sum.splits)
  with Pair show ?thesis by simp
qed

lemma auditor_denied:
  assumes "u_role (pr_user p) = RoleAuditor" "perm \<noteq> PermissionAuditRead"
  shows "\<exists>e. principal_require p perm = Inl e"
  using assms by (cases "principal_require p perm") (auto simp: role_allows_def granted_def)

lemma auditor_calls:
  assumes "u_role (pr_user p) = RoleAuditor"
  shows "fst (create_site en ll db p ns req) = db" "fst (transition_site en rd db p sid st v req) = db"
    "fst (create_cluster en rd db p nc req) = db" "fst (create_plan en rd db p np req) = db"
    "fst (submit_plan en visit rd db p sp req) = db" "fst (approve_plan en rd db p sid v req) = db"
    "fst (dispatch_plan en rd db p sid v req) = db" "fst (record_telemetry en th rd db p rd' req) = db"
    "fst (acknowledge_alarm en rd db p sid v req) = db" "fst (resolve_alarm en th rd db p sid v req) = db"
    "fst (acknowledge_batch ens db p ids vs req) = db"
proof -
  note d = auditor_denied [OF assms]
  show "fst (create_site en ll db p ns req) = db" "fst (transition_site en rd db p sid st v req) = db"
    "fst (create_cluster en rd db p nc req) = db"
    using d [of PermissionSiteManage] by (auto simp: create_site_def transition_site_def create_cluster_def)
  show "fst (create_plan en rd db p np req) = db" "fst (submit_plan en visit rd db p sp req) = db"
    using d [of PermissionPlanWrite] by (auto simp: create_plan_def submit_plan_def)
  show "fst (approve_plan en rd db p sid v req) = db"
    using d [of PermissionPlanApprove] by (auto simp: approve_plan_def)
  show "fst (dispatch_plan en rd db p sid v req) = db"
    using d [of PermissionPlanDispatch] by (auto simp: dispatch_plan_def)
  show "fst (record_telemetry en th rd db p rd' req) = db"
    using d [of PermissionTelemetryWrite] by (auto simp: record_telemetry_def)
  show "fst (acknowledge_alarm en rd db p sid v req) = db" "fst (resolve_alarm en th rd db p sid v req) = db"
    using d [of PermissionAlarmManage] by (auto simp: acknowledge_alarm_def resolve_alarm_def)
  have "\<not> role_allows (u_role (pr_user p)) PermissionAlarmManage"
    using assms by (simp add: role_allows_def granted_def)
  then show "fst (acknowledge_batch ens db p ids vs req) = db"
    using acknowledge_each_guarded by (auto simp: acknowledge_batch_def split: prod.splits)
qed

lemma checked_fst_same: "(\<And>x. r = Inr x \<Longrightarrow> fst (k x) = db) \<Longrightarrow> fst (checked r db k) = db"
  by (cases r) auto

lemma auditor_handlers:
  assumes "u_role (pr_user p) = RoleAuditor"
  shows "same_records db (fst (handle_logout en rq rid (Some p) db))"
    "same_records db (fst (handle_create_site sv en rq rid (Some p) db))"
    "same_records db (fst (handle_list_sites en rq rid (Some p) rd db))"
    "same_records db (fst (handle_transition_site en rq rid b (Some p) rd db))"
    "same_records db (fst (handle_create_cluster en rq rid b (Some p) rd db))"
    "same_records db (fst (handle_create_plan sv en rq rid (Some p) rd db))"
    "same_records db (fst (handle_get_plan en rq rid b (Some p) rd db))"
    "same_records db (fst (handle_list_plans en rq rid (Some p) rd db))"
    "same_records db (fst (handle_submit_plan sv en rq rid b (Some p) rd db))"
    "same_records db (fst (handle_approve_plan en rq rid b (Some p) rd db))"
    "same_records db (fst (handle_dispatch_plan en rq rid b (Some p) rd db))"
    "same_records db (fst (handle_record_telemetry sv en rq rid (Some p) rd db))"
    "same_records db (fst (handle_acknowledge_alarm en rq rid b (Some p) rd db))"
    "same_records db (fst (handle_resolve_alarm sv en rq rid b (Some p) rd db))"
    "same_records db (fst (handle_batch_acknowledge ens rq rid (Some p) db))"
    "same_records db (fst (mux_reply st rid db))"
proof -
  have eq: "same_records db x" if "x = db" for x using that by simp
  show "same_records db (fst (handle_logout en rq rid (Some p) db))"
    by (simp add: handler_defs principal_or_error_def logout_same)
  show "same_records db (fst (handle_create_site sv en rq rid (Some p) db))"
    "same_records db (fst (handle_list_sites en rq rid (Some p) rd db))"
    "same_records db (fst (handle_transition_site en rq rid b (Some p) rd db))"
    "same_records db (fst (handle_create_cluster en rq rid b (Some p) rd db))"
    "same_records db (fst (handle_create_plan sv en rq rid (Some p) rd db))"
    "same_records db (fst (handle_get_plan en rq rid b (Some p) rd db))"
    "same_records db (fst (handle_list_plans en rq rid (Some p) rd db))"
    "same_records db (fst (handle_submit_plan sv en rq rid b (Some p) rd db))"
    "same_records db (fst (handle_approve_plan en rq rid b (Some p) rd db))"
    "same_records db (fst (handle_dispatch_plan en rq rid b (Some p) rd db))"
    "same_records db (fst (handle_record_telemetry sv en rq rid (Some p) rd db))"
    "same_records db (fst (handle_acknowledge_alarm en rq rid b (Some p) rd db))"
    "same_records db (fst (handle_resolve_alarm sv en rq rid b (Some p) rd db))"
    "same_records db (fst (handle_batch_acknowledge ens rq rid (Some p) db))"
    "same_records db (fst (mux_reply st rid db))"
    by (simp_all only: handler_defs principal_or_error_def respond_fst option.case checked_simps fst_conv split_beta Let_def)
      (rule eq, ((rule checked_fst_same)+)?, simp only: auditor_calls [OF assms] fst_conv)+
qed

lemma serve_auditor:
  assumes "route_path rq = ''v1'' # rest" "rest \<noteq> []" "\<not> (rest = [''auth'', ''login''] \<and> is_post rq)"
    and auth: "authenticate (ens 0) (sv_libs sv) (sv_auth sv) db db (bearer_token (rq_authorization rq)) = (db1, Inr p)"
    and role: "u_role (pr_user p) = RoleAuditor"
  shows "same_records db (fst (serve sv ens failed random rq db))"
proof (cases "path_redirected rq")
  case True
  then show ?thesis by (simp add: serve_def serve_routes_def protected_route_def serve_public_def mux_reply_def)
next
  case False
  have "same_records db1 (fst (serve_protected sv ens rq rid (Some p) db1 db1))" for rid
    unfolding serve_protected_def Let_def
    by (intro route_if [where Q = "same_records db1"] route_list [where Q = "same_records db1"] auditor_handlers [OF role])
  moreover have "same_records db db1" using authenticate_same auth by (metis fst_conv)
  ultimately have "same_records db (fst (serve_protected sv ens rq rid (Some p) db1 db1))" for rid
    by (blast intro: same_records_trans)
  moreover have "protected_route rq" using False assms(1-3) by (auto simp: protected_route_def)
  then have "serve sv ens failed random rq db
      = serve_protected sv ens rq (request_id_from random (rq_request_id rq)) (Some p) db1 db1"
    by (simp add: serve_def serve_routes_def with_authentication_def auth)
  ultimately show ?thesis by simp
qed

end
