(* ===== verification/Worker.thy ===== *)
theory Worker
  imports ServiceDispatch
begin

text \<open>
  \<open>internal/worker\<close>: the executor, which claims due jobs, sends each to the device gateway and
  reports the outcome, and the hourly removal of expired sessions.

  The gateway is an interface: what it answers for a job, and when, is an argument.  The goroutines
  of one cycle report in any order, the order \<open>schedule\<close>.
\<close>

definition err_permanent :: go_error where
  "err_permanent = Plain ''permanent device command failure''"

definition err_canceled :: go_error where
  "err_canceled = Plain ''context canceled''"

record executor =
  ex_owner :: string
  ex_interval :: duration
  ex_lease :: duration
  ex_timeout :: duration
  ex_backoff :: duration
  ex_batch :: i64
  ex_running :: bool

definition new_executor :: "string \<Rightarrow> duration \<Rightarrow> duration \<Rightarrow> i64 \<Rightarrow> executor" where
  "new_executor uuid interval lease batch = \<lparr>ex_owner = ''worker-'' @ uuid, ex_interval = interval,
     ex_lease = lease, ex_timeout = go_div lease 2, ex_backoff = second, ex_batch = batch, ex_running = False\<rparr>"

text \<open>The guard of \<open>Run\<close>: one loop per executor.\<close>

definition run_begin :: "executor \<Rightarrow> executor res" where
  "run_begin ex = (if ex_running ex then Inl (Plain ''executor already running'') else Inr (ex\<lparr>ex_running := True\<rparr>))"

definition run_end :: "executor \<Rightarrow> executor" where
  "run_end ex = ex\<lparr>ex_running := False\<rparr>"

definition job_report :: "executor \<Rightarrow> job \<Rightarrow> go_error option \<Rightarrow> time \<Rightarrow> job res" where
  "job_report ex j outcome now =
     (case outcome of
        None \<Rightarrow> job_succeed j (ex_owner ex) now
      | Some e \<Rightarrow>
          let retryable = \<not> error_is e err_permanent \<and> \<not> error_is e err_canceled in
          job_fail j (ex_owner ex) (Some e) retryable now (ex_backoff ex))"

text \<open>\<open>execute\<close>: a report that is not allowed, or that the database refuses, is only logged.\<close>

definition execute :: "env \<Rightarrow> executor \<Rightarrow> go_error option \<Rightarrow> time \<Rightarrow> job \<Rightarrow> database \<Rightarrow> database" where
  "execute en ex outcome now j db =
     (case job_report ex j outcome now of
        Inl _ \<Rightarrow> db
      | Inr changed \<Rightarrow> settle db (via en ''sqlite.CompleteJob'' (complete_job db changed (j_version j))))"

definition process_once ::
    "env \<Rightarrow> executor \<Rightarrow> (string \<Rightarrow> bool) \<Rightarrow> (job list \<Rightarrow> job list) \<Rightarrow> (job \<Rightarrow> go_error option) \<Rightarrow> (job \<Rightarrow> time)
     \<Rightarrow> database \<Rightarrow> database \<times> unit res" where
  "process_once en ex refused schedule gateway clock db =
     checked (map_error (\<lambda>e. Wrapping (''claim jobs: '' @ error_text e) e)
       (claim_jobs (en_tx en) refused db (ex_owner ex) (ex_batch ex) (en_now en 0) (ex_lease ex))) db (\<lambda>(db, claimed).
     (fold (\<lambda>j. execute en ex (gateway j) (clock j) j) (schedule claimed) db, Inr ()))"

text \<open>One tick of \<open>Maintenance.Run\<close>.\<close>

definition maintenance_tick :: "env \<Rightarrow> database \<Rightarrow> database" where
  "maintenance_tick en db = fst (cleanup en db)"

section \<open>The loops\<close>

text \<open>
  \<open>Executor.Run\<close> claims and executes once and then again at each tick until its context ends; a
  failed cycle is only logged.  One cycle has its inputs: what the gateway answers for a job and after
  how long the clock is read for its report, how long the cycle takes, and how late the loop wakes up
  for the tick after it; \<open>meanwhile\<close> is what other calls do to the database before that.
\<close>

record cycle =
  cy_env :: env
  cy_refused :: "string \<Rightarrow> bool"
  cy_schedule :: "job list \<Rightarrow> job list"
  cy_gateway :: "job \<Rightarrow> go_error option"
  cy_delay :: "job \<Rightarrow> duration"
  cy_took :: duration
  cy_late :: duration
  cy_meanwhile :: "database \<Rightarrow> database"

definition cycle_env :: "time \<Rightarrow> cycle \<Rightarrow> env" where
  "cycle_env start c = (cy_env c)\<lparr>en_now := (\<lambda>_. start)\<rparr>"

lemma cycle_env_simps [simp]: "en_now (cycle_env start c) k = start" "en_tx (cycle_env start c) = en_tx (cy_env c)"
  "en_driver (cycle_env start c) = en_driver (cy_env c)"
  by (simp_all add: cycle_env_def)

definition executor_cycle :: "executor \<Rightarrow> time \<Rightarrow> cycle \<Rightarrow> database \<Rightarrow> database" where
  "executor_cycle ex start c db = cy_meanwhile c
     (fst (process_once (cycle_env start c) ex (cy_refused c) (cy_schedule c) (cy_gateway c)
       (\<lambda>j. start + cy_delay c j) db))"

text \<open>
  The ticker ticks once in each interval after its creation, and its channel holds one tick: a cycle
  starts at the first tick after the start of the cycle before it, or, when that has passed by the
  end of the cycle before it, at once.
\<close>

definition next_tick :: "time \<Rightarrow> duration \<Rightarrow> time \<Rightarrow> time" where
  "next_tick created interval now = created + ((now - created) div interval + 1) * interval"

definition next_start :: "executor \<Rightarrow> time \<Rightarrow> time \<Rightarrow> cycle \<Rightarrow> time" where
  "next_start ex created start c = max (start + cy_took c) (next_tick created (ex_interval ex) start) + cy_late c"

fun cycle_starts :: "executor \<Rightarrow> time \<Rightarrow> time \<Rightarrow> cycle list \<Rightarrow> time list" where
  "cycle_starts ex created start [] = []"
| "cycle_starts ex created start (c # cs) = start # cycle_starts ex created (next_start ex created start c) cs"

definition timed_cycles :: "executor \<Rightarrow> time \<Rightarrow> cycle list \<Rightarrow> (time \<times> cycle) list" where
  "timed_cycles ex created cs = zip (cycle_starts ex created created cs) cs"

definition executor_run ::
    "executor \<Rightarrow> time \<Rightarrow> cycle \<Rightarrow> cycle list \<Rightarrow> go_error \<Rightarrow> database \<Rightarrow> executor \<times> database \<times> go_error" where
  "executor_run ex created first ticks ended db =
     (case run_begin ex of
        Inl e \<Rightarrow> (ex, db, e)
      | Inr running \<Rightarrow>
          (run_end running, fold (\<lambda>(start, c). executor_cycle running start c) (timed_cycles running created (first # ticks)) db, ended))"

lemma timed_cycles_mem: "(start, c) \<in> set (timed_cycles ex created cs) \<Longrightarrow> c \<in> set cs"
  unfolding timed_cycles_def by (rule set_zip_rightD)

lemma cycle_starts_running [simp]: "cycle_starts (ex\<lparr>ex_running := r\<rparr>) created start cs = cycle_starts ex created start cs"
  by (induction cs arbitrary: start) (simp_all add: next_start_def)

text \<open>\<open>StopAndWait\<close>: the open reports end before the deadline, or not.\<close>

definition stop_and_wait :: "bool \<Rightarrow> go_error \<Rightarrow> go_error option" where
  "stop_and_wait reported deadline = (if reported then None else Some deadline)"

text \<open>\<open>LocalGateway\<close> answers after 5 ms, unless the context ends first.\<close>

definition local_gateway :: "go_error option \<Rightarrow> job \<Rightarrow> go_error option" where
  "local_gateway ended j = ended"

text \<open>\<open>Maintenance.Run\<close>: one cleanup for each tick.\<close>

definition maintenance_run :: "(env \<times> (database \<Rightarrow> database)) list \<Rightarrow> go_error \<Rightarrow> database \<Rightarrow> database \<times> go_error" where
  "maintenance_run ticks ended db = (fold (\<lambda>(en, meanwhile) db. meanwhile (maintenance_tick en db)) ticks db, ended)"

section \<open>One report\<close>

lemma settle_via: "settle db (via en op r) = db \<or> r = Inr (settle db (via en op r))"
  by (cases r) (auto simp: settle_def via_def split: option.split)

text \<open>A report leaves the database as it is or completes the job.\<close>

lemma execute_cases:
  obtains "execute en ex outcome now j db = db"
  | k where "job_report ex j outcome now = Inr k"
      "complete_job db k (j_version j) = Inr (execute en ex outcome now j db)"
proof (cases "job_report ex j outcome now")
  case (Inr k)
  then show thesis
    using that settle_via [of db en "''sqlite.CompleteJob''" "complete_job db k (j_version j)"]
    by (auto simp: execute_def)
qed (simp add: execute_def that)

context statement_frame
begin

lemma reported: "ok db \<Longrightarrow> ok (execute en ex outcome at j db)"
  by (rule execute_cases [of en ex outcome at j db]) (auto dest: job_report)

end

lemmas execute_keys = key_laws.reported

lemma job_report_frame: "job_report ex j outcome now = Inr k \<Longrightarrow>
    j_id k = j_id j \<and> j_plan_id k = j_plan_id j \<and> j_cluster_id k = j_cluster_id j
    \<and> j_version k = incr64 (j_version j) \<and> j_attempts k = j_attempts j \<and> j_max_attempts k = j_max_attempts j
    \<and> j_lease_owner k = '''' \<and> j_lease_until k = None
    \<and> verify_lease j (ex_owner ex) now = Inr ()"
  by (auto simp: job_report_def job_succeed_Inr job_fail_Inr Let_def split: option.splits if_splits)

text \<open>
  Which status a report leads to: success; another attempt while attempts are left and the failure
  is not final; otherwise a permanent failure.
\<close>

lemma job_report_status:
  assumes "job_report ex j outcome now = Inr k"
  shows "j_status k =
    (case outcome of None \<Rightarrow> JobSucceeded
     | Some e \<Rightarrow> if \<not> error_is e err_permanent \<and> \<not> error_is e err_canceled \<and> j_attempts j < j_max_attempts j
         then JobRetryable else JobPermanentFailure)"
  using assms by (auto simp: job_report_def job_succeed_Inr job_fail_Inr Let_def split: option.splits)

lemma execute_row:
  assumes ok: "keys_ok db" and row: "find_key j_id (j_id j) (jobs db) = Some old" "j_version old = j_version j"
    and rep: "job_report ex j outcome now = Inr k" and fits: "0 \<le> j_attempts j" "0 < j_max_attempts old"
    and quiet: "en_driver en ''sqlite.CompleteJob'' = None"
  shows "execute en ex outcome now j db
    = db\<lparr>jobs := update_where (\<lambda>r. j_id r = j_id j) (assign_job k) (jobs db)\<rparr>"
proof -
  note f = job_report_frame [OF rep]
  have "job_row_violation (assign_job k old) = None"
    using f fits by (simp add: job_row_violation_def assign_job_def)
  then have "complete_job db k (j_version j) = Inr (db\<lparr>jobs := update_where (\<lambda>r. j_id r = j_id j) (assign_job k) (jobs db)\<rparr>)"
    using f row by (simp add: complete_job_Inr [OF ok])
  then show ?thesis by (simp add: execute_def rep via_def quiet settle_def)
qed

text \<open>A report on a row that has moved on changes nothing.\<close>

lemma execute_stale:
  assumes ok: "keys_ok db" and stale: "\<And>old. find_key j_id (j_id j) (jobs db) = Some old \<Longrightarrow> j_version old \<noteq> j_version j"
  shows "execute en ex outcome now j db = db"
proof (rule execute_cases [of en ex outcome now j db])
  fix k assume "job_report ex j outcome now = Inr k"
    "complete_job db k (j_version j) = Inr (execute en ex outcome now j db)"
  then show ?thesis using stale job_report_frame by (auto simp: complete_job_Inr [OF ok])
qed

section \<open>One cycle\<close>

lemma process_once_keys:
  assumes "keys_ok db" "process_once en ex refused schedule gateway clock db = (db', out)"
  shows "keys_ok db'"
proof -
  have "keys_ok (fold (\<lambda>j. execute en ex (gateway j) (clock j) j) js d)" if "keys_ok d" for js d
    using that by (induction js arbitrary: d) (auto intro: execute_keys)
  then show ?thesis
    using assms by (auto simp: process_once_def checked_def split: sum.splits dest: claim_jobs_Inr(3))
qed

text \<open>
  The reports of one cycle touch different rows: what becomes of the row of a claimed job depends
  on its own outcome only, in whatever order the goroutines finish.
\<close>

lemma execute_other:
  assumes "keys_ok db" "i \<noteq> j_id j"
  shows "find_key j_id i (jobs (execute en ex outcome now j db)) = find_key j_id i (jobs db)"
proof (rule execute_cases [of en ex outcome now j db])
  fix k assume k: "job_report ex j outcome now = Inr k"
    and "complete_job db k (j_version j) = Inr (execute en ex outcome now j db)"
  then have "accepted (complete_job db k (j_version j)) = Some (execute en ex outcome now j db)" by simp
  from job_store.lookup_other [OF assms(1) this] show ?thesis using assms(2) job_report_frame [OF k] by simp
qed simp

lemma execute_fold_other:
  assumes "keys_ok db" "i \<notin> j_id ` set js"
  shows "find_key j_id i (jobs (fold (\<lambda>j. execute en ex (gateway j) (clock j) j) js db)) = find_key j_id i (jobs db)"
  using assms
proof (induction js arbitrary: db)
  case (Cons j js)
  then show ?case using execute_other [of db i j] execute_keys [of db] by auto
qed simp

lemma execute_fold_row:
  assumes "keys_ok db" "distinct (map j_id js)" "j \<in> set js" "find_key j_id (j_id j) (jobs db) = Some j"
    and "job_report ex j (gateway j) (clock j) = Inr k" "0 \<le> j_attempts j" "0 < j_max_attempts j"
    and "en_driver en ''sqlite.CompleteJob'' = None"
  shows "find_key j_id (j_id j) (jobs (fold (\<lambda>j. execute en ex (gateway j) (clock j) j) js db)) = Some (assign_job k j)"
  using assms
proof (induction js arbitrary: db)
  case (Cons i js)
  let ?d = "execute en ex (gateway i) (clock i) i db"
  show ?case
  proof (cases "i = j")
    case True
    have "find_key j_id (j_id j) (jobs ?d) = Some (assign_job k j)"
      using execute_row [OF Cons.prems(1,4) refl Cons.prems(5-8)] Cons.prems(4)
      by (simp add: True find_key_update_where)
    moreover have "j_id j \<notin> j_id ` set js" using Cons.prems(2) True by simp
    ultimately show ?thesis
      using execute_fold_other [OF execute_keys [OF Cons.prems(1)], of "j_id j" js] by simp
  next
    case False
    with Cons.prems have "j_id j \<noteq> j_id i" by (auto simp: image_iff)
    then have "find_key j_id (j_id j) (jobs ?d) = Some j"
      using execute_other [OF Cons.prems(1)] Cons.prems(4) by simp
    then show ?thesis using False Cons.prems Cons.IH [OF execute_keys [OF Cons.prems(1)]] by simp
  qed
qed simp

lemma process_once_row:
  assumes ok: "keys_ok db"
    and claim: "claim_jobs (en_tx en) refused db (ex_owner ex) (ex_batch ex) (en_now en 0) (ex_lease ex) = Inr (db1, claimed)"
    and run: "process_once en ex refused schedule gateway clock db = (db', out)"
    and perm: "mset (schedule claimed) = mset claimed"
    and j: "j \<in> set claimed" "job_report ex j (gateway j) (clock j) = Inr k"
    and quiet: "en_driver en ''sqlite.CompleteJob'' = None"
  shows "find_key j_id (j_id j) (jobs db') = Some (assign_job k j)"
proof -
  note c = claim_jobs_Inr [OF ok claim]
  let ?c = "claim_of refused (ex_owner ex) (en_now en 0) (ex_lease ex)"
  have jin: "j \<in> set (jobs db1)" using claimed_row(1) [OF ok claim j(1)] .
  from j(1) obtain i where "?c i = Some j" unfolding c(1) by (auto simp: List.map_filter_def)
  then have fits: "0 \<le> j_attempts j" "0 < j_max_attempts j"
    by (auto simp: claim_of_Some job_row_violation_def split: if_splits)
  have dist1: "distinct (map j_id (jobs db1))" using c(3) by (simp add: keys_ok_def)
  have cid: "\<And>i k. ?c i = Some k \<Longrightarrow> j_id k = j_id i" by (auto simp: claim_of_Some dest: job_lease_frame)
  have "map j_id (List.map_filter ?c xs) = map j_id (filter (\<lambda>i. ?c i \<noteq> None) xs)" for xs
    by (induction xs) (auto simp: List.map_filter_simps cid simp del: not_None_eq split: option.split)
  then have "distinct (map j_id claimed)"
    unfolding c(1) using claim_candidates_sub(2) [OF ok] by (simp add: distinct_map_filter del: not_None_eq)
  then have "distinct (map j_id (schedule claimed))"
    using perm by (metis mset_map mset_eq_imp_distinct_iff)
  moreover have "j \<in> set (schedule claimed)" using perm j(1) by (metis set_mset_mset)
  moreover have "find_key j_id (j_id j) (jobs db1) = Some j" by (rule find_key_in_set [OF dist1 jin])
  ultimately have "find_key j_id (j_id j) (jobs (fold (\<lambda>j. execute en ex (gateway j) (clock j) j) (schedule claimed) db1))
      = Some (assign_job k j)"
    by (rule execute_fold_row [where gateway = gateway and clock = clock, OF c(3) _ _ _ j(2) fits quiet])
  moreover have "db' = fold (\<lambda>j. execute en ex (gateway j) (clock j) j) (schedule claimed) db1"
    using run by (simp add: process_once_def claim map_error_def)
  ultimately show ?thesis by simp
qed

section \<open>The loops keep the keys\<close>

lemma executor_run_keys:
  assumes "keys_ok db" "\<And>c db. c \<in> set (first # ticks) \<Longrightarrow> keys_ok db \<Longrightarrow> keys_ok (cy_meanwhile c db)"
    and "executor_run ex created first ticks ended db = (ex', db', e)"
  shows "keys_ok db'"
proof -
  have loop: "keys_ok (fold (\<lambda>(start, c). executor_cycle r start c) tcs db)" if "keys_ok db"
    "\<And>start c db. (start, c) \<in> set tcs \<Longrightarrow> keys_ok db \<Longrightarrow> keys_ok (cy_meanwhile c db)" for r tcs db
    using that
  proof (induction tcs arbitrary: db)
    case (Cons tc tcs)
    obtain start c where tc: "tc = (start, c)" by (cases tc)
    have "keys_ok (executor_cycle r start c db)"
      unfolding executor_cycle_def
      by (rule Cons.prems(2) [of start], simp add: tc) (rule process_once_keys [OF Cons.prems(1) surjective_pairing])
    from Cons.IH [OF this] Cons.prems(2)
    have "keys_ok (fold (\<lambda>(start, c). executor_cycle r start c) tcs (executor_cycle r start c db))" by (meson list.set_intros(2))
    then show ?case by (simp add: tc)
  qed simp
  have "db' = db \<or> (\<exists>r. db' = fold (\<lambda>(start, c). executor_cycle r start c) (timed_cycles r created (first # ticks)) db)"
    using assms(3) unfolding executor_run_def by (cases "run_begin ex") auto
  then show ?thesis using loop [OF assms(1)] assms(1,2) timed_cycles_mem by blast
qed

text \<open>While one loop of an executor runs, a second one is refused; when it has returned, the next may start.\<close>

lemma executor_run_guard:
  "ex_running ex \<Longrightarrow> executor_run ex created first ticks ended db = (ex, db, Plain ''executor already running'')"
  "\<not> ex_running ex \<Longrightarrow> fst (executor_run ex created first ticks ended db) = ex"
  by (simp_all add: executor_run_def run_begin_def run_end_def)

text \<open>
  A lease that is shorter than a second or longer than ten minutes is outside the policy of
  \<open>Job.Lease\<close>: with it no job is ever claimed.
\<close>

lemma claims_nothing:
  assumes "keys_ok db" "claim_jobs tx refused db owner limit now d = Inr (db', claimed)" "d < second \<or> 10 * minute < d"
  shows "claimed = [] \<and> db' = db"
proof -
  have none: "claim_of refused owner now d = (\<lambda>j. None)"
    using assms(3) by (auto simp: claim_of_def job_lease_def Let_def fun_eq_iff)
  then have "List.map_filter (claim_of refused owner now d) js = []" for js by (induction js) (auto simp: List.map_filter_simps)
  moreover have "after_claim (claim_of refused owner now d) S = id" for S
    by (auto simp: none after_claim_def fun_eq_iff)
  ultimately show ?thesis using claim_jobs_Inr(1,2) [OF assms(1,2)] by simp
qed

end
