(* ===== verification/System.thy ===== *)
theory System
  imports HttpServer Worker
begin

text \<open>
  The running program: requests, worker cycles and maintenance in any interleaving, over one
  database.

  \<open>action rd db db'\<close> is one call whose queries were answered from \<open>rd\<close> and which wrote when the
  database was \<open>db\<close>; \<open>run h\<close> says that \<open>h\<close> is the history of the database, the newest state first.
  The queries of one call are answered one after the other while other calls write, so \<open>rd\<close> need
  not be a state of the run: it is a glimpse, in which each row was there at some time, possibly each
  at a time of its own.  Only the reservations of a plan, which one query lists, come from one state.

  A call outside a transaction has one statement that writes, and after it a statement of its own for
  the event in the audit log.  Other calls may write between the two: then the call is one in whose
  environment the second statement fails, and the event is an action of its own, \<open>a_audit\<close>.
\<close>

section \<open>Actions\<close>

definition env_ok :: "env \<Rightarrow> bool" where
  "env_ok en \<longleftrightarrow> (\<forall>k. \<not> blank (en_uuid en k))"

inductive action :: "database \<Rightarrow> database \<Rightarrow> database \<Rightarrow> bool" for rd db db' where
  a_bootstrap: "bootstrap en lib rd db nu = (db', out) \<Longrightarrow> action rd db db'"
| a_login: "login en lib au rd db li = (db', out) \<Longrightarrow> action rd db db'"
| a_authenticate: "authenticate en lib au rd db token = (db', out) \<Longrightarrow> action rd db db'"
| a_logout: "logout en db p req = (db', out) \<Longrightarrow> action rd db db'"
| a_cleanup: "cleanup en db = (db', out) \<Longrightarrow> action rd db db'"
| a_create_site: "create_site en ll db p ns req = (db', out) \<Longrightarrow> action rd db db'"
| a_transition_site: "transition_site en rd db p sid st v req = (db', out) \<Longrightarrow> action rd db db'"
| a_create_cluster: "env_ok en \<Longrightarrow> create_cluster en rd db p nc req = (db', out) \<Longrightarrow> action rd db db'"
| a_create_plan: "create_plan en rd db p np req = (db', out) \<Longrightarrow> action rd db db'"
| a_submit_plan: "visits_all visit \<Longrightarrow> length (sp_cluster_ids sp) \<le> 4000000000000 \<Longrightarrow>
    submit_plan en visit rd db p sp req = (db', out) \<Longrightarrow> action rd db db'"
| a_approve_plan: "approve_plan en rd db p pid v req = (db', out) \<Longrightarrow> action rd db db'"
| a_dispatch_plan: "dispatch_plan en rd db p pid v req = (db', out) \<Longrightarrow> action rd db db'"
| a_record_telemetry: "record_telemetry en th rd db p rd_in req = (db', out) \<Longrightarrow> action rd db db'"
| a_acknowledge: "acknowledge_alarm en rd db p aid v req = (db', out) \<Longrightarrow> action rd db db'"
| a_resolve: "resolve_alarm en th rd db p aid v req = (db', out) \<Longrightarrow> action rd db db'"
| a_create_period: "create_period en db p sid start finish = (db', out) \<Longrightarrow> action rd db db'"
| a_close_period: "calculate_and_close en rd db p pid v price req = (db', out) \<Longrightarrow> action rd db db'"
| a_complete_request: "complete_request en db r st body = (db', out) \<Longrightarrow> action rd db db'"
| a_insert_idempotency: "insert_idempotency db r = Inr db' \<Longrightarrow> action rd db db'"
| a_expire_idempotency: "delete_expired_idempotency db now = Inr (db', n) \<Longrightarrow> action rd db db'"
| a_claim: "claim_jobs tx refused db owner limit now d = Inr (db', claimed) \<Longrightarrow> action rd db db'"
| a_audit: "insert_audit e db = Inr db' \<Longrightarrow> action rd db db'"
| a_report: "j \<in> set (jobs rd) \<Longrightarrow> db' = execute en ex outcome now j db \<Longrightarrow> action rd db db'"

definition seen_rows :: "database list \<Rightarrow> (database \<Rightarrow> 'r list) \<Rightarrow> database \<Rightarrow> bool" where
  "seen_rows h table rd \<longleftrightarrow> (\<forall>row \<in> set (table rd). \<exists>d \<in> set h. row \<in> set (table d))"

definition glimpse :: "database list \<Rightarrow> database \<Rightarrow> bool" where
  "glimpse h rd \<longleftrightarrow> seen_rows h users rd \<and> seen_rows h sessions rd \<and> seen_rows h sites rd \<and> seen_rows h clusters rd
     \<and> seen_rows h plans rd \<and> seen_rows h jobs rd \<and> seen_rows h snapshots rd \<and> seen_rows h alarms rd
     \<and> seen_rows h periods rd \<and> seen_rows h entries rd \<and> seen_rows h idempotency_keys rd \<and> seen_rows h audit_events rd
     \<and> (\<exists>d \<in> set h. reservations rd = reservations d)"

lemma glimpse_state: "rd \<in> set h \<Longrightarrow> glimpse h rd"
  by (auto simp: glimpse_def seen_rows_def)

inductive run :: "database list \<Rightarrow> bool" where
  run_start: "run [empty_database]"
| run_step: "run (db # h) \<Longrightarrow> glimpse (db # h) rd \<Longrightarrow> action rd db db' \<Longrightarrow> run (db' # db # h)"

lemma run_next: "run (db # h) \<Longrightarrow> action db db db' \<Longrightarrow> run (db' # db # h)"
  by (rule run.run_step) (auto intro: glimpse_state)

inductive_cases action_elim: "action rd db db'"

inductive_cases run_step_elim: "run (d # e # h)"

lemma run_suffix: "run (ds @ h) \<Longrightarrow> h \<noteq> [] \<Longrightarrow> run h"
proof (induction ds)
  case (Cons d ds)
  then show ?case by (cases "ds @ h") (auto elim: run_step_elim)
qed simp

lemma run_nonempty: "run h \<Longrightarrow> h \<noteq> []"
  by (induction rule: run.induct) auto

section \<open>What every run keeps\<close>

text \<open>Only three calls touch the idempotency records.\<close>

definition idempotency_call :: "database \<Rightarrow> database \<Rightarrow> bool" where
  "idempotency_call db db' \<longleftrightarrow> (\<exists>en r st body out. complete_request en db r st body = (db', out))
     \<or> (\<exists>r. insert_idempotency db r = Inr db') \<or> (\<exists>now n. delete_expired_idempotency db now = Inr (db', n))"

context statement_frame
begin

lemma action_frame: "action rd db db' \<Longrightarrow> ok db \<Longrightarrow> ok db' \<or> idempotency_call db db'"
proof (induction rule: action.induct)
  case (a_report j en ex outcome now)
  then show ?case by (simp add: reported)
next
  case (a_complete_request en r st body out)
  then show ?case unfolding idempotency_call_def by blast
next
  case (a_insert_idempotency r)
  then show ?case unfolding idempotency_call_def by blast
next
  case (a_expire_idempotency now n)
  then show ?case unfolding idempotency_call_def by blast
qed (rule disjI1 | assumption | erule (1) call_login call_authenticate call_logout call_cleanup call_bootstrap call_create_site
    call_transition_site call_create_cluster call_create_plan call_submit_plan call_approve_plan call_dispatch_plan
    call_telemetry call_acknowledge event call_resolve call_create_period call_close_period claimed
  | rule call_login call_bootstrap)+

end

context statement_kept
begin

lemma action_keeps: "action rd db db' \<Longrightarrow> ok db \<Longrightarrow> ok db'"
proof (induction rule: action.induct)
  case (a_report j en ex outcome now)
  then show ?case by (simp add: reported)
qed (assumption | erule (1) call_login call_authenticate call_logout call_cleanup call_bootstrap call_create_site
    call_transition_site call_create_cluster call_create_plan call_submit_plan call_approve_plan call_dispatch_plan
    call_telemetry call_acknowledge event call_resolve call_create_period call_close_period call_complete idempotency
    idempotency_clean claimed
  | rule call_login call_bootstrap)+

end

context statement_laws
begin

lemma run_keeps: "run h \<Longrightarrow> db \<in> set h \<Longrightarrow> ok db"
proof (induction arbitrary: db rule: run.induct)
  case run_start
  then show ?case by (simp add: start)
next
  case (run_step db1 h rd db2)
  then show ?case using action_keeps by auto
qed

end

lemmas action_keys = key_laws.action_keeps
lemmas run_keys = key_laws.run_keeps

end
