(* ===== verification/SystemCore.thy ===== *)
theory SystemCore
  imports System
begin

text \<open>
  What any call does to the part of the database that carries the capacity accounting and the
  plans: an abstract specification with nine kinds of steps besides the silent one, and the proof that every action of
  the program is one of them, whatever was written between its queries and its statements.
\<close>

section \<open>The core of the database\<close>

definition core :: "database \<Rightarrow> site list \<times> plan list \<times> cluster list \<times> reservation list \<times> job list" where
  "core db = (sites db, plans db, clusters db, reservations db, jobs db)"

lemma core_frame [simp]:
  "core (db\<lparr>users := a\<rparr>) = core db" "core (db\<lparr>sessions := b\<rparr>) = core db"
  "core (db\<lparr>snapshots := d\<rparr>) = core db" "core (db\<lparr>alarms := e\<rparr>) = core db"
  "core (db\<lparr>periods := f\<rparr>) = core db" "core (db\<lparr>entries := g\<rparr>) = core db"
  "core (db\<lparr>idempotency_keys := h\<rparr>) = core db" "core (db\<lparr>audit_events := i\<rparr>) = core db"
  by (simp_all add: core_def)

definition job_pair :: "job \<Rightarrow> string \<times> string" where
  "job_pair j = (j_plan_id j, j_cluster_id j)"

text \<open>
  The steps.  \<open>rd\<close> is the database a call queried: the conditions say which of the rows it saw it
  relies on.
\<close>

inductive core_step :: "database \<Rightarrow> database \<Rightarrow> database \<Rightarrow> bool" for rd db db' where
  quiet: "core db' = core db \<Longrightarrow> core_step rd db db'"
| jobs_reported: "core db' = (sites db, plans db, clusters db, reservations db, rows) \<Longrightarrow>
    map job_pair rows = map job_pair (jobs db) \<Longrightarrow> core_step rd db db'"
| site_added: "site_ok s \<Longrightarrow> s_reserved s = 0 \<Longrightarrow> s_version s = 1 \<Longrightarrow> s_id s \<notin> s_id ` set (sites db) \<Longrightarrow>
    core db' = (sites db @ [s], plans db, clusters db, reservations db, jobs db) \<Longrightarrow> core_step rd db db'"
| site_moved: "find_key s_id sid (sites rd) = Some seen \<Longrightarrow> find_key s_id sid (sites db) = Some old \<Longrightarrow>
    s_version old = s_version seen \<Longrightarrow> site_transition seen target now = Inr changed \<Longrightarrow>
    core db' = (update_where (\<lambda>r. s_id r = sid) (assign_site changed) (sites db),
      plans db, clusters db, reservations db, jobs db) \<Longrightarrow> core_step rd db db'"
| cluster_added: "cluster_ok c \<Longrightarrow> \<not> blank (c_id c) \<Longrightarrow> c_id c \<notin> c_id ` set (clusters db) \<Longrightarrow>
    core db' = (sites db, plans db, clusters db @ [c], reservations db, jobs db) \<Longrightarrow> core_step rd db db'"
| cluster_measured: "0 \<le> soc \<Longrightarrow> soc \<le> 100 \<Longrightarrow> 0 < t_sequence snap \<Longrightarrow>
    core db' = (sites db, plans db, update_where (\<lambda>c. c_id c = cid) (advance snap soc) (clusters db),
      reservations db, jobs db) \<Longrightarrow> core_step rd db db'"
| plan_added: "plan_ok p \<Longrightarrow> p_status p = PlanDraft \<Longrightarrow> p_version p = 1 \<Longrightarrow> \<not> blank (p_created_by p) \<Longrightarrow>
    site_exists db (p_site_id p) \<Longrightarrow> p_id p \<notin> p_id ` set (plans db) \<Longrightarrow>
    core db' = (sites db, plans db @ [p], clusters db, reservations db, jobs db) \<Longrightarrow> core_step rd db db'"
| plan_submitted: "find_key p_id (p_id seen) (plans rd) = Some seen \<Longrightarrow> p_status seen = PlanDraft \<Longrightarrow>
    find_key p_id (p_id seen) (plans db) = Some old \<Longrightarrow> p_version old = p_version seen \<Longrightarrow>
    find_key s_id (p_site_id seen) (sites db) = Some owner \<Longrightarrow> s_status owner = StatusActive \<Longrightarrow>
    s_reserved owner + p_requested_kw seen \<le> s_grid_limit owner \<Longrightarrow>
    rs \<noteq> [] \<Longrightarrow> sum_list (map r_kw rs) = p_requested_kw seen \<Longrightarrow> distinct (map r_cluster_id rs) \<Longrightarrow>
    (\<And>r. r \<in> set rs \<Longrightarrow> r_plan_id r = p_id seen \<and> r_window r = p_window seen \<and> 0 < r_kw r
      \<and> r_status r = ReservationHeld) \<Longrightarrow>
    (\<And>r. r \<in> set rs \<Longrightarrow> \<exists>c. find_key c_id (r_cluster_id r) (clusters rd) = Some c
      \<and> c_site_id c = p_site_id seen \<and> r_kw r \<le> c_rated_kw c) \<Longrightarrow>
    (\<And>r. r \<in> set rs \<Longrightarrow> \<exists>c. find_key c_id (r_cluster_id r) (clusters db) = Some c \<and> c_status c = ClusterAvailable) \<Longrightarrow>
    (\<And>r. r \<in> set rs \<Longrightarrow> \<not> reservation_conflict db (r_cluster_id r) (r_window r)) \<Longrightarrow>
    core db' = core (submitted_db (set_plan_status PlanSubmitted seen now) rs (p_site_id seen) (p_requested_kw seen) db) \<Longrightarrow>
    core_step rd db db'"
| plan_approved: "find_key p_id pid (plans rd) = Some seen \<Longrightarrow> find_key p_id pid (plans db) = Some old \<Longrightarrow>
    p_version old = p_version seen \<Longrightarrow> plan_approve seen actor (p_version seen) now = Inr changed \<Longrightarrow>
    core db' = (sites db, update_where (\<lambda>q. p_id q = pid) (assign_plan changed) (plans db),
      clusters db, reservations db, jobs db) \<Longrightarrow> core_step rd db db'"
| plan_dispatched: "find_key p_id pid (plans rd) = Some seen \<Longrightarrow> p_status seen = PlanApproved \<Longrightarrow>
    find_key p_id pid (plans db) = Some old \<Longrightarrow>
    rs = filter (\<lambda>r. r_plan_id r = pid) (reservations rd) \<Longrightarrow> rs \<noteq> [] \<Longrightarrow>
    set (map job_pair js) = set (map (\<lambda>r. (pid, r_cluster_id r)) rs) \<Longrightarrow> length js = length rs \<Longrightarrow>
    (\<And>j k. j \<in> set js \<Longrightarrow> k \<in> set (jobs db) \<Longrightarrow> job_pair j \<noteq> job_pair k) \<Longrightarrow>
    core db' = (sites db, update_where (\<lambda>q. p_id q = pid) (assign_plan_status (set_plan_status PlanDispatched seen now)) (plans db),
      clusters db, reservations db, jobs db @ js) \<Longrightarrow> core_step rd db db'"

inductive_cases core_step_elim: "core_step rd db db'"

section \<open>The calls that leave the core alone\<close>

lemma insert_audit_core: "insert_audit e db = Inr db' \<Longrightarrow> core db' = core db"
  by (auto simp: insert_audit_Inr)

lemma insert_user_core: "insert_user db u = Inr db' \<Longrightarrow> core db' = core db"
  by (auto simp: insert_user_Inr)

lemma update_user_core: "update_user db u e = Inr db' \<Longrightarrow> core db' = core db"
  by (auto simp: update_user_def)

lemma session_core:
  "insert_session db s = Inr db' \<Longrightarrow> core db' = core db"
  "revoke_session db sid now = Inr db' \<Longrightarrow> core db' = core db"
  "touch_session db sid now = Inr db' \<Longrightarrow> core db' = core db"
  "delete_expired_sessions db now = Inr (db', n) \<Longrightarrow> core db' = core db"
  by (auto simp: insert_session_Inr revoke_session_def touch_session_def delete_expired_sessions_def split: if_splits)

lemma audit_insert_core: "audit_insert en e db = Inr db' \<Longrightarrow> core db' = core db"
  by (auto simp: audit_insert_Inr dest: insert_audit_core)

lemma update_alarm_core: "update_alarm tx db a v e = Inr db' \<Longrightarrow> core db' = core db"
  by (auto simp: update_alarm_def update_alarm_row_def dest!: insert_audit_core)

lemma insert_period_core: "insert_period db pd = Inr db' \<Longrightarrow> core db' = core db"
  by (auto simp: insert_period_Inr)

lemma insert_entries_core: "insert_entries_atomic tx db pd v es e = Inr db' \<Longrightarrow> core db' = core db"
  by (auto simp: insert_entries_atomic_def update_period_row_def dest!: insert_audit_core insert_entries_frame)

lemma idempotency_core:
  "insert_idempotency db r = Inr db' \<Longrightarrow> core db' = core db"
  "complete_idempotency db r = Inr db' \<Longrightarrow> core db' = core db"
  "delete_expired_idempotency db now = Inr (db', n) \<Longrightarrow> core db' = core db"
  by (auto simp: insert_idempotency_Inr complete_idempotency_def delete_expired_idempotency_def Let_def)

lemmas statement_core = insert_audit_core insert_user_core update_user_core session_core audit_insert_core
  update_alarm_core insert_period_core insert_entries_core idempotency_core

lemma auth_core:
  "login en lib au rd db li = (db', lout) \<Longrightarrow> core db' = core db"
  "authenticate en lib au rd db token = (db', pout) \<Longrightarrow> core db' = core db"
  "logout en db p req = (db', uout) \<Longrightarrow> core db' = core db"
  "cleanup en db = (db', nout) \<Longrightarrow> core db' = core db"
  by (auto simp: login_def authenticate_def logout_def cleanup_def checked_def Let_def
      split: sum.splits if_splits option.splits prod.splits bool.splits dest!: statement_core)

lemma bootstrap_core: "bootstrap en lib rd db nu = (db', out) \<Longrightarrow> core db' = core db"
  by (auto simp: bootstrap_def checked_def Let_def split: sum.splits if_splits option.splits dest!: statement_core)

lemma operations_core:
  "acknowledge_alarm en rd db p aid v req = (db', aout) \<Longrightarrow> core db' = core db"
  "resolve_alarm en th rd db p aid v req = (db', aout) \<Longrightarrow> core db' = core db"
  "create_period en db p sid start finish = (db', pout) \<Longrightarrow> core db' = core db"
  "calculate_and_close en rd db p pid v price req = (db', cout) \<Longrightarrow> core db' = core db"
  "complete_request en db r st body = (db', uout) \<Longrightarrow> core db' = core db"
  by (auto simp: acknowledge_alarm_def resolve_alarm_def create_period_def calculate_and_close_def
      complete_request_def checked_def Let_def split: sum.splits if_splits option.splits dest!: statement_core)

section \<open>Every action is a step of the specification\<close>

text \<open>What the refinement needs of the database that was queried.\<close>

definition seen_ok :: "database \<Rightarrow> bool" where
  "seen_ok db \<longleftrightarrow> (\<forall>c \<in> set (clusters db). cluster_ok c \<and> \<not> blank (c_id c))
     \<and> (\<forall>p \<in> set (plans db). p_requested_kw p \<le> 10000000)"

lemma find_key_fresh: "\<not> list_ex (\<lambda>r. key r = k) rows \<Longrightarrow> k \<notin> key ` set rows"
  by (auto simp: list_ex_iff)

lemma site_calls_refine:
  assumes ok: "keys_ok db"
  shows "create_site en ll db p ns req = (db', out) \<Longrightarrow> core_step rd db db'"
    and "transition_site en rd db p sid st v req = (db', out2) \<Longrightarrow> core_step rd db db'"
    and "env_ok en \<Longrightarrow> create_cluster en rd db p nc req = (db', out3) \<Longrightarrow> core_step rd db db'"
proof -
  assume "create_site en ll db p ns req = (db', out)"
  then consider "db' = db" | s db1 where "site_create ll (en_uuid en 0) ns (en_now en 0) = Inr s"
      "insert_site db s = Inr db1" "core db' = core db1"
    by (auto simp: create_site_def checked_def split: sum.splits dest!: audit_insert_core)
  then show "core_step rd db db'"
  proof cases
    case 2
    have "s_id s \<notin> s_id ` set (sites db)"
      using 2(2) by (auto simp: insert_site_Inr site_violation_def list_ex_iff split: if_splits)
    moreover have "core db' = (sites db @ [s], plans db, clusters db, reservations db, jobs db)"
      using 2(2,3) by (auto simp: insert_site_Inr core_def)
    ultimately show ?thesis using site_create_ok [OF 2(1)] by (blast intro: core_step.site_added)
  qed (simp add: core_step.quiet)
next
  assume "transition_site en rd db p sid st v req = (db', out2)"
  then consider "db' = db" | seen changed db1 where "find_key s_id sid (sites rd) = Some seen" "s_version seen = v"
      "site_transition seen st (en_now en 0) = Inr changed" "update_site db changed v = Inr db1" "core db' = core db1"
    by (auto simp: transition_site_def site_by_id_def checked_def split: sum.splits if_splits dest!: audit_insert_core;
        metis)
  then show "core_step rd db db'"
  proof cases
    case 2
    have "s_id changed = sid" using 2(1,3) by (auto simp: site_transition_Inr dest: find_key_SomeD)
    with 2(4) obtain old where old: "find_key s_id sid (sites db) = Some old" "s_version old = v"
      and db1: "db1 = db\<lparr>sites := update_where (\<lambda>r. s_id r = sid) (assign_site changed) (sites db)\<rparr>"
      by (auto simp: update_site_Inr [OF ok])
    have "core db' = (update_where (\<lambda>r. s_id r = sid) (assign_site changed) (sites db),
        plans db, clusters db, reservations db, jobs db)" using 2(5) by (simp add: db1 core_def)
    from core_step.site_moved [OF 2(1) old(1) _ 2(3) this] show ?thesis by (simp add: old 2)
  qed (simp add: core_step.quiet)
next
  assume en: "env_ok en" and "create_cluster en rd db p nc req = (db', out3)"
  then consider "db' = db" | c db1 where "cluster_create (en_uuid en 0) nc (en_now en 0) = Inr c"
      "insert_cluster db c = Inr db1" "core db' = core db1"
    by (auto simp: create_cluster_def checked_def split: sum.splits if_splits dest!: audit_insert_core)
  then show "core_step rd db db'"
  proof cases
    case 2
    have "\<not> blank (c_id c)" using 2(1) en by (auto simp: cluster_create_def env_ok_def Let_def split: if_splits)
    moreover have "c_id c \<notin> c_id ` set (clusters db)"
      using 2(2) by (auto simp: insert_cluster_Inr cluster_violation_def list_ex_iff split: if_splits)
    moreover have "core db' = (sites db, plans db, clusters db @ [c], reservations db, jobs db)"
      using 2(2,3) by (auto simp: insert_cluster_Inr core_def)
    ultimately show ?thesis using cluster_create_ok [OF 2(1)] by (blast intro: core_step.cluster_added)
  qed (simp add: core_step.quiet)
qed

lemma telemetry_refines:
  assumes ok: "keys_ok db" and rec: "record_telemetry en th rd db p input req = (db', out)"
  shows "core_step rd db db'"
proof (cases out)
  case (Inl e)
  then show ?thesis using failed_calls_change_nothing(1) rec core_step.quiet by blast
next
  case (Inr r)
  with rec have r: "record_telemetry en th rd db p input req = (db', Inr r)" by simp
  show ?thesis
  proof (rule record_telemetry_Inr [OF ok r])
    fix seen c rows e
    assume snap: "new_snapshot (en_uuid en 0) input (en_now en 0) = Inr (tr_snapshot r)"
      and db': "db' = db\<lparr>snapshots := snapshots db @ [tr_snapshot r],
         clusters := update_where (\<lambda>c. c_id c = rd_cluster_id input)
           (advance (tr_snapshot r) (t_soc (tr_snapshot r))) (clusters db),
         alarms := rows, audit_events := audit_events db @ [stored_event e]\<rparr>"
    have "snapshot_ok (tr_snapshot r)" using new_snapshot_ok [OF snap] by simp
    moreover have "core db' = (sites db, plans db, update_where (\<lambda>c. c_id c = rd_cluster_id input)
        (advance (tr_snapshot r) (t_soc (tr_snapshot r))) (clusters db), reservations db, jobs db)"
      by (simp add: db' core_def)
    ultimately show ?thesis by (intro core_step.cluster_measured) (auto simp: snapshot_ok_def)
  qed
qed

lemma jobs_refine:
  assumes ok: "keys_ok db"
  shows "claim_jobs tx refused db owner limit now d = Inr (db', claimed) \<Longrightarrow> core_step rd db db'"
    and "db' = execute en ex outcome now j db \<Longrightarrow> core_step rd db db'"
proof -
  assume c: "claim_jobs tx refused db owner limit now d = Inr (db', claimed)"
  let ?f = "after_claim (claim_of refused owner now d) (set (claim_candidates db limit now))"
  have "core db' = (sites db, plans db, clusters db, reservations db, map ?f (jobs db))"
    by (simp add: claim_jobs_Inr(2) [OF ok c] core_def)
  then show "core_step rd db db'"
    by (rule core_step.jobs_reported) (simp add: job_pair_def after_claim_id)
next
  assume db': "db' = execute en ex outcome now j db"
  show "core_step rd db db'"
  proof (rule execute_cases [of en ex outcome now j db])
    assume "execute en ex outcome now j db = db"
    then show ?thesis by (simp add: db' core_step.quiet)
  next
    fix k assume "complete_job db k (j_version j) = Inr (execute en ex outcome now j db)"
    then have "core db' = (sites db, plans db, clusters db, reservations db,
        update_where (\<lambda>r. j_id r = j_id k) (assign_job k) (jobs db))"
      by (auto simp: db' complete_job_Inr [OF ok] core_def)
    then show ?thesis by (rule core_step.jobs_reported) (simp add: map_update_where job_pair_def)
  qed
qed


section \<open>The calls on plans\<close>

lemma create_plan_refines:
  assumes ok: "keys_ok db" and cr: "create_plan en rd db p np req = (db', out)"
  shows "core_step rd db db'"
proof -
  from cr consider "db' = db" | input q db1 where "plan_create (en_uuid en 0) input (en_now en 0) = Inr q"
      "insert_plan db q = Inr db1" "core db' = core db1"
    by (auto simp: create_plan_def checked_def Let_def split: sum.splits dest!: audit_insert_core; metis)
  then show ?thesis
  proof cases
    case 2
    note f = plan_create_fields [OF 2(1)]
    then have "q\<lparr>p_approved_by := nullable_string (p_approved_by q)\<rparr> = q" by (simp add: nullable_string_def)
    then have core: "core db' = (sites db, plans db @ [q], clusters db, reservations db, jobs db)"
      and v: "plan_violation db q = None"
      using 2(2,3) by (auto simp: insert_plan_Inr core_def)
    then have "site_exists db (p_site_id q)" "p_id q \<notin> p_id ` set (plans db)"
      by (auto simp: plan_violation_def plan_exists_def list_ex_iff split: if_splits)
    then show ?thesis using f core plan_create_ok [OF 2(1)] by (intro core_step.plan_added) auto
  qed (simp add: core_step.quiet)
qed

lemma approve_plan_refines:
  assumes ok: "keys_ok db" and ap: "approve_plan en rd db p pid v req = (db', out)"
  shows "core_step rd db db'"
proof -
  from ap consider "db' = db" | seen changed db1 where "find_key p_id pid (plans rd) = Some seen"
      "plan_approve seen (u_id (pr_user p)) v (en_now en 0) = Inr changed"
      "update_plan db changed v = Inr db1" "core db' = core db1"
    by (auto simp: approve_plan_def plan_by_id_def checked_def split: sum.splits dest!: audit_insert_core; metis)
  then show ?thesis
  proof cases
    case 2
    then have v: "v = p_version seen" and id: "p_id changed = pid"
      using find_key_SomeD [OF 2(1)] by (auto simp: plan_approve_Inr)
    from 2(3) obtain old where old: "find_key p_id pid (plans db) = Some old" "p_version old = v"
      and db1: "db1 = db\<lparr>plans := update_where (\<lambda>q. p_id q = pid) (assign_plan changed) (plans db)\<rparr>"
      by (auto simp: update_plan_Inr [OF ok] id)
    have "core db' = (sites db, update_where (\<lambda>q. p_id q = pid) (assign_plan changed) (plans db),
        clusters db, reservations db, jobs db)" using 2(4) by (simp add: db1 core_def)
    then show ?thesis using 2(1,2) old unfolding v by (intro core_step.plan_approved)
  qed (simp add: core_step.quiet)
qed

lemma dispatch_plan_refines:
  assumes ok: "keys_ok db" and ds: "dispatch_plan en rd db p pid v req = (db', out)"
  shows "core_step rd db db'"
proof (cases out)
  case (Inl e)
  then show ?thesis using dispatch_plan_atomic_failure ds core_step.quiet by blast
next
  case (Inr q)
  with ds have d: "dispatch_plan en rd db p pid v req = (db', Inr q)" by simp
  obtain plan :: plan and rs js now e dbs where
    plan: "find_key p_id pid (plans rd) = Some plan" "p_status plan = PlanApproved"
    and rs: "rs = reservations_by_plan rd pid" "rs \<noteq> []" "make_jobs en pid 0 rs = Inr js" "length js = length rs"
    and q: "q = set_plan_status PlanDispatched plan now" and aud: "insert_audit e dbs = Inr db'"
    and old: "\<exists>old. find_key p_id pid (plans db) = Some old \<and> p_version old = v"
    and dbs: "dbs = db\<lparr>jobs := jobs db @ js, plans := update_where (\<lambda>r. p_id r = pid) (assign_plan_status q) (plans db)\<rparr>"
    and new: "\<forall>j \<in> set js. \<forall>k \<in> set (jobs db). (j_plan_id j, j_cluster_id j) \<noteq> (j_plan_id k, j_cluster_id k)"
    by (rule dispatch_plan_Inr [OF ok d]) (rule that, assumption+)
  let ?rs = "filter (\<lambda>r. r_plan_id r = pid) (reservations rd)"
  have set_rs: "set rs = set ?rs" and len_rs: "length rs = length ?rs"
    using rs(1) by (simp_all add: reservations_by_plan_def)
  note mk = make_jobs_Inr [OF rs(3)]
  then have "\<forall>j \<in> set js. j_plan_id j = pid" by blast
  then have "map job_pair js = map (Pair pid) (map j_cluster_id js)" by (simp add: job_pair_def)
  also have "\<dots> = map (\<lambda>r. (pid, r_cluster_id r)) rs" using mk by simp
  finally have "set (map job_pair js) = set (map (\<lambda>r. (pid, r_cluster_id r)) ?rs)"
    by (simp add: set_rs)
  moreover have "?rs \<noteq> []" using rs(2) len_rs by auto
  moreover have "core db' = (sites db, update_where (\<lambda>r. p_id r = pid)
      (assign_plan_status (set_plan_status PlanDispatched plan now)) (plans db), clusters db, reservations db, jobs db @ js)"
    using insert_audit_core [OF aud] by (simp add: dbs core_def q)
  ultimately show ?thesis
    using plan old new rs(4) len_rs by (auto intro!: core_step.plan_dispatched [where rs = ?rs] simp: job_pair_def)
qed

lemma submit_plan_refines:
  assumes ok: "keys_ok db" and seen: "seen_ok rd" and visit: "visits_all visit"
    and len: "length (sp_cluster_ids sp) \<le> 4000000000000"
    and sub: "submit_plan en visit rd db p sp req = (db', out)"
  shows "core_step rd db db'"
proof (cases out)
  case (Inl e)
  then show ?thesis using submit_plan_atomic_failure sub core_step.quiet by blast
next
  case (Inr q)
  with sub have s: "submit_plan en visit rd db p sp req = (db', Inr q)" by simp
  obtain plan :: plan and owner :: site and cs shares rs e now where
    plan: "find_key p_id (sp_plan_id sp) (plans rd) = Some plan" "p_status plan = PlanDraft"
    and cs: "map c_id cs = sp_cluster_ids sp" "distinct (map c_id cs)" "cs \<noteq> []"
      "\<forall>c \<in> set cs. find_key c_id (c_id c) (clusters rd) = Some c \<and> c_site_id c = p_site_id plan"
    and alloc: "allocate_power (p_requested_kw plan) (visit 0 (ratings_of cs)) (visit 1 (ratings_of cs)) (visit 2 (ratings_of cs)) = Inr shares"
    and mk: "make_reservations en plan shares 0 cs = Inr rs"
    and q: "q = set_plan_status PlanSubmitted plan now"
    and body: "submit_body q (p_version plan) rs (p_site_id plan) (p_requested_kw plan) (s_version owner)
        (Some (insert_audit e)) db = Inr db'"
    by (rule submit_plan_Inr [OF ok s]) (rule that, assumption+)
  have id: "p_id plan = sp_plan_id sp" "p_id q = p_id plan" "plan \<in> set (plans rd)"
    using find_key_SomeD [OF plan(1)] by (simp_all add: q set_plan_status_def)
  have "p_requested_kw plan \<le> 10000000" using seen id(3) by (simp add: seen_ok_def)
  moreover have "\<forall>c \<in> set cs. cluster_ok c \<and> \<not> blank (c_id c)"
    using cs(4) seen by (auto simp: seen_ok_def dest: find_key_SomeD)
  moreover have "length cs \<le> 4000000000000" using cs(1) len by (metis length_map)
  ultimately have shares: "sum_list (map (share_of shares \<circ> c_id) cs) = p_requested_kw plan"
    "\<forall>c \<in> set cs. share_of shares (c_id c) \<le> c_rated_kw c"
    using submit_shares [OF _ cs(2) _ visit _ alloc] by auto
  note r = make_reservations_Inr [OF mk]
  have lens: "length rs = length cs" using r by (metis length_map)
  have seen_row: "\<exists>c. find_key c_id (r_cluster_id x) (clusters rd) = Some c \<and> c_site_id c = p_site_id plan
      \<and> r_kw x \<le> c_rated_kw c" if "x \<in> set rs" for x
  proof -
    from that obtain i where i: "i < length rs" "x = rs ! i" by (metis in_set_conv_nth)
    then have "r_cluster_id x = c_id (cs ! i)" "r_kw x = share_of shares (c_id (cs ! i))"
      using r lens by (metis nth_map, metis comp_apply nth_map)
    moreover have "cs ! i \<in> set cs" using i lens by simp
    ultimately show ?thesis using cs(4) shares(2) by auto
  qed
  note b = submit_body_Inr [OF ok body]
  then obtain old where old: "find_key p_id (p_id plan) (plans db) = Some old" "p_version old = p_version plan"
    using id(2) by auto
  from b obtain t where t: "find_key s_id (p_site_id plan) (sites db) = Some t" "s_status t = StatusActive"
      "s_reserved t + p_requested_kw plan \<le> s_grid_limit t"
    by (auto simp: site_has_room_def)
  have "core db' = core (submitted_db (set_plan_status PlanSubmitted plan now) rs (p_site_id plan) (p_requested_kw plan) db)"
    using b insert_audit_core q by blast
  moreover have "rs \<noteq> []" using cs(3) lens by auto
  ultimately show ?thesis
    using plan t b r shares(1) seen_row id old
    by (intro core_step.plan_submitted [where seen = plan and rs = rs and owner = t and old = old]) auto
qed

section \<open>The refinement\<close>

theorem action_refines:
  assumes "action rd db db'" "keys_ok db" "seen_ok rd"
  shows "core_step rd db db'"
  using assms
proof (induction rule: action.induct)
  case (a_submit_plan visit sp en p req out)
  then show ?case by (intro submit_plan_refines)
next
  case (a_create_cluster en p nc req out)
  then show ?case by (intro site_calls_refine(3))
next
  case (a_report j en ex outcome now)
  then show ?case by (intro jobs_refine(2))
qed (rule core_step.quiet, erule insert_audit_core bootstrap_core auth_core operations_core idempotency_core
    | rule site_calls_refine create_plan_refines approve_plan_refines dispatch_plan_refines telemetry_refines
        jobs_refine(1), assumption, assumption)+

end
