(* ===== verification/SystemInv.thy ===== *)
theory SystemInv
  imports SystemCore
begin

text \<open>
  The invariant of the running program: exact capacity accounting, exclusive clusters, plans that
  are reserved in full, approved by a second person and dispatched with a job for each reservation.
  It is proved of every state of every run, with calls that overlap in any way.
\<close>

section \<open>Rows of a table with a key\<close>

lemma update_row_cases:
  assumes "distinct (map key xs)" "find_key key k xs = Some x" "y \<in> set (update_where (\<lambda>y. key y = k) f xs)"
  shows "y = f x \<or> y \<in> set xs \<and> key y \<noteq> k"
proof -
  from assms(3) obtain z where z: "z \<in> set xs" "y = (if key z = k then f z else z)" by (auto simp: set_update_where)
  moreover have "z = x" if "key z = k"
    using row_unique [OF assms(1) z(1)] find_key_SomeD [OF assms(2)] that by simp
  ultimately show ?thesis by (auto split: if_splits)
qed

lemma update_row_mem:
  assumes "find_key key k xs = Some x"
  shows "f x \<in> set (update_where (\<lambda>y. key y = k) f xs)"
    "y \<in> set xs \<Longrightarrow> key y \<noteq> k \<Longrightarrow> y \<in> set (update_where (\<lambda>y. key y = k) f xs)"
  using find_key_SomeD [OF assms] by (auto simp: set_update_where)

lemma replaced_row:
  assumes "distinct (map key xs)" "find_key key k xs = Some x" "f x = q" "ys = update_where (\<lambda>y. key y = k) f xs"
  shows "y \<in> set ys \<Longrightarrow> y = q \<or> y \<in> set xs \<and> key y \<noteq> k" "q \<in> set ys"
    "y \<in> set xs \<Longrightarrow> key y \<noteq> k \<Longrightarrow> y \<in> set ys" "y \<in> set xs \<Longrightarrow> key y = k \<Longrightarrow> y = x"
proof -
  show "y \<in> set ys \<Longrightarrow> y = q \<or> y \<in> set xs \<and> key y \<noteq> k"
    using update_row_cases [OF assms(1,2)] unfolding assms(4) assms(3) [symmetric] by blast
  show "q \<in> set ys" using update_row_mem(1) [OF assms(2), of f] by (simp add: assms(3,4))
  show "y \<in> set xs \<Longrightarrow> key y \<noteq> k \<Longrightarrow> y \<in> set ys" using update_row_mem(2) [OF assms(2)] by (simp add: assms(4))
  show "y \<in> set xs \<Longrightarrow> key y = k \<Longrightarrow> y = x" using find_key_SomeD [OF assms(2)] row_unique [OF assms(1)] by metis
qed

lemma sum_update_row:
  fixes g :: "'a \<Rightarrow> int"
  assumes "distinct (map key xs)" "find_key key k xs = Some x"
  shows "sum_list (map g (update_where (\<lambda>y. key y = k) f xs)) = sum_list (map g xs) - g x + g (f x)"
  using assms
proof (induction xs)
  case (Cons y ys)
  show ?case
  proof (cases "key y = k")
    case True
    then have "\<forall>z \<in> set ys. key z \<noteq> k" using Cons.prems(1) by (auto simp: image_iff)
    then have "update_where (\<lambda>y. key y = k) f ys = ys" by (auto simp: update_where_def intro!: map_idI)
    with True Cons.prems show ?thesis by simp
  next
    case False
    with Cons show ?thesis by simp
  qed
qed simp

section \<open>The invariant\<close>

text \<open>The power of the plans of a site that hold capacity, and the power reserved for a plan.\<close>

definition booked :: "plan list \<Rightarrow> string \<Rightarrow> i64" where
  "booked ps sid = sum_list (map p_requested_kw (filter (\<lambda>p. p_site_id p = sid \<and> p_status p \<noteq> PlanDraft) ps))"

definition held_by :: "database \<Rightarrow> string \<Rightarrow> reservation list" where
  "held_by db pid = filter (\<lambda>r. r_plan_id r = pid) (reservations db)"

definition sites_inv :: "database \<Rightarrow> bool" where
  [inv_defs]: "sites_inv db \<longleftrightarrow> (\<forall>s \<in> set (sites db). site_ok s \<and> s_reserved s = booked (plans db) (s_id s))"

definition clusters_inv :: "database \<Rightarrow> bool" where
  [inv_defs]: "clusters_inv db \<longleftrightarrow> (\<forall>c \<in> set (clusters db). cluster_ok c \<and> \<not> blank (c_id c))"

definition live_plan :: "plan \<Rightarrow> bool" where
  [inv_defs]: "live_plan p \<longleftrightarrow> plan_ok p \<and> \<not> blank (p_created_by p)
     \<and> p_status p \<in> {PlanDraft, PlanSubmitted, PlanApproved, PlanDispatched}"

definition plans_inv :: "database \<Rightarrow> bool" where
  [inv_defs]: "plans_inv db \<longleftrightarrow> (\<forall>p \<in> set (plans db). live_plan p \<and> site_exists db (p_site_id p)
     \<and> (p_status p = PlanDraft \<longrightarrow> held_by db (p_id p) = [])
     \<and> (p_status p \<noteq> PlanDraft \<longrightarrow> held_by db (p_id p) \<noteq> []
          \<and> sum_list (map r_kw (held_by db (p_id p))) = p_requested_kw p)
     \<and> (p_status p = PlanDispatched \<longrightarrow>
          (\<forall>r \<in> set (held_by db (p_id p)). (p_id p, r_cluster_id r) \<in> job_pair ` set (jobs db))))"

text \<open>A reservation holds a cluster of the site of its plan, within the rating of the cluster.\<close>

definition holds :: "database \<Rightarrow> reservation \<Rightarrow> plan \<Rightarrow> cluster \<Rightarrow> bool" where
  "holds db r p c \<longleftrightarrow> p \<in> set (plans db) \<and> p_id p = r_plan_id r \<and> r_window r = p_window p
     \<and> c \<in> set (clusters db) \<and> c_id c = r_cluster_id r \<and> c_site_id c = p_site_id p
     \<and> r_kw r \<le> c_rated_kw c \<and> c_status c \<noteq> ClusterAvailable"

definition reservations_inv :: "database \<Rightarrow> bool" where
  [inv_defs]: "reservations_inv db \<longleftrightarrow> distinct (map r_cluster_id (reservations db))
     \<and> (\<forall>r \<in> set (reservations db). 0 < r_kw r \<and> r_status r = ReservationHeld \<and> (\<exists>p c. holds db r p c))"

text \<open>The versions of sites and plans count the calls of the run at most.\<close>

definition versions_upto :: "int \<Rightarrow> database \<Rightarrow> bool" where
  "versions_upto n db \<longleftrightarrow> (\<forall>s \<in> set (sites db). 1 \<le> s_version s \<and> s_version s \<le> n)
     \<and> (\<forall>p \<in> set (plans db). 1 \<le> p_version p \<and> p_version p \<le> n)"

section \<open>How the rows of a run grow\<close>

fun plan_rank :: "plan_status \<Rightarrow> nat" where
  "plan_rank PlanDraft = 0"
| "plan_rank PlanSubmitted = 1"
| "plan_rank PlanApproved = 2"
| "plan_rank PlanDispatched = 3"
| "plan_rank PlanRunning = 4"
| "plan_rank _ = 5"

definition site_grows :: "site \<Rightarrow> site \<Rightarrow> bool" where
  "site_grows s t \<longleftrightarrow> t = s \<or> (s_id t = s_id s \<and> s_version s < s_version t)"

definition plan_grows :: "plan \<Rightarrow> plan \<Rightarrow> bool" where
  "plan_grows p q \<longleftrightarrow> q = p \<or> (p_id q = p_id p \<and> p_version p < p_version q
     \<and> plan_rank (p_status p) < plan_rank (p_status q) \<and> p_site_id q = p_site_id p \<and> p_created_by q = p_created_by p
     \<and> p_requested_kw q = p_requested_kw p \<and> p_window q = p_window p)"

definition cluster_stays :: "cluster \<Rightarrow> cluster \<Rightarrow> bool" where
  "cluster_stays c d \<longleftrightarrow> c_id d = c_id c \<and> c_site_id d = c_site_id c \<and> c_rated_kw d = c_rated_kw c
     \<and> (c_status d = ClusterAvailable \<longrightarrow> c_status c = ClusterAvailable)"

definition grows :: "database \<Rightarrow> database \<Rightarrow> bool" where
  "grows d e \<longleftrightarrow> (\<forall>s \<in> set (sites d). \<exists>t \<in> set (sites e). site_grows s t)
     \<and> (\<forall>p \<in> set (plans d). \<exists>q \<in> set (plans e). plan_grows p q
          \<and> (p_status p \<noteq> PlanDraft \<longrightarrow> held_by e (p_id p) = held_by d (p_id p)))
     \<and> (\<forall>c \<in> set (clusters d). \<exists>c' \<in> set (clusters e). cluster_stays c c')
     \<and> set (reservations d) \<subseteq> set (reservations e)
     \<and> job_pair ` set (jobs d) \<subseteq> job_pair ` set (jobs e)"

lemma grows_site: "grows d e \<Longrightarrow> s \<in> set (sites d) \<Longrightarrow> \<exists>t. t \<in> set (sites e) \<and> site_grows s t"
  unfolding grows_def by blast

lemma grows_plan: "grows d e \<Longrightarrow> p \<in> set (plans d) \<Longrightarrow> \<exists>q. q \<in> set (plans e) \<and> plan_grows p q
    \<and> (p_status p \<noteq> PlanDraft \<longrightarrow> held_by e (p_id p) = held_by d (p_id p))"
  unfolding grows_def by blast

lemma grows_cluster: "grows d e \<Longrightarrow> c \<in> set (clusters d) \<Longrightarrow> \<exists>c'. c' \<in> set (clusters e) \<and> cluster_stays c c'"
  unfolding grows_def by blast

lemma grows_refl [simp]: "grows d d"
  by (auto simp: grows_def site_grows_def plan_grows_def cluster_stays_def)

lemma grows_trans:
  assumes "grows a b" "grows b c"
  shows "grows a c"
proof -
  have "\<exists>t \<in> set (sites c). site_grows s t" if "s \<in> set (sites a)" for s
    using assms that unfolding grows_def site_grows_def by (smt (verit) order_less_trans)
  moreover have "\<exists>q \<in> set (plans c). plan_grows p q
      \<and> (p_status p \<noteq> PlanDraft \<longrightarrow> held_by c (p_id p) = held_by a (p_id p))" if "p \<in> set (plans a)" for p
  proof -
    from that assms(1) obtain q where q: "q \<in> set (plans b)" "plan_grows p q"
      "p_status p \<noteq> PlanDraft \<longrightarrow> held_by b (p_id p) = held_by a (p_id p)" using grows_plan by blast
    from q(1) assms(2) obtain r where r: "r \<in> set (plans c)" "plan_grows q r"
      "p_status q \<noteq> PlanDraft \<longrightarrow> held_by c (p_id q) = held_by b (p_id q)" using grows_plan by blast
    have "p_status q \<noteq> PlanDraft" "p_id q = p_id p" if "p_status p \<noteq> PlanDraft"
      using q(2) that by (auto simp: plan_grows_def)
    moreover have "plan_grows p r" using q(2) r(2) by (auto simp: plan_grows_def)
    ultimately show ?thesis using q(3) r by auto
  qed
  moreover have "\<exists>e \<in> set (clusters c). cluster_stays x e" if "x \<in> set (clusters a)" for x
    using assms that unfolding grows_def cluster_stays_def by (metis (no_types, lifting))
  moreover have "set (reservations a) \<subseteq> set (reservations c)" "job_pair ` set (jobs a) \<subseteq> job_pair ` set (jobs c)"
    using assms unfolding grows_def by (meson subset_trans)+
  ultimately show ?thesis unfolding grows_def by blast
qed

text \<open>
  What a call saw is behind the database it writes to: rows may have grown since, and the
  reservations of a plan may have been absent.
\<close>

definition behind :: "database \<Rightarrow> database \<Rightarrow> bool" where
  "behind rd db \<longleftrightarrow> (\<forall>s \<in> set (sites rd). \<exists>t \<in> set (sites db). site_grows s t)
     \<and> (\<forall>p \<in> set (plans rd). \<exists>q \<in> set (plans db). plan_grows p q)
     \<and> (\<forall>c \<in> set (clusters rd). \<exists>d \<in> set (clusters db). cluster_stays c d)
     \<and> (\<forall>pid. held_by rd pid = [] \<or> held_by db pid = held_by rd pid)"

text \<open>The version tells whether a row is still the one that was seen.\<close>

lemma site_unchanged:
  assumes "keys_ok db" "behind rd db" "find_key s_id sid (sites rd) = Some seen" "find_key s_id sid (sites db) = Some old"
    and "s_version old = s_version seen"
  shows "old = seen"
proof -
  from assms(2) find_key_SomeD [OF assms(3)]
  obtain t where t: "t \<in> set (sites db)" "site_grows seen t" unfolding behind_def by blast
  have "t = old"
    using row_unique [of s_id "sites db" t old] assms t find_key_SomeD [OF assms(3)] find_key_SomeD [OF assms(4)]
    by (auto simp: keys_ok_def site_grows_def)
  then show ?thesis using t(2) assms(5) by (simp add: site_grows_def)
qed

lemma plan_row_grown:
  assumes "keys_ok db" "behind rd db" "find_key p_id pid (plans rd) = Some seen" "find_key p_id pid (plans db) = Some old"
  shows "plan_grows seen old"
proof -
  from assms(2) find_key_SomeD [OF assms(3)]
  obtain q where q: "q \<in> set (plans db)" "plan_grows seen q" unfolding behind_def by blast
  have "q = old"
    using row_unique [of p_id "plans db" q old] assms q find_key_SomeD [OF assms(3)] find_key_SomeD [OF assms(4)]
    by (auto simp: keys_ok_def plan_grows_def)
  then show ?thesis using q(2) by simp
qed

lemma plan_unchanged:
  assumes "keys_ok db" "behind rd db" "find_key p_id pid (plans rd) = Some seen" "find_key p_id pid (plans db) = Some old"
    and "p_version old = p_version seen"
  shows "old = seen"
  using plan_row_grown [OF assms(1-4)] assms(5) by (auto simp: plan_grows_def)


section \<open>Each step keeps the invariant\<close>

definition core_inv :: "database \<Rightarrow> bool" where
  [inv_defs]: "core_inv db \<longleftrightarrow> sites_inv db \<and> clusters_inv db \<and> plans_inv db \<and> reservations_inv db"

lemmas inv_parts = core_inv_def sites_inv_def clusters_inv_def plans_inv_def reservations_inv_def

definition kept :: "int \<Rightarrow> database \<Rightarrow> database \<Rightarrow> bool" where
  "kept n db db' \<longleftrightarrow> core_inv db' \<and> versions_upto (n + 1) db' \<and> grows db db'"

lemma core_fields:
  assumes "core db = (a, b, c, d, e)"
  shows "sites db = a" "plans db = b" "clusters db = c" "reservations db = d" "jobs db = e"
  using assms by (simp_all add: core_def)

lemma grows_same [simp]: "site_grows s s" "plan_grows p p" "cluster_stays c c"
  by (simp_all add: site_grows_def plan_grows_def cluster_stays_def)

lemma grows_in [intro]: "s \<in> S \<Longrightarrow> \<exists>t \<in> S. site_grows s t" "p \<in> P \<Longrightarrow> \<exists>q \<in> P. plan_grows p q"
  "c \<in> C \<Longrightarrow> \<exists>d \<in> C. cluster_stays c d"
  using grows_same by blast+

lemma versions_upto_mono: "versions_upto n db \<Longrightarrow> n \<le> m \<Longrightarrow> versions_upto m db"
  by (auto simp: versions_upto_def)

lemma site_exists_iff: "site_exists db sid \<longleftrightarrow> sid \<in> s_id ` set (sites db)"
  by (auto simp: site_exists_def list_ex_iff)

lemma version_next: "1 \<le> v \<Longrightarrow> v \<le> n \<Longrightarrow> n < 9223372036854775807 \<Longrightarrow> incr64 v = v + 1"
  by (simp add: incr64_small in_i64_def)

lemma kept_quiet:
  assumes "core_inv db" "versions_upto n db" "core db' = core db"
  shows "kept n db db'"
proof -
  have f: "sites db' = sites db" "plans db' = plans db" "clusters db' = clusters db"
    "reservations db' = reservations db" "jobs db' = jobs db" using assms(3) by (simp_all add: core_def)
  have "grows db db'" unfolding grows_def held_by_def f by auto
  moreover have "core_inv db'"
    using assms(1) unfolding inv_parts site_exists_iff held_by_def holds_def f .
  ultimately show ?thesis using assms(2) by (auto simp: kept_def versions_upto_def f)
qed

lemma kept_jobs:
  assumes "core_inv db" "versions_upto n db" "core db' = (sites db, plans db, clusters db, reservations db, rows)"
    and "map job_pair rows = map job_pair (jobs db)"
  shows "kept n db db'"
proof -
  note f = core_fields [OF assms(3)]
  have j: "job_pair ` set (jobs db') = job_pair ` set (jobs db)"
    using assms(4) f by (metis list.set_map)
  have "grows db db'" unfolding grows_def held_by_def j using f by auto
  moreover have "core_inv db'"
    using assms(1) unfolding inv_parts site_exists_iff held_by_def holds_def j by (simp add: f)
  ultimately show ?thesis using assms(2) f by (auto simp: kept_def versions_upto_def)
qed

lemma booked_none: "(\<And>p. p \<in> set ps \<Longrightarrow> p_site_id p \<noteq> sid) \<Longrightarrow> booked ps sid = 0"
  by (auto simp: booked_def filter_empty_conv intro!: arg_cong [where f = sum_list, of _ "[]", simplified])

lemma kept_site_added:
  assumes inv: "core_inv db" and v: "versions_upto n db" "1 \<le> n" and s: "site_ok s" "s_reserved s = 0" "s_version s = 1"
    "s_id s \<notin> s_id ` set (sites db)"
    and c: "core db' = (sites db @ [s], plans db, clusters db, reservations db, jobs db)"
  shows "kept n db db'"
proof -
  note f = core_fields [OF c]
  have "p_site_id p \<noteq> s_id s" if "p \<in> set (plans db)" for p
    using inv s(4) that unfolding core_inv_def plans_inv_def site_exists_iff by metis
  then have "booked (plans db) (s_id s) = 0" by (rule booked_none)
  then have "core_inv db'"
    using inv s unfolding inv_parts site_exists_iff held_by_def holds_def by (simp add: f)
  moreover have "grows db db'" unfolding grows_def held_by_def using f by auto
  ultimately show ?thesis using v s by (auto simp: kept_def versions_upto_def f)
qed

lemma kept_cluster_added:
  assumes inv: "core_inv db" and v: "versions_upto n db" and new: "cluster_ok c" "\<not> blank (c_id c)"
    and c: "core db' = (sites db, plans db, clusters db @ [c], reservations db, jobs db)"
  shows "kept n db db'"
proof -
  note f = core_fields [OF c]
  have "holds db r p d \<Longrightarrow> holds db' r p d" for r p d by (simp add: holds_def f)
  then have "reservations_inv db'"
    using inv by (fastforce simp: core_inv_def reservations_inv_def f)
  then have "core_inv db'"
    using inv new by (simp add: core_inv_def sites_inv_def clusters_inv_def plans_inv_def site_exists_iff held_by_def f)
  moreover have "grows db db'" unfolding grows_def held_by_def using f by auto
  ultimately show ?thesis using v by (auto simp: kept_def versions_upto_def f)
qed

lemma kept_measured:
  assumes inv: "core_inv db" and v: "versions_upto n db" and soc: "0 \<le> soc" "soc \<le> 100" "0 < t_sequence snap"
    and c: "core db' = (sites db, plans db, update_where (\<lambda>c. c_id c = cid) (advance snap soc) (clusters db),
      reservations db, jobs db)"
  shows "kept n db db'"
proof -
  note f = core_fields [OF c]
  let ?u = "\<lambda>c. if c_id c = cid then advance snap soc c else c"
  have cl: "set (clusters db') = ?u ` set (clusters db)" by (simp add: f set_update_where)
  have ok: "cluster_ok c \<Longrightarrow> cluster_ok (advance snap soc c)" for c
    using soc by (simp add: cluster_ok_def advance_def)
  have stays: "cluster_stays c (?u c)" "c_id (?u c) = c_id c" for c
    by (simp_all add: cluster_stays_def advance_def)
  have "holds db r p d \<Longrightarrow> holds db' r p (?u d)" for r p d
    unfolding holds_def cl by (auto simp: f advance_def)
  then have "reservations_inv db'"
    using inv by (fastforce simp: core_inv_def reservations_inv_def f)
  moreover have "clusters_inv db'" using inv ok by (auto simp: core_inv_def clusters_inv_def cl)
  ultimately have "core_inv db'"
    using inv by (simp add: core_inv_def sites_inv_def plans_inv_def site_exists_iff held_by_def f)
  moreover have "\<exists>d \<in> set (clusters db'). cluster_stays c d" if "c \<in> set (clusters db)" for c
    unfolding cl using that stays(1) by blast
  then have "grows db db'" using f(1,2,4,5) by (auto simp: grows_def held_by_def)
  ultimately show ?thesis using v by (auto simp: kept_def versions_upto_def f)
qed

lemma kept_site_moved:
  assumes inv: "core_inv db" "keys_ok db" and v: "versions_upto n db" "n < 9223372036854775807"
    and g: "behind rd db" "find_key s_id sid (sites rd) = Some seen" "find_key s_id sid (sites db) = Some old"
      "s_version old = s_version seen"
    and tr: "site_transition seen target now = Inr changed"
    and c: "core db' = (update_where (\<lambda>r. s_id r = sid) (assign_site changed) (sites db),
      plans db, clusters db, reservations db, jobs db)"
  shows "kept n db db'"
proof -
  note f = core_fields [OF c]
  have old: "old = seen" by (rule site_unchanged [OF inv(2) g])
  have mem: "seen \<in> set (sites db)" "s_id seen = sid" using find_key_SomeD [OF g(3)] old by auto
  have ch: "assign_site changed seen = changed" "s_id changed = sid" "s_reserved changed = s_reserved seen"
    "s_version changed = incr64 (s_version seen)"
    using tr mem by (auto simp: site_transition_Inr assign_site_def)
  have dist: "distinct (map s_id (sites db))" using inv(2) by (simp add: keys_ok_def)
  have rows: "s = changed \<or> s \<in> set (sites db)" if "s \<in> set (sites db')" for s
    using update_row_cases [OF dist g(3)] that ch(1) unfolding f(1) old by fastforce
  have step: "site_step seen changed" using tr by (rule site_step.transition)
  have "site_ok changed" using inv(1) mem site_step_ok [OF _ step] by (auto simp: core_inv_def sites_inv_def)
  then have "sites_inv db'"
    using inv(1) mem ch unfolding core_inv_def sites_inv_def
    by (auto simp: f(2) dest!: rows)
  moreover have ids: "s_id ` set (sites db') = s_id ` set (sites db)"
    by (simp add: f flip: set_map) (simp add: map_update_where ch mem)
  ultimately have "core_inv db'"
    using inv(1) by (simp add: core_inv_def clusters_inv_def plans_inv_def reservations_inv_def site_exists_iff
        held_by_def holds_def f)
  moreover have vs: "incr64 (s_version seen) = s_version seen + 1"
    using v mem by (auto simp: versions_upto_def intro: version_next)
  then have "site_grows seen changed" using ch mem by (simp add: site_grows_def)
  then have "\<exists>t \<in> set (sites db'). site_grows s t" if "s \<in> set (sites db)" for s
    using that update_row_mem [OF g(3), where f = "assign_site changed"] row_unique [OF dist that mem(1)] mem(2)
    by (cases "s_id s = sid") (auto simp: f old ch)
  then have "grows db db'" using f by (auto simp: grows_def held_by_def)
  ultimately show ?thesis
    using v mem ch vs by (fastforce simp: kept_def versions_upto_def f(2) dest!: rows)
qed

section \<open>The steps on plans\<close>

definition booking :: "string \<Rightarrow> plan \<Rightarrow> i64" where
  "booking sid p = (if p_site_id p = sid \<and> p_status p \<noteq> PlanDraft then p_requested_kw p else 0)"

lemma booked_sum: "booked ps sid = sum_list (map (booking sid) ps)"
  by (induction ps) (auto simp: booked_def booking_def)

lemma booked_update:
  assumes "keys_ok db" "find_key p_id pid (plans db) = Some old"
  shows "booked (update_where (\<lambda>q. p_id q = pid) f (plans db)) sid
    = booked (plans db) sid - booking sid old + booking sid (f old)"
  using assms by (simp add: booked_sum keys_ok_def sum_update_row)

lemma held_by_unknown:
  assumes "core_inv db" "pid \<notin> p_id ` set (plans db)"
  shows "held_by db pid = []"
proof -
  have "r_plan_id r \<noteq> pid" if r: "r \<in> set (reservations db)" for r
  proof -
    from assms(1) r obtain p c where "holds db r p c" unfolding inv_parts by blast
    then show ?thesis using assms(2) by (force simp: holds_def)
  qed
  then show ?thesis by (simp add: held_by_def filter_empty_conv)
qed

lemma kept_plan_added:
  assumes inv: "core_inv db" and v: "versions_upto n db" "1 \<le> n" and p: "plan_ok p" "p_status p = PlanDraft" "p_version p = 1"
      "\<not> blank (p_created_by p)" "site_exists db (p_site_id p)" "p_id p \<notin> p_id ` set (plans db)"
    and c: "core db' = (sites db, plans db @ [p], clusters db, reservations db, jobs db)"
  shows "kept n db db'"
proof -
  note f = core_fields [OF c]
  have b: "booked (plans db') sid = booked (plans db) sid" for sid using p by (simp add: f booked_sum booking_def)
  have h: "held_by db' pid = held_by db pid" for pid by (simp add: held_by_def f)
  have "holds db r q d \<Longrightarrow> holds db' r q d" for r q d by (simp add: holds_def f)
  then have "reservations_inv db'" using inv by (fastforce simp: core_inv_def reservations_inv_def f)
  moreover have "plans_inv db'"
    using inv p held_by_unknown [OF inv p(6)]
    by (auto simp: core_inv_def plans_inv_def site_exists_iff live_plan_def h f)
  ultimately have "core_inv db'"
    using inv by (simp add: core_inv_def sites_inv_def clusters_inv_def b f(1,3))
  moreover have "grows db db'" unfolding grows_def h using f by auto
  ultimately show ?thesis using v p by (auto simp: kept_def versions_upto_def f)
qed

text \<open>Reservations hold on to their plan when its row is replaced by one that agrees on site and window.\<close>

lemma reservations_follow:
  assumes inv: "reservations_inv db"
    and fl: "clusters db' = clusters db" "reservations db' = reservations db"
    and pl: "\<And>p. p \<in> set (plans db) \<Longrightarrow> p_id p \<noteq> p_id q \<Longrightarrow> p \<in> set (plans db')" "q \<in> set (plans db')"
      "\<And>p. p \<in> set (plans db) \<Longrightarrow> p_id p = p_id q \<Longrightarrow> p_site_id q = p_site_id p \<and> p_window q = p_window p"
  shows "reservations_inv db'"
proof -
  have "\<exists>p c. holds db' r p c" if h: "holds db r p c" for r p c
  proof (cases "p_id p = p_id q")
    case True
    then have "holds db' r q c" using h pl(2,3) by (auto simp: holds_def fl)
    then show ?thesis by blast
  next
    case False
    then have "holds db' r p c" using h pl(1) by (auto simp: holds_def fl)
    then show ?thesis by blast
  qed
  then show ?thesis using inv unfolding reservations_inv_def fl by blast
qed

text \<open>A plan that holds capacity moves on; the jobs may grow.\<close>

lemma kept_plan_row:
  assumes inv: "core_inv db" "keys_ok db" and v: "versions_upto n db" "1 \<le> p_version q" "p_version q \<le> n + 1"
    and old: "find_key p_id pid (plans db) = Some old" "p_status old \<noteq> PlanDraft"
    and q: "f old = q" "live_plan q" "p_status q \<noteq> PlanDraft" "plan_grows old q"
    and js: "job_pair ` set (jobs db) \<subseteq> job_pair ` set js"
      "p_status q = PlanDispatched \<Longrightarrow> \<forall>r \<in> set (held_by db pid). (pid, r_cluster_id r) \<in> job_pair ` set js"
    and c: "core db' = (sites db, update_where (\<lambda>q. p_id q = pid) f (plans db), clusters db, reservations db, js)"
  shows "kept n db db'"
proof -
  note fl = core_fields [OF c] and o = inv(1) [unfolded core_inv_def]
  have mem: "old \<in> set (plans db)" "p_id old = pid" using find_key_SomeD [OF old(1)] by auto
  have same: "p_id q = pid" "p_site_id q = p_site_id old" "p_requested_kw q = p_requested_kw old" "p_window q = p_window old"
    using q(4) mem by (auto simp: plan_grows_def)
  have dist: "distinct (map p_id (plans db))" using inv(2) by (simp add: keys_ok_def)
  note rep = replaced_row [OF dist old(1) q(1) fl(2)]
  have b: "booked (plans db') sid = booked (plans db) sid" for sid
    using booked_update [OF inv(2) old(1), of f sid] old(2) q same by (simp add: fl booking_def)
  have h: "held_by db' i = held_by db i" for i by (simp add: held_by_def fl)
  have "reservations_inv db'"
    by (rule reservations_follow [where q = q, OF _ fl(3,4)])
      (use o rep same in \<open>auto simp: plan_grows_def\<close>)
  moreover have "plans_inv db'"
    unfolding plans_inv_def site_exists_iff h fl(1)
  proof
    fix p assume "p \<in> set (plans db')"
    note o = inv(1) [unfolded core_inv_def plans_inv_def site_exists_iff]
    from rep(1) [OF \<open>p \<in> set (plans db')\<close>]
    show "live_plan p \<and> p_site_id p \<in> s_id ` set (sites db) \<and> (p_status p = PlanDraft \<longrightarrow> held_by db (p_id p) = [])
      \<and> (p_status p \<noteq> PlanDraft \<longrightarrow> held_by db (p_id p) \<noteq> [] \<and> sum_list (map r_kw (held_by db (p_id p))) = p_requested_kw p)
      \<and> (p_status p = PlanDispatched \<longrightarrow> (\<forall>r \<in> set (held_by db (p_id p)). (p_id p, r_cluster_id r) \<in> job_pair ` set (jobs db')))"
    proof
      assume p: "p = q"
      from o mem old(2) have "p_site_id old \<in> s_id ` set (sites db)" "held_by db pid \<noteq> []"
        "sum_list (map r_kw (held_by db pid)) = p_requested_kw old" by auto
      then show ?thesis using q js(2) by (simp add: p same fl(5))
    next
      assume "p \<in> set (plans db) \<and> p_id p \<noteq> pid"
      then show ?thesis using o js(1) unfolding fl(5) by blast
    qed
  qed
  ultimately have "core_inv db'" using o by (simp add: core_inv_def sites_inv_def clusters_inv_def b fl(1,3))
  moreover have "\<exists>x \<in> set (plans db'). plan_grows p x" if "p \<in> set (plans db)" for p
    using that rep(2-4) q(4) by (cases "p_id p = pid") auto
  then have "grows db db'" unfolding grows_def h using js(1) by (auto simp: fl(1,3,4,5))
  ultimately show ?thesis
    using v by (fastforce simp: kept_def versions_upto_def fl(1) dest!: rep(1))
qed

lemma kept_plan_approved:
  assumes inv: "core_inv db" "keys_ok db" and v: "versions_upto n db" "n < 9223372036854775807"
    and g: "behind rd db" "find_key p_id pid (plans rd) = Some seen" "find_key p_id pid (plans db) = Some old"
      "p_version old = p_version seen"
    and ap: "plan_approve seen actor (p_version seen) now = Inr changed"
    and c: "core db' = (sites db, update_where (\<lambda>q. p_id q = pid) (assign_plan changed) (plans db),
      clusters db, reservations db, jobs db)"
  shows "kept n db db'"
proof -
  have old: "old = seen" by (rule plan_unchanged [OF inv(2) g])
  have mem: "seen \<in> set (plans db)" "p_id seen = pid" using find_key_SomeD [OF g(3)] old by auto
  then have live: "live_plan seen" using inv(1) by (auto simp: core_inv_def plans_inv_def)
  let ?q = "assign_plan changed seen"
  have q: "?q = seen\<lparr>p_status := PlanApproved, p_approved_by := nullable_string actor, p_approved_at := Some now,
      p_version := incr64 (p_version seen), p_updated_at := now\<rparr>" and st: "p_status seen = PlanSubmitted"
    "actor \<noteq> p_created_by seen"
    using ap by (auto simp: plan_approve_Inr assign_plan_def)
  have "nullable_string actor \<noteq> p_created_by seen"
    using st live by (auto simp: nullable_string_def live_plan_def blank_def)
  then have live': "live_plan ?q" using live st by (auto simp: q live_plan_def plan_ok_def)
  have vs: "1 \<le> p_version seen" "p_version seen \<le> n" using v mem by (auto simp: versions_upto_def)
  then have "incr64 (p_version seen) = p_version seen + 1" using v by (intro version_next)
  then show ?thesis
    using vs st mem live'
    by (intro kept_plan_row [OF inv v(1) _ _ g(3) _ _ live' _ _ _ _ c])
      (simp_all add: q old plan_grows_def)
qed

lemma kept_plan_dispatched:
  assumes inv: "core_inv db" "keys_ok db" and v: "versions_upto n db" "n < 9223372036854775807"
    and g: "behind rd db" "find_key p_id pid (plans rd) = Some seen" "find_key p_id pid (plans db) = Some old"
    and st: "p_status seen = PlanApproved" and rs: "rs = filter (\<lambda>r. r_plan_id r = pid) (reservations rd)" "rs \<noteq> []"
    and js: "set (map job_pair js) = set (map (\<lambda>r. (pid, r_cluster_id r)) rs)"
      "\<And>j k. j \<in> set js \<Longrightarrow> k \<in> set (jobs db) \<Longrightarrow> job_pair j \<noteq> job_pair k"
    and c: "core db' = (sites db, update_where (\<lambda>q. p_id q = pid) (assign_plan_status (set_plan_status PlanDispatched seen now)) (plans db),
      clusters db, reservations db, jobs db @ js)"
  shows "kept n db db'"
proof -
  have gr: "plan_grows seen old" and held: "held_by db pid = rs"
    using plan_row_grown [OF inv(2) g] g(1) rs by (auto simp: held_by_def behind_def)
  have mem: "old \<in> set (plans db)" "p_id old = pid" using find_key_SomeD [OF g(3)] by auto
  have old: "old = seen"
  proof (rule ccontr)
    assume "old \<noteq> seen"
    then have "2 < plan_rank (p_status old)" using gr st by (simp add: plan_grows_def)
    moreover have live: "live_plan old" using inv(1) mem by (auto simp: core_inv_def plans_inv_def)
    ultimately have "p_status old = PlanDispatched" by (auto simp: live_plan_def)
    then have "\<forall>r \<in> set rs. (pid, r_cluster_id r) \<in> job_pair ` set (jobs db)"
      using inv(1) mem held by (auto simp: core_inv_def plans_inv_def)
    moreover obtain r where "r \<in> set rs" using rs(2) by (cases rs) auto
    moreover have "(pid, r_cluster_id r) \<in> set (map (\<lambda>r. (pid, r_cluster_id r)) rs)" using \<open>r \<in> set rs\<close> by auto
    then have "(pid, r_cluster_id r) \<in> job_pair ` set js" unfolding js(1) [symmetric] by auto
    ultimately show False using js(2) by (metis imageE)
  qed
  then have live: "live_plan seen" using inv(1) mem by (auto simp: core_inv_def plans_inv_def)
  let ?q = "set_plan_status PlanDispatched seen now"
  have fq: "assign_plan_status ?q old = ?q" by (simp add: assign_plan_status_def set_plan_status_def old)
  have live': "live_plan ?q" using live st by (auto simp: live_plan_def plan_ok_def set_plan_status_def)
  have vs: "1 \<le> p_version seen" "p_version seen \<le> n" using v mem old by (auto simp: versions_upto_def)
  then have "incr64 (p_version seen) = p_version seen + 1" using v by (intro version_next)
  then have bounds: "1 \<le> p_version ?q" "p_version ?q \<le> n + 1" and grow: "plan_grows old ?q"
    using vs st by (simp_all add: old plan_grows_def set_plan_status_def)
  have cover: "\<forall>r \<in> set (held_by db pid). (pid, r_cluster_id r) \<in> job_pair ` set (jobs db @ js)"
  proof
    fix r assume "r \<in> set (held_by db pid)"
    then have "(pid, r_cluster_id r) \<in> set (map (\<lambda>r. (pid, r_cluster_id r)) rs)" by (auto simp: held)
    then show "(pid, r_cluster_id r) \<in> job_pair ` set (jobs db @ js)" unfolding js(1) [symmetric] by auto
  qed
  have more: "job_pair ` set (jobs db) \<subseteq> job_pair ` set (jobs db @ js)" by auto
  have drafts: "p_status old \<noteq> PlanDraft" "p_status ?q \<noteq> PlanDraft" using st old by (simp_all add: set_plan_status_def)
  show ?thesis
    by (rule kept_plan_row [OF inv v(1) bounds g(3) drafts(1) fq live' drafts(2) grow more cover c])
qed

lemma reservations_extended:
  assumes inv: "reservations_inv db" "keys_ok db" "behind rd db"
    and res: "reservations db' = reservations db @ rs"
    and cl: "set (clusters db') = (\<lambda>c. if c_id c \<in> r_cluster_id ` set rs then held now c else c) ` set (clusters db)"
    and pl: "\<And>p. p \<in> set (plans db) \<Longrightarrow> p_id p \<noteq> p_id q \<Longrightarrow> p \<in> set (plans db')" "q \<in> set (plans db')"
    and none: "held_by db (p_id q) = []" and dist: "distinct (map r_cluster_id rs)"
    and new: "\<And>r. r \<in> set rs \<Longrightarrow> r_plan_id r = p_id q \<and> r_window r = p_window q \<and> 0 < r_kw r \<and> r_status r = ReservationHeld"
      "\<And>r. r \<in> set rs \<Longrightarrow> \<exists>c. find_key c_id (r_cluster_id r) (clusters rd) = Some c
        \<and> c_site_id c = p_site_id q \<and> r_kw r \<le> c_rated_kw c"
      "\<And>r. r \<in> set rs \<Longrightarrow> \<exists>c. find_key c_id (r_cluster_id r) (clusters db) = Some c \<and> c_status c = ClusterAvailable"
  shows "reservations_inv db'"
proof -
  let ?held = "\<lambda>c. if c_id c \<in> r_cluster_id ` set rs then held now c else c"
  have unique: "c = d" if "c \<in> set (clusters db)" "d \<in> set (clusters db)" "c_id c = c_id d" for c d
    using row_unique [of c_id "clusters db" c d] inv(2) that by (simp add: keys_ok_def)
  have "r_cluster_id r \<noteq> r_cluster_id x" if r: "r \<in> set (reservations db)" and x: "x \<in> set rs" for r x
  proof
    assume eq: "r_cluster_id r = r_cluster_id x"
    from inv(1) r obtain p c where h: "holds db r p c" by (auto simp: reservations_inv_def)
    from new(3) [OF x] obtain d where d: "find_key c_id (r_cluster_id x) (clusters db) = Some d" "c_status d = ClusterAvailable"
      by blast
    have "c = d" using unique [of c d] h find_key_SomeD [OF d(1)] eq by (auto simp: holds_def)
    then show False using d(2) h by (simp add: holds_def)
  qed
  then have "distinct (map r_cluster_id (reservations db @ rs))"
    using inv(1) dist by (auto simp: reservations_inv_def)
  moreover have "\<exists>p c. holds db' r p c" if r: "r \<in> set (reservations db)" for r
  proof -
    from inv(1) r obtain p c where h: "holds db r p c" by (auto simp: reservations_inv_def)
    have "r_plan_id r \<noteq> p_id q" using none r by (auto simp: held_by_def filter_empty_conv)
    then have "holds db' r p (?held c)" using h pl(1) [of p] by (auto simp: holds_def cl held_def)
    then show ?thesis by blast
  qed
  moreover have "\<exists>p c. holds db' r p c" if r: "r \<in> set rs" for r
  proof -
    from new(2) [OF r] obtain c where c: "find_key c_id (r_cluster_id r) (clusters rd) = Some c"
      "c_site_id c = p_site_id q" "r_kw r \<le> c_rated_kw c" by blast
    from inv(3) find_key_SomeD [OF c(1)] obtain d where d: "d \<in> set (clusters db)" "cluster_stays c d"
      unfolding behind_def by blast
    then have "c_id d \<in> r_cluster_id ` set rs" using r find_key_SomeD [OF c(1)] by (auto simp: cluster_stays_def)
    then have "holds db' r q (?held d)"
      using d c(2,3) find_key_SomeD [OF c(1)] new(1) [OF r] pl(2) by (auto simp: holds_def cl cluster_stays_def held_def)
    then show ?thesis by blast
  qed
  ultimately show ?thesis using inv(1) new(1) unfolding reservations_inv_def res by auto
qed

text \<open>A submission, table by table.\<close>

lemma submitted_fields:
  assumes "core db' = core (submitted_db (set_plan_status PlanSubmitted seen now) rs sid kw db)"
  shows "sites db' = update_where (\<lambda>s. s_id s = sid) (add_reserved kw now) (sites db)"
    "clusters db' = update_where (\<lambda>c. c_id c \<in> r_cluster_id ` set rs) (held now) (clusters db)"
    "plans db' = update_where (\<lambda>p. p_id p = p_id seen) (assign_plan_status (set_plan_status PlanSubmitted seen now)) (plans db)"
    "reservations db' = reservations db @ rs" "jobs db' = jobs db"
  using assms unfolding core_def submitted_db_def by (simp_all add: set_plan_status_def)

lemma submitted_plan_fields:
  "p_id (set_plan_status st p now) = p_id p" "assign_plan_status (set_plan_status st p now) p = set_plan_status st p now"
  "p_status (set_plan_status st p now) = st" "p_site_id (set_plan_status st p now) = p_site_id p"
  "p_requested_kw (set_plan_status st p now) = p_requested_kw p" "p_window (set_plan_status st p now) = p_window p"
  "p_created_by (set_plan_status st p now) = p_created_by p" "p_version (set_plan_status st p now) = incr64 (p_version p)"
  by (simp_all add: set_plan_status_def assign_plan_status_def)

lemma submitted_held_by:
  assumes "\<And>r. r \<in> set rs \<Longrightarrow> r_plan_id r = pid" "reservations db' = reservations db @ rs"
  shows "held_by db' i = held_by db i @ (if i = pid then rs else [])"
  using assms by (auto simp: held_by_def filter_id_conv filter_empty_conv)

text \<open>The site: the power is taken once, and never beyond the limit.\<close>

lemma submitted_sites:
  assumes inv: "sites_inv db" "keys_ok db" and v: "versions_upto n db" "n < 9223372036854775807"
    and owner: "find_key s_id (p_site_id seen) (sites db) = Some owner" "s_status owner = StatusActive"
      "s_reserved owner + p_requested_kw seen \<le> s_grid_limit owner" "0 < p_requested_kw seen"
    and fl: "sites db' = update_where (\<lambda>s. s_id s = p_site_id seen) (add_reserved (p_requested_kw seen) now) (sites db)"
    and book: "\<And>sid. booked (plans db') sid = booked (plans db) sid + (if p_site_id seen = sid then p_requested_kw seen else 0)"
  shows "sites_inv db'" "s \<in> set (sites db') \<Longrightarrow> 1 \<le> s_version s \<and> s_version s \<le> n + 1"
    "s \<in> set (sites db) \<Longrightarrow> \<exists>t \<in> set (sites db'). site_grows s t" "s_id ` set (sites db') = s_id ` set (sites db)"
proof -
  let ?new = "add_reserved (p_requested_kw seen) now owner"
  have dist: "distinct (map s_id (sites db))" using inv(2) by (auto simp: keys_ok_def)
  note rep = replaced_row [OF dist owner(1) refl fl]
  have om: "owner \<in> set (sites db)" "s_id owner = p_site_id seen" using find_key_SomeD [OF owner(1)] by auto
  have vs: "1 \<le> s_version owner" "s_version owner \<le> n" using v(1) om(1) by (auto simp: versions_upto_def)
  have vnew: "s_version ?new = s_version owner + 1" using version_next [OF vs v(2)] by (simp add: add_reserved_def)
  show "sites_inv db'"
    unfolding sites_inv_def
  proof
    fix s assume "s \<in> set (sites db')"
    have owned: "site_ok owner" "s_reserved owner = booked (plans db) (p_site_id seen)"
      using inv(1) om by (auto simp: sites_inv_def)
    have new: "site_ok ?new" using owned(1) owner(2-4) by (simp add: site_ok_def add_reserved_def)
    have id: "s_id ?new = p_site_id seen" "s_reserved ?new = s_reserved owner + p_requested_kw seen"
      using om by (simp_all add: add_reserved_def)
    from rep(1) [OF \<open>s \<in> set (sites db')\<close>] show "site_ok s \<and> s_reserved s = booked (plans db') (s_id s)"
    proof
      assume "s = ?new"
      then show ?thesis using new id owned(2) by (simp add: book)
    next
      assume "s \<in> set (sites db) \<and> s_id s \<noteq> p_site_id seen"
      then show ?thesis using inv(1) by (auto simp: sites_inv_def book)
    qed
  qed
  show "1 \<le> s_version s \<and> s_version s \<le> n + 1" if "s \<in> set (sites db')"
    using rep(1) [OF that] v(1) vs vnew by (auto simp: versions_upto_def)
  show "\<exists>t \<in> set (sites db'). site_grows s t" if "s \<in> set (sites db)"
  proof (cases "s_id s = p_site_id seen")
    case True
    then have "site_grows s ?new" using rep(4) [OF that] vnew by (simp add: site_grows_def add_reserved_def)
    then show ?thesis using rep(2) by blast
  next
    case False
    then show ?thesis using rep(3) [OF that] by blast
  qed
  show "s_id ` set (sites db') = s_id ` set (sites db)"
    by (simp add: fl flip: set_map) (simp add: map_update_where add_reserved_def)
qed

text \<open>The plan: it holds its power in full from now on, the other plans keep what they hold.\<close>

lemma submitted_plans:
  assumes inv: "plans_inv db" "keys_ok db" and v: "versions_upto n db" "n < 9223372036854775807"
    and old: "find_key p_id (p_id seen) (plans db) = Some seen" and st: "p_status seen = PlanDraft"
    and rs: "rs \<noteq> []" "sum_list (map r_kw rs) = p_requested_kw seen" "\<And>r. r \<in> set rs \<Longrightarrow> r_plan_id r = p_id seen"
    and fl: "plans db' = update_where (\<lambda>p. p_id p = p_id seen) (assign_plan_status (set_plan_status PlanSubmitted seen now)) (plans db)"
      "reservations db' = reservations db @ rs" "s_id ` set (sites db') = s_id ` set (sites db)" "jobs db' = jobs db"
  shows "plans_inv db'" "p \<in> set (plans db') \<Longrightarrow> 1 \<le> p_version p \<and> p_version p \<le> n + 1"
    "p \<in> set (plans db) \<Longrightarrow> \<exists>q \<in> set (plans db'). plan_grows p q
       \<and> (p_status p \<noteq> PlanDraft \<longrightarrow> held_by db' (p_id p) = held_by db (p_id p))"
proof -
  let ?q = "set_plan_status PlanSubmitted seen now"
  have dist: "distinct (map p_id (plans db))" using inv(2) by (simp add: keys_ok_def)
  note rep = replaced_row [OF dist old submitted_plan_fields(2) fl(1)]
  note hb = submitted_held_by [where rs = rs, OF rs(3) fl(2)]
  note o = inv(1) [unfolded plans_inv_def site_exists_iff]
  have mem: "seen \<in> set (plans db)" using find_key_SomeD [OF old] by simp
  have live: "live_plan seen" and none: "held_by db (p_id seen) = []" using o mem st by auto
  have live': "live_plan ?q" using live st by (auto simp: live_plan_def plan_ok_def set_plan_status_def)
  have vs: "1 \<le> p_version seen" "p_version seen \<le> n" using v(1) mem by (auto simp: versions_upto_def)
  have vnew: "p_version ?q = p_version seen + 1" using version_next [OF vs v(2)] by (simp add: set_plan_status_def)
  show "plans_inv db'"
    unfolding plans_inv_def site_exists_iff fl(3,4)
  proof
    fix p assume "p \<in> set (plans db')"
    from rep(1) [OF this]
    show "live_plan p \<and> p_site_id p \<in> s_id ` set (sites db) \<and> (p_status p = PlanDraft \<longrightarrow> held_by db' (p_id p) = [])
      \<and> (p_status p \<noteq> PlanDraft \<longrightarrow> held_by db' (p_id p) \<noteq> [] \<and> sum_list (map r_kw (held_by db' (p_id p))) = p_requested_kw p)
      \<and> (p_status p = PlanDispatched \<longrightarrow> (\<forall>r \<in> set (held_by db' (p_id p)). (p_id p, r_cluster_id r) \<in> job_pair ` set (jobs db)))"
    proof
      assume "p = ?q"
      moreover have "p_site_id seen \<in> s_id ` set (sites db)" using o mem by auto
      ultimately show ?thesis using live' rs(1,2) by (simp add: submitted_plan_fields hb none)
    next
      assume "p \<in> set (plans db) \<and> p_id p \<noteq> p_id seen"
      then show ?thesis using o by (simp add: hb)
    qed
  qed
  show "1 \<le> p_version p \<and> p_version p \<le> n + 1" if "p \<in> set (plans db')"
    using rep(1) [OF that] v(1) vs vnew by (auto simp: versions_upto_def)
  show "\<exists>q \<in> set (plans db'). plan_grows p q \<and> (p_status p \<noteq> PlanDraft \<longrightarrow> held_by db' (p_id p) = held_by db (p_id p))"
    if p: "p \<in> set (plans db)"
  proof (cases "p_id p = p_id seen")
    case True
    then have "plan_grows p ?q" "p_status p = PlanDraft"
      using rep(4) [OF p] vnew st by (auto simp: plan_grows_def submitted_plan_fields)
    then show ?thesis using rep(2) by blast
  next
    case False
    then show ?thesis using rep(3) [OF p] by (auto simp: hb)
  qed
qed

lemma kept_plan_submitted:
  assumes inv: "core_inv db" "keys_ok db" and v: "versions_upto n db" "n < 9223372036854775807"
    and g: "behind rd db" and seen: "find_key p_id (p_id seen) (plans rd) = Some seen" "p_status seen = PlanDraft"
    and old: "find_key p_id (p_id seen) (plans db) = Some old" "p_version old = p_version seen"
    and owner: "find_key s_id (p_site_id seen) (sites db) = Some owner" "s_status owner = StatusActive"
      "s_reserved owner + p_requested_kw seen \<le> s_grid_limit owner"
    and rs: "rs \<noteq> []" "sum_list (map r_kw rs) = p_requested_kw seen" "distinct (map r_cluster_id rs)"
      "\<And>r. r \<in> set rs \<Longrightarrow> r_plan_id r = p_id seen \<and> r_window r = p_window seen \<and> 0 < r_kw r \<and> r_status r = ReservationHeld"
      "\<And>r. r \<in> set rs \<Longrightarrow> \<exists>c. find_key c_id (r_cluster_id r) (clusters rd) = Some c
        \<and> c_site_id c = p_site_id seen \<and> r_kw r \<le> c_rated_kw c"
      "\<And>r. r \<in> set rs \<Longrightarrow> \<exists>c. find_key c_id (r_cluster_id r) (clusters db) = Some c \<and> c_status c = ClusterAvailable"
    and c: "core db' = core (submitted_db (set_plan_status PlanSubmitted seen now) rs (p_site_id seen) (p_requested_kw seen) db)"
  shows "kept n db db'"
proof -
  let ?q = "set_plan_status PlanSubmitted seen now"
  let ?held = "\<lambda>c. if c_id c \<in> r_cluster_id ` set rs then held now c else c"
  have same: "old = seen" by (rule plan_unchanged [OF inv(2) g seen(1) old])
  note fl = submitted_fields [OF c] and qf = submitted_plan_fields and o = inv(1) [unfolded core_inv_def]
  have mem: "seen \<in> set (plans db)" using find_key_SomeD [OF old(1)] same by auto
  then have live: "live_plan seen" and none: "held_by db (p_id seen) = []"
    using o seen(2) by (auto simp: plans_inv_def)
  then have kw: "0 < p_requested_kw seen" by (simp add: live_plan_def plan_ok_def)
  have dist: "distinct (map p_id (plans db))" using inv(2) by (auto simp: keys_ok_def)
  note rep = replaced_row [OF dist old(1) [unfolded same] qf(2) fl(3)]
  have book: "booked (plans db') sid = booked (plans db) sid + (if p_site_id seen = sid then p_requested_kw seen else 0)" for sid
    using booked_update [OF inv(2) old(1), of "assign_plan_status ?q" sid] seen(2)
    by (simp add: fl(3) same booking_def qf)
  note s = submitted_sites [OF o [THEN conjunct1] inv(2) v owner kw fl(1) book]
  have pinv: "plans_inv db" and rplan: "\<And>r. r \<in> set rs \<Longrightarrow> r_plan_id r = p_id seen" using o rs(4) by blast+
  note p = submitted_plans [OF pinv inv(2) v old(1) [unfolded same] seen(2) rs(1,2) rplan fl(3,4) s(4) fl(5)]
  have cl: "set (clusters db') = ?held ` set (clusters db)" by (simp add: fl(2) set_update_where)
  have "clusters_inv db'" using o by (auto simp: clusters_inv_def cl cluster_ok_def held_def)
  moreover have "reservations_inv db'"
    by (rule reservations_extended [where q = ?q, OF _ inv(2) g fl(4) cl _ rep(2), unfolded qf, OF _ rep(3) none rs(3-6)])
      (simp_all add: o)
  ultimately have "core_inv db'" using s(1) p(1) by (simp add: core_inv_def)
  moreover have "versions_upto (n + 1) db'" unfolding versions_upto_def using s(2) p(2) by blast
  moreover have "\<exists>d \<in> set (clusters db'). cluster_stays c d" if "c \<in> set (clusters db)" for c
  proof -
    have "cluster_stays c (?held c)" by (simp add: cluster_stays_def held_def)
    then show ?thesis unfolding cl using that by blast
  qed
  then have "grows db db'" unfolding grows_def using s(3) p(3) fl(4,5) by simp
  ultimately show ?thesis by (simp add: kept_def)
qed

section \<open>Every run keeps the invariant\<close>

theorem core_step_kept:
  assumes "core_step rd db db'" "keys_ok db" "core_inv db" "behind rd db"
    and "versions_upto n db" "1 \<le> n" "n < 9223372036854775807"
  shows "kept n db db'"
  using assms(1)
proof cases
  case quiet
  then show ?thesis by (rule kept_quiet [OF assms(3,5)])
next
  case jobs_reported
  then show ?thesis by (rule kept_jobs [OF assms(3,5)])
next
  case site_added
  then show ?thesis by (rule kept_site_added [OF assms(3,5,6)])
next
  case site_moved
  then show ?thesis by (rule kept_site_moved [OF assms(3,2,5,7,4)])
next
  case cluster_added
  then show ?thesis by (intro kept_cluster_added [OF assms(3,5)])
next
  case cluster_measured
  then show ?thesis by (rule kept_measured [OF assms(3,5)])
next
  case plan_added
  then show ?thesis by (rule kept_plan_added [OF assms(3,5,6)])
next
  case plan_submitted
  then show ?thesis by (intro kept_plan_submitted [OF assms(3,2,5,7,4)])
next
  case plan_approved
  then show ?thesis by (rule kept_plan_approved [OF assms(3,2,5,7,4)])
next
  case plan_dispatched
  then show ?thesis by (intro kept_plan_dispatched [OF assms(3,2,5,7,4)])
qed

lemma core_inv_seen: "core_inv db \<Longrightarrow> seen_ok db"
  by (auto simp: inv_parts seen_ok_def live_plan_def plan_ok_def)

lemma core_inv_empty: "core_inv empty_database" "versions_upto 1 empty_database"
  by (simp_all add: inv_parts empty_database_def versions_upto_def)

text \<open>A glimpse of a run is behind its newest state.\<close>

lemma held_by_grown:
  assumes "core_inv d" "grows d e"
  shows "held_by d pid = [] \<or> held_by e pid = held_by d pid"
proof (cases "held_by d pid")
  case (Cons r rs)
  then have "r \<in> set (held_by d pid)" by simp
  then have r: "r \<in> set (reservations d)" "r_plan_id r = pid" by (auto simp: held_by_def)
  then obtain p c where "holds d r p c" using assms(1) by (auto simp: core_inv_def reservations_inv_def)
  then have p: "p \<in> set (plans d)" "p_id p = pid" using r by (auto simp: holds_def)
  then have "p_status p \<noteq> PlanDraft" using assms(1) Cons by (auto simp: core_inv_def plans_inv_def)
  then show ?thesis using grows_plan [OF assms(2) p(1)] p(2) by auto
qed simp

lemma glimpse_behind:
  assumes "\<forall>d \<in> set h. core_inv d \<and> grows d db" "glimpse h rd"
  shows "behind rd db" "seen_ok rd"
proof -
  have rows: "s \<in> set (sites rd) \<Longrightarrow> \<exists>d \<in> set h. s \<in> set (sites d)" "p \<in> set (plans rd) \<Longrightarrow> \<exists>d \<in> set h. p \<in> set (plans d)"
    "c \<in> set (clusters rd) \<Longrightarrow> \<exists>d \<in> set h. c \<in> set (clusters d)" for s p c
    using assms(2) unfolding glimpse_def seen_rows_def by blast+
  obtain e where e: "e \<in> set h" "reservations rd = reservations e" using assms(2) unfolding glimpse_def by blast
  have "held_by rd pid = [] \<or> held_by db pid = held_by rd pid" for pid
    using held_by_grown [of e db pid] assms(1) e by (simp add: held_by_def)
  moreover have "\<forall>s \<in> set (sites rd). \<exists>t \<in> set (sites db). site_grows s t" using rows(1) assms(1) grows_site by blast
  moreover have "\<forall>p \<in> set (plans rd). \<exists>q \<in> set (plans db). plan_grows p q" using rows(2) assms(1) grows_plan by blast
  moreover have "\<forall>c \<in> set (clusters rd). \<exists>d \<in> set (clusters db). cluster_stays c d" using rows(3) assms(1) grows_cluster by blast
  ultimately show "behind rd db" unfolding behind_def by blast
  have "\<forall>d \<in> set h. seen_ok d" using assms(1) core_inv_seen by blast
  then show "seen_ok rd" using rows(2,3) unfolding seen_ok_def by blast
qed

theorem run_invariant:
  assumes "run h" "int (length h) < 9223372036854775807"
  shows "(\<forall>db \<in> set h. core_inv db) \<and> versions_upto (int (length h)) (hd h) \<and> sorted_wrt (\<lambda>new old. grows old new) h"
  using assms
proof (induction rule: run.induct)
  case run_start
  then show ?case by (simp add: core_inv_empty)
next
  case (run_step db h rd db')
  note IH = run_step.IH
  have inv: "\<forall>d \<in> set (db # h). core_inv d" and v: "versions_upto (int (length (db # h))) db"
    and g: "\<forall>d \<in> set (db # h). grows d db" and s: "sorted_wrt (\<lambda>new old. grows old new) (db # h)"
    using IH run_step.prems by auto
  have seen: "behind rd db" "seen_ok rd" using glimpse_behind [OF _ run_step.hyps(2)] inv g by blast+
  have k: "keys_ok db" using run_keys [OF run_step.hyps(1)] by simp
  have "core_step rd db db'" by (rule action_refines [OF run_step.hyps(3) k seen(2)])
  from core_step_kept [OF this k _ seen(1) v] run_step.prems inv
  have new: "core_inv db'" "versions_upto (int (length (db # h)) + 1) db'" "grows db db'" by (auto simp: kept_def)
  then have "\<forall>x \<in> set (db # h). grows x db'" using s grows_trans by auto
  then show ?case using new IH s run_step.prems by auto
qed


text \<open>The invariant, row by row.\<close>

lemma run_core_inv: "run h \<Longrightarrow> int (length h) < 9223372036854775807 \<Longrightarrow> db \<in> set h \<Longrightarrow> core_inv db"
  using run_invariant by blast

lemma run_site: "run h \<Longrightarrow> int (length h) < 9223372036854775807 \<Longrightarrow> db \<in> set h \<Longrightarrow> s \<in> set (sites db) \<Longrightarrow>
    site_ok s \<and> s_reserved s = booked (plans db) (s_id s)"
  using run_core_inv unfolding core_inv_def sites_inv_def by blast

lemma run_plan: "run h \<Longrightarrow> int (length h) < 9223372036854775807 \<Longrightarrow> db \<in> set h \<Longrightarrow> p \<in> set (plans db) \<Longrightarrow>
    live_plan p \<and> site_exists db (p_site_id p)
    \<and> (p_status p \<noteq> PlanDraft \<longrightarrow> held_by db (p_id p) \<noteq> []
         \<and> sum_list (map r_kw (held_by db (p_id p))) = p_requested_kw p)
    \<and> (p_status p = PlanDispatched \<longrightarrow>
         (\<forall>r \<in> set (held_by db (p_id p)). (p_id p, r_cluster_id r) \<in> job_pair ` set (jobs db)))"
  using run_core_inv unfolding core_inv_def plans_inv_def by blast

lemma run_reservation: "run h \<Longrightarrow> int (length h) < 9223372036854775807 \<Longrightarrow> db \<in> set h \<Longrightarrow> r \<in> set (reservations db) \<Longrightarrow>
    0 < r_kw r \<and> (\<exists>p c. holds db r p c)"
  using run_core_inv unfolding core_inv_def reservations_inv_def by blast

end
