(* ===== verification/Scenario.thy ===== *)
theory Scenario
  imports SystemInv
begin

text \<open>
  A run of the program from the empty database to a dispatched plan, evaluated call by call: two
  users, a site that is activated, a battery cluster, a plan that is drafted, submitted, approved by
  the other user and dispatched.  The states of this run are where the theorems about runs are
  applied.
\<close>

section \<open>The rows of the run\<close>

definition demo_now :: time where
  "demo_now = 63902908800000000000"

definition demo_env :: "string \<Rightarrow> env" where
  "demo_env tag = \<lparr>en_now = (\<lambda>_. demo_now), en_uuid = (\<lambda>k. tag @ replicate k (CHR ''x'')),
     en_driver = (\<lambda>_. None), en_tx = TxCommits\<rparr>"

definition demo_libs :: auth_libs where
  "demo_libs = \<lparr>li_lower = (\<lambda>s. s), li_address = Some, li_bcrypt = (\<lambda>s. Inr ''hash''),
     li_bcrypt_matches = (\<lambda>h s. True), li_sha256 = (\<lambda>s. s), li_random = Inr ''r''\<rparr>"

definition demo_user :: "string \<Rightarrow> role \<Rightarrow> user" where
  "demo_user name role = \<lparr>u_id = name, u_email = name @ ''@grid.test'', u_password_hash = ''hash'',
     u_display_name = name, u_role = role, u_active = True, u_version = 1,
     u_created_at = demo_now, u_updated_at = demo_now\<rparr>"

definition demo_ann :: user where "demo_ann = demo_user ''ann'' RoleDispatcher"

definition demo_bob :: user where "demo_bob = demo_user ''bob'' RoleOperator"

definition demo_signed_in :: "user \<Rightarrow> principal" where
  "demo_signed_in u = \<lparr>pr_user = u, pr_session = \<lparr>ss_id = ''s'', ss_user_id = u_id u, ss_token_hash = ''h'',
     ss_expires_at = demo_now, ss_revoked_at = None, ss_last_seen_at = demo_now, ss_created_at = demo_now\<rparr>\<rparr>"

definition demo_site :: "i64 \<Rightarrow> site_status \<Rightarrow> i64 \<Rightarrow> site" where
  "demo_site reserved status version = \<lparr>s_id = ''site'', s_code = ''NORTH-1'', s_name = ''North'', s_timezone = ''UTC'',
     s_grid_limit = 1000, s_reserved = reserved, s_status = status, s_version = version,
     s_created_at = demo_now, s_updated_at = demo_now\<rparr>"

definition demo_cluster :: "cluster_status \<Rightarrow> i64 \<Rightarrow> cluster" where
  "demo_cluster status version = \<lparr>c_id = ''pack'', c_site_id = ''site'', c_code = ''PACK-1'', c_rated_kw = 500,
     c_capacity_kwh = 1000, c_min_soc = 10, c_max_soc = 90, c_soc = 50, c_status = status, c_sequence = 0,
     c_telemetry_at = None, c_version = version, c_created_at = demo_now, c_updated_at = demo_now\<rparr>"

definition demo_window :: window where
  "demo_window = \<lparr>w_start = demo_now + hour, w_end = demo_now + 2 * hour\<rparr>"

definition demo_plan :: "plan_status \<Rightarrow> string \<Rightarrow> time option \<Rightarrow> i64 \<Rightarrow> plan" where
  "demo_plan status approver at version = \<lparr>p_id = ''plan'', p_site_id = ''site'', p_name = ''Peak'', p_direction = Discharge,
     p_requested_kw = 400, p_target_kwh = 400, p_window = demo_window, p_status = status, p_created_by = ''ann'',
     p_approved_by = approver, p_approved_at = at, p_version = version, p_created_at = demo_now, p_updated_at = demo_now\<rparr>"

definition demo_reservation :: reservation where
  "demo_reservation = \<lparr>r_id = ''book'', r_plan_id = ''plan'', r_cluster_id = ''pack'', r_kw = 400,
     r_window = demo_window, r_status = ReservationHeld, r_created_at = demo_now, r_updated_at = demo_now\<rparr>"

definition demo_job :: job where
  "demo_job = \<lparr>j_id = ''send'', j_plan_id = ''plan'', j_cluster_id = ''pack'', j_status = JobPending, j_attempts = 0,
     j_max_attempts = 5, j_next_attempt_at = demo_now, j_lease_owner = '''', j_lease_until = None, j_last_error = '''',
     j_command_key = ''dispatch:plan:pack'', j_version = 1, j_created_at = demo_now, j_updated_at = demo_now\<rparr>"

definition demo_event :: "string \<Rightarrow> string \<Rightarrow> string \<Rightarrow> string \<Rightarrow> string \<Rightarrow> string res \<Rightarrow> event" where
  "demo_event uuid actor object_type object_id act details = event_or_zero (new_event uuid actor ''system'' object_type object_id act ''success'' details demo_now)"

definition demo_e1 :: event where
  "demo_e1 = demo_event ''sitex'' ''bob'' ''site'' ''site'' ''create''
     (json_object [(''code'', json_string ''NORTH-1''), (''grid_limit_kw'', int_text 1000)])"

definition demo_e2 :: event where
  "demo_e2 = demo_event ''move'' ''bob'' ''site'' ''site'' ''transition''
     (json_object [(''from'', json_string ''commissioning''), (''to'', json_string ''active'')])"

definition demo_e3 :: event where
  "demo_e3 = demo_event ''packx'' ''bob'' ''battery_cluster'' ''pack'' ''create''
     (json_object [(''rated_power_kw'', int_text 500), (''site_id'', json_string ''site'')])"

definition demo_e4 :: event where
  "demo_e4 = demo_event ''planx'' ''ann'' ''dispatch_plan'' ''plan'' ''create''
     (json_object [(''direction'', json_string ''discharge''), (''requested_kw'', int_text 400)])"

definition demo_e5 :: event where
  "demo_e5 = demo_event ''bookx'' ''ann'' ''dispatch_plan'' ''plan'' ''submit''
     (json_object [(''clusters'', nat_text 1), (''reserved_kw'', int_text 400)])"

definition demo_e6 :: event where
  "demo_e6 = demo_event ''okay'' ''bob'' ''dispatch_plan'' ''plan'' ''approve''
     json_null"

definition demo_e7 :: event where
  "demo_e7 = demo_event ''sendx'' ''bob'' ''dispatch_plan'' ''plan'' ''dispatch''
     (json_object [(''jobs'', nat_text 1)])"

lemma demo_trims:
  "trim_space ''system'' = ''system''" "trim_space ''site'' = ''site''" "trim_space ''battery_cluster'' = ''battery_cluster''"
  "trim_space ''dispatch_plan'' = ''dispatch_plan''" "trim_space ''pack'' = ''pack''" "trim_space ''plan'' = ''plan''"
  "trim_space ''create'' = ''create''" "trim_space ''transition'' = ''transition''" "trim_space ''submit'' = ''submit''"
  "trim_space ''approve'' = ''approve''" "trim_space ''dispatch'' = ''dispatch''" "trim_space ''success'' = ''success''"
  "trim_space ''ann'' = ''ann''" "trim_space ''bob'' = ''bob''"
  by code_simp+

lemma demo_event_fields [simp]:
  "ev_id demo_e1 = ''sitex''" "ev_actor_id demo_e1 = ''bob''"
  "ev_id demo_e2 = ''move''" "ev_actor_id demo_e2 = ''bob''"
  "ev_id demo_e3 = ''packx''" "ev_actor_id demo_e3 = ''bob''"
  "ev_id demo_e4 = ''planx''" "ev_actor_id demo_e4 = ''ann''"
  "ev_id demo_e5 = ''bookx''" "ev_actor_id demo_e5 = ''ann''"
  "ev_id demo_e6 = ''okay''" "ev_actor_id demo_e6 = ''bob''"
  "ev_id demo_e7 = ''sendx''" "ev_actor_id demo_e7 = ''bob''"
  by (simp_all add: demo_e1_def demo_e2_def demo_e3_def demo_e4_def demo_e5_def demo_e6_def demo_e7_def demo_event_def
      new_event_def Let_def demo_trims json_object_def json_null_def json_string_def json_members.simps event_or_zero_def
      int_text_def nat_text.simps)

section \<open>The states of the run\<close>

definition demo1 :: database where
  "demo1 = empty_database\<lparr>users := [demo_ann]\<rparr>"

definition demo2 :: database where
  "demo2 = empty_database\<lparr>users := [demo_ann, demo_bob]\<rparr>"

definition demo3 :: database where
  "demo3 = demo2\<lparr>sites := [demo_site 0 StatusCommissioning 1], audit_events := [demo_e1]\<rparr>"

definition demo4 :: database where
  "demo4 = demo2\<lparr>sites := [demo_site 0 StatusActive 2], audit_events := [demo_e1, demo_e2]\<rparr>"

definition demo5 :: database where
  "demo5 = demo4\<lparr>clusters := [demo_cluster ClusterAvailable 1], audit_events := [demo_e1, demo_e2, demo_e3]\<rparr>"

definition demo6 :: database where
  "demo6 = demo5\<lparr>plans := [demo_plan PlanDraft '''' None 1], audit_events := [demo_e1, demo_e2, demo_e3, demo_e4]\<rparr>"

definition demo7 :: database where
  "demo7 = demo2\<lparr>sites := [demo_site 400 StatusActive 3], clusters := [demo_cluster ClusterReserved 2],
     plans := [demo_plan PlanSubmitted '''' None 2], reservations := [demo_reservation],
     audit_events := [demo_e1, demo_e2, demo_e3, demo_e4, demo_e5]\<rparr>"

definition demo8 :: database where
  "demo8 = demo7\<lparr>plans := [demo_plan PlanApproved ''bob'' (Some demo_now) 3], audit_events := [demo_e1, demo_e2, demo_e3, demo_e4, demo_e5, demo_e6]\<rparr>"

definition demo9 :: database where
  "demo9 = demo7\<lparr>plans := [demo_plan PlanDispatched ''bob'' (Some demo_now) 4], jobs := [demo_job],
     audit_events := [demo_e1, demo_e2, demo_e3, demo_e4, demo_e5, demo_e6, demo_e7]\<rparr>"

text \<open>
  The calls, evaluated.  \<open>checked\<close> is evaluated from its first argument on, and the statements and
  constructors of a call are evaluated on their own.
\<close>

lemma checked_weak_cong: "r = r' \<Longrightarrow> checked r db k = checked r' db k"
  by simp

lemma demo_env_simps [simp]: "en_now (demo_env tag) k = demo_now" "en_uuid (demo_env tag) k = tag @ replicate k (CHR ''x'')"
  "en_tx (demo_env tag) = TxCommits" "via (demo_env tag) op r = r"
  by (simp_all add: demo_env_def via_def)

lemma demo_signed_in_user [simp]: "pr_user (demo_signed_in u) = u"
  by (simp add: demo_signed_in_def)

lemma demo_user_rights [simp]:
  "principal_require (demo_signed_in demo_bob) PermissionSiteManage = Inr ()"
  "principal_require (demo_signed_in demo_bob) PermissionPlanApprove = Inr ()"
  "principal_require (demo_signed_in demo_bob) PermissionPlanDispatch = Inr ()"
  "principal_require (demo_signed_in demo_ann) PermissionPlanWrite = Inr ()"
  "u_id demo_ann = ''ann''" "u_id demo_bob = ''bob''"
  by code_simp+

lemma demo_request [simp]: "request_id '''' = ''system''"
  by (simp add: request_id_def)

lemma demo_audit:
  "audit_insert (demo_env tag) (new_event uuid actor ''system'' typ obj act ''success'' details demo_now) db
    = insert_audit (demo_event uuid actor typ obj act details) db"
  by (simp add: audit_insert_def demo_event_def)

lemma demo_run1: "fst (bootstrap (demo_env ''ann'') demo_libs empty_database empty_database
   \<lparr>nu_email = ''ann@grid.test'', nu_password = ''Correct-Horse-1'', nu_display_name = ''ann'', nu_role = RoleDispatcher\<rparr>) = demo1"
proof -
  have e: "normalize_email (li_lower demo_libs) (li_address demo_libs) ''ann@grid.test'' = Inr ''ann@grid.test''" by code_simp
  have f: "user_by_email empty_database ''ann@grid.test'' = Inl (translate ''sqlite.scanUser'' err_no_rows)"
    by (simp add: user_by_email_def query_row_def empty_database_def)
  have k: "is_kind (translate ''sqlite.scanUser'' err_no_rows) NotFound" by (simp add: is_kind_def wrap_fault_def)
  have u: "create_user (li_lower demo_libs) (li_address demo_libs) (li_bcrypt demo_libs) ''ann''
    \<lparr>nu_email = ''ann@grid.test'', nu_password = ''Correct-Horse-1'', nu_display_name = ''ann'', nu_role = RoleDispatcher\<rparr> demo_now
    = Inr demo_ann" by code_simp
  have i: "insert_user empty_database demo_ann = Inr demo1" by code_simp
  show ?thesis by (simp add: bootstrap_def e f k u i del: translate_no_rows cong: checked_weak_cong)
qed

lemma demo_run2: "fst (bootstrap (demo_env ''bob'') demo_libs demo1 demo1
   \<lparr>nu_email = ''bob@grid.test'', nu_password = ''Correct-Horse-2'', nu_display_name = ''bob'', nu_role = RoleOperator\<rparr>) = demo2"
proof -
  have e: "normalize_email (li_lower demo_libs) (li_address demo_libs) ''bob@grid.test'' = Inr ''bob@grid.test''" by code_simp
  have "find_key (nocase \<circ> u_email) (nocase ''bob@grid.test'') (users demo1) = None" by code_simp
  then have f: "user_by_email demo1 ''bob@grid.test'' = Inl (translate ''sqlite.scanUser'' err_no_rows)"
    by (simp add: user_by_email_def query_row_def comp_def)
  have k: "is_kind (translate ''sqlite.scanUser'' err_no_rows) NotFound" by (simp add: is_kind_def wrap_fault_def)
  have u: "create_user (li_lower demo_libs) (li_address demo_libs) (li_bcrypt demo_libs) ''bob''
    \<lparr>nu_email = ''bob@grid.test'', nu_password = ''Correct-Horse-2'', nu_display_name = ''bob'', nu_role = RoleOperator\<rparr> demo_now
    = Inr demo_bob" by code_simp
  have i: "insert_user demo1 demo_bob = Inr demo2" by code_simp
  show ?thesis by (simp add: bootstrap_def e f k u i del: translate_no_rows cong: checked_weak_cong)
qed

lemma demo_tables [simp]:
  "users demo2 = [demo_ann, demo_bob]" "sites demo2 = []" "audit_events demo2 = []" "clusters demo2 = []" "plans demo2 = []"
  "reservations demo2 = []" "jobs demo2 = []"
  by (simp_all add: demo2_def empty_database_def)

text \<open>An event with a new identity and a known actor is stored as it is.\<close>

lemma demo_insert_audit:
  assumes "\<forall>r \<in> set (audit_events db). ev_id r \<noteq> ev_id e" "users db = [demo_ann, demo_bob]" "ev_actor_id e \<in> {''ann'', ''bob''}"
  shows "insert_audit e db = Inr (db\<lparr>audit_events := audit_events db @ [e]\<rparr>)"
proof -
  have "nullable_string ''ann'' = ''ann''" "nullable_string ''bob'' = ''bob''" by code_simp+
  then have "e\<lparr>ev_actor_id := nullable_string (ev_actor_id e)\<rparr> = e" using assms(3) by auto
  moreover have "event_violation db e = None"
    using assms by (auto simp: event_violation_def user_ref_ok_def user_exists_def list_ex_iff)
  ultimately show ?thesis by (simp add: insert_audit_Inr stored_event_def)
qed

lemma demo_run3: "fst (create_site (demo_env ''site'') (\<lambda>_. None) demo2 (demo_signed_in demo_bob)
    \<lparr>ns_code = ''NORTH-1'', ns_name = ''North'', ns_timezone = ''UTC'', ns_grid_limit = 1000\<rparr> '''') = demo3"
proof -
  let ?site = "demo_site 0 StatusCommissioning 1"
  have c: "site_create (\<lambda>_. None) ''site'' \<lparr>ns_code = ''NORTH-1'', ns_name = ''North'', ns_timezone = ''UTC'', ns_grid_limit = 1000\<rparr> demo_now
    = Inr ?site" by code_simp
  have "site_check ?site" by code_simp
  then have i: "insert_site demo2 ?site = Inr (demo2\<lparr>sites := [?site]\<rparr>)" by (simp add: insert_site_Inr site_violation_def)
  have f: "s_id ?site = ''site''" "s_code ?site = ''NORTH-1''" "s_grid_limit ?site = 1000" by (simp_all add: demo_site_def)
  have "fst (create_site (demo_env ''site'') (\<lambda>_. None) demo2 (demo_signed_in demo_bob)
      \<lparr>ns_code = ''NORTH-1'', ns_name = ''North'', ns_timezone = ''UTC'', ns_grid_limit = 1000\<rparr> '''')
    = demo2\<lparr>sites := [?site], audit_events := [demo_e1]\<rparr>"
    by (simp add: create_site_def c i f demo_audit demo_insert_audit flip: demo_e1_def cong: checked_weak_cong)
  then show ?thesis by (simp add: demo3_def)
qed

lemma demo_tables3 [simp]:
  "users demo3 = [demo_ann, demo_bob]" "sites demo3 = [demo_site 0 StatusCommissioning 1]" "audit_events demo3 = [demo_e1]"
  "users demo4 = [demo_ann, demo_bob]" "sites demo4 = [demo_site 0 StatusActive 2]" "audit_events demo4 = [demo_e1, demo_e2]"
  "clusters demo4 = []"
  by (simp_all add: demo3_def demo4_def)

lemma demo_run4: "fst (transition_site (demo_env ''move'') demo3 demo3 (demo_signed_in demo_bob) ''site'' StatusActive 1 '''') = demo4"
proof -
  let ?site = "demo_site 0 StatusCommissioning 1" and ?new = "demo_site 0 StatusActive 2"
  have f: "s_id ?site = ''site''" "s_version ?site = 1" "s_status ?site = StatusCommissioning" "s_status ?new = StatusActive"
    by (simp_all add: demo_site_def)
  then have q: "site_by_id demo3 ''site'' = Inr ?site" by (simp add: site_by_id_def)
  have t: "site_transition ?site StatusActive demo_now = Inr ?new" by code_simp
  have "cas_rows s_id s_version assign_site site_row_violation ''sqlite.UpdateSite'' [?site] ?new 1 = Inr [?new]" by code_simp
  then have u: "update_site demo3 ?new 1 = Inr (demo3\<lparr>sites := [?new]\<rparr>)" by (simp add: update_site_def)
  have "fst (transition_site (demo_env ''move'') demo3 demo3 (demo_signed_in demo_bob) ''site'' StatusActive 1 '''')
    = demo3\<lparr>sites := [?new], audit_events := [demo_e1, demo_e2]\<rparr>"
    by (simp add: transition_site_def q t u f demo_audit demo_insert_audit flip: demo_e2_def cong: checked_weak_cong)
  then show ?thesis by (simp add: demo3_def demo4_def)
qed

lemma demo_site_fields [simp]: "s_id (demo_site r st v) = ''site''" "s_status (demo_site r st v) = st" "s_version (demo_site r st v) = v"
  "s_reserved (demo_site r st v) = r"
  by (simp_all add: demo_site_def)

lemma demo_cluster_fields [simp]: "c_id (demo_cluster st v) = ''pack''" "c_site_id (demo_cluster st v) = ''site''"
  "c_rated_kw (demo_cluster st v) = 500" "c_status (demo_cluster st v) = st"
  by (simp_all add: demo_cluster_def)

lemma demo_plan_fields [simp]: "p_id (demo_plan st a t v) = ''plan''" "p_created_by (demo_plan st a t v) = ''ann''"
  "p_version (demo_plan st a t v) = v" "p_site_id (demo_plan st a t v) = ''site''" "p_requested_kw (demo_plan st a t v) = 400"
  "p_direction (demo_plan st a t v) = Discharge" "p_window (demo_plan st a t v) = demo_window" "p_status (demo_plan st a t v) = st"
  "p_approved_by (demo_plan st a t v) = a" "p_approved_at (demo_plan st a t v) = t" "p_updated_at (demo_plan st a t v) = demo_now"
  by (simp_all add: demo_plan_def)

lemma demo_reservation_fields [simp]: "r_id demo_reservation = ''book''" "r_plan_id demo_reservation = ''plan''"
  "r_cluster_id demo_reservation = ''pack''" "r_kw demo_reservation = 400" "r_window demo_reservation = demo_window"
  "r_status demo_reservation = ReservationHeld"
  by (simp_all add: demo_reservation_def)

lemma demo_tables5 [simp]:
  "users demo5 = [demo_ann, demo_bob]" "sites demo5 = [demo_site 0 StatusActive 2]"
  "clusters demo5 = [demo_cluster ClusterAvailable 1]" "plans demo5 = []" "audit_events demo5 = [demo_e1, demo_e2, demo_e3]"
  "users demo6 = [demo_ann, demo_bob]" "sites demo6 = [demo_site 0 StatusActive 2]"
  "clusters demo6 = [demo_cluster ClusterAvailable 1]" "plans demo6 = [demo_plan PlanDraft '''' None 1]" "reservations demo6 = []"
  "audit_events demo6 = [demo_e1, demo_e2, demo_e3, demo_e4]"
  by (simp_all add: demo4_def demo5_def demo6_def)

lemma demo_tables7 [simp]:
  "users demo7 = [demo_ann, demo_bob]" "sites demo7 = [demo_site 400 StatusActive 3]"
  "clusters demo7 = [demo_cluster ClusterReserved 2]" "plans demo7 = [demo_plan PlanSubmitted '''' None 2]"
  "reservations demo7 = [demo_reservation]" "jobs demo7 = []" "audit_events demo7 = [demo_e1, demo_e2, demo_e3, demo_e4, demo_e5]"
  "users demo8 = [demo_ann, demo_bob]" "sites demo8 = [demo_site 400 StatusActive 3]"
  "clusters demo8 = [demo_cluster ClusterReserved 2]" "plans demo8 = [demo_plan PlanApproved ''bob'' (Some demo_now) 3]"
  "reservations demo8 = [demo_reservation]" "jobs demo8 = []"
  "audit_events demo8 = [demo_e1, demo_e2, demo_e3, demo_e4, demo_e5, demo_e6]"
  "sites demo9 = [demo_site 400 StatusActive 3]" "clusters demo9 = [demo_cluster ClusterReserved 2]"
  "plans demo9 = [demo_plan PlanDispatched ''bob'' (Some demo_now) 4]" "reservations demo9 = [demo_reservation]"
  "jobs demo9 = [demo_job]"
  by (simp_all add: demo7_def demo8_def demo9_def)

lemma demo_run5: "fst (create_cluster (demo_env ''pack'') demo4 demo4 (demo_signed_in demo_bob)
    \<lparr>nc_site_id = ''site'', nc_code = ''PACK-1'', nc_rated_kw = 500, nc_capacity_kwh = 1000, nc_min_soc = 10,
     nc_max_soc = 90, nc_initial_soc = 50\<rparr> '''') = demo5"
proof -
  let ?c = "demo_cluster ClusterAvailable 1"
  have q: "site_by_id demo4 ''site'' = Inr (demo_site 0 StatusActive 2)" by (simp add: site_by_id_def)
  have n: "cluster_create ''pack'' \<lparr>nc_site_id = ''site'', nc_code = ''PACK-1'', nc_rated_kw = 500, nc_capacity_kwh = 1000,
     nc_min_soc = 10, nc_max_soc = 90, nc_initial_soc = 50\<rparr> demo_now = Inr ?c" by code_simp
  have "cluster_check ?c" by code_simp
  then have i: "insert_cluster demo4 ?c = Inr (demo4\<lparr>clusters := [?c]\<rparr>)"
    by (simp add: insert_cluster_Inr cluster_violation_def site_exists_def)
  show ?thesis
    by (simp add: create_cluster_def q n i demo_audit demo_insert_audit demo5_def flip: demo_e3_def cong: checked_weak_cong)
qed

lemma demo_plan_ref: "blank '''' " "\<not> blank ''bob''" "nullable_string '''' = ''''" "nullable_string ''bob'' = ''bob''"
  by code_simp+

lemma demo_plan_check: "plan_check (demo_plan st a t v)"
proof -
  have "time_in_range (w_start demo_window)" "time_in_range (w_end demo_window)"
    by (simp_all add: demo_window_def demo_now_def time_in_range_def)
  then have "encode_time (w_start demo_window) < encode_time (w_end demo_window)"
    by (simp add: encode_time_whole_seconds demo_window_def demo_now_def)
  then show ?thesis by (simp add: plan_check_def demo_plan_def)
qed

lemma demo_run6: "fst (create_plan (demo_env ''plan'') demo5 demo5 (demo_signed_in demo_ann)
    \<lparr>np_site_id = ''site'', np_name = ''Peak'', np_direction = Discharge, np_requested_kw = 400, np_target_kwh = 400,
     np_starts_at = demo_now + hour, np_ends_at = demo_now + 2 * hour, np_created_by = ''''\<rparr> '''') = demo6"
proof -
  let ?p = "demo_plan PlanDraft '''' None 1"
  have q: "site_by_id demo5 ''site'' = Inr (demo_site 0 StatusActive 2)" by (simp add: site_by_id_def)
  have n: "plan_create ''plan'' \<lparr>np_site_id = ''site'', np_name = ''Peak'', np_direction = Discharge, np_requested_kw = 400,
     np_target_kwh = 400, np_starts_at = demo_now + hour, np_ends_at = demo_now + 2 * hour, np_created_by = ''ann''\<rparr> demo_now
     = Inr ?p" by code_simp
  have "plan_violation demo5 ?p = None"
    by (simp add: plan_violation_def demo_plan_check plan_exists_def site_exists_def user_exists_def user_ref_ok_def demo_plan_ref)
  moreover have "?p\<lparr>p_approved_by := ''''\<rparr> = ?p" by (simp add: demo_plan_def)
  ultimately have i: "insert_plan demo5 ?p = Inr (demo5\<lparr>plans := [?p]\<rparr>)"
    by (simp add: insert_plan_Inr demo_plan_ref)
  show ?thesis
    by (simp add: create_plan_def Let_def q n [simplified] i demo_audit demo_insert_audit demo6_def flip: demo_e4_def cong: checked_weak_cong)
qed

lemma demo_submit_body: "submit_body (demo_plan PlanSubmitted '''' None 2) 1 [demo_reservation] ''site'' 400 2
    (audit_inserter demo_e5) demo6 = Inr demo7"
proof -
  let ?p = "demo_plan PlanDraft '''' None 1" and ?q = "demo_plan PlanSubmitted '''' None 2"
  have a: "reserve_capacity ''sqlite.reserveSite'' demo6 ''site'' 400 2 demo_now
      = Inr (demo6\<lparr>sites := [demo_site 400 StatusActive 3]\<rparr>)"
  proof -
    have "expect_one ''sqlite.reserveSite'' (exec_update (site_has_room ''site'' 400 2) (add_reserved 400 demo_now)
      site_row_violation [demo_site 0 StatusActive 2]) = Inr [demo_site 400 StatusActive 3]" by code_simp
    then show ?thesis by (simp add: reserve_capacity_def)
  qed
  have b: "reserve_cluster_row demo_now ''pack'' db = Inr (db\<lparr>clusters := [demo_cluster ClusterReserved 2]\<rparr>)"
    if "clusters db = [demo_cluster ClusterAvailable 1]" for db
  proof -
    have "expect_one ''sqlite.reserveCluster'' (exec_update (\<lambda>c. c_id c = ''pack'' \<and> c_status c = ClusterAvailable)
           (\<lambda>c. c\<lparr>c_status := ClusterReserved, c_version := incr64 (c_version c), c_updated_at := demo_now\<rparr>)
           cluster_row_violation [demo_cluster ClusterAvailable 1]) = Inr [demo_cluster ClusterReserved 2]" by code_simp
    then show ?thesis by (simp add: reserve_cluster_row_def that)
  qed
  have c: "update_plan_status op ?q 1 db = Inr (db\<lparr>plans := [?q]\<rparr>)" if "plans db = [?p]" for op db
  proof -
    have "assign_plan_status ?q ?p = ?q" by (simp add: assign_plan_status_def demo_plan_def)
    then show ?thesis
      by (simp add: update_plan_status_def cas_rows_def that expect_one_def exec_update_def List.map_filter_simps
          plan_status_violation_def demo_plan_check)
  qed
  have r: "reservation_violation db demo_reservation = None"
    if "reservations db = []" "plans db = [?p]" "clusters db = [demo_cluster ClusterAvailable 1]" for db
    using that by (simp add: reservation_violation_def plan_exists_def cluster_exists_def)
  have n: "first_conflict demo6 [demo_reservation] = None" by (simp add: first_conflict_def reservation_conflict_def)
  have "submit_body ?q 1 [demo_reservation] ''site'' 400 2 (audit_inserter demo_e5) demo6
    = Inr (demo6\<lparr>sites := [demo_site 400 StatusActive 3], clusters := [demo_cluster ClusterReserved 2], plans := [?q],
        reservations := [demo_reservation], audit_events := [demo_e1, demo_e2, demo_e3, demo_e4, demo_e5]\<rparr>)"
    by (simp add: submit_body_def n a hold_cluster_def insert_reservation_def exec_insert_def r b c audit_inserter_def
        demo_insert_audit)
  then show ?thesis by (simp add: demo4_def demo5_def demo6_def demo7_def)
qed

lemma demo_run7: "fst (submit_plan (demo_env ''book'') (\<lambda>k rs. rs) demo6 demo6 (demo_signed_in demo_ann)
    \<lparr>sp_plan_id = ''plan'', sp_expected_version = 1, sp_cluster_ids = [''pack'']\<rparr> '''') = demo7"
proof -
  let ?p = "demo_plan PlanDraft '''' None 1" and ?q = "demo_plan PlanSubmitted '''' None 2"
    and ?s = "demo_site 0 StatusActive 2" and ?c = "demo_cluster ClusterAvailable 1"
  have p: "plan_by_id demo6 ''plan'' = Inr ?p" by (simp add: plan_by_id_def)
  have s: "site_by_id demo6 ''site'' = Inr ?s" by (simp add: site_by_id_def)
  have cl: "cluster_by_id demo6 ''pack'' = Inr ?c" by (simp add: cluster_by_id_def)
  have el: "cluster_eligible ?c ''discharge'' (min_int64 400 500) = Inr ()" by code_simp
  have al: "allocate_power 400 [(''pack'', 500)] [(''pack'', 500)] [(''pack'', 500)] = Inr [''pack'' \<mapsto> 400]"
    by (simp add: allocate_power_def wrap64_def go_div_def Let_def visible_def cong: let_weak_cong)
  have r: "new_reservation ''book'' ''plan'' ''pack'' 400 demo_window demo_now = Inr demo_reservation" by code_simp
  have st: "plan_submit ?p 1 400 demo_now = Inr ?q" by code_simp
  have ok: "can_accept_plans ?s = Inr ()" by (simp add: can_accept_plans_def)
  have sel: "select_clusters (demo_env ''book'') demo6 ?p {} [''pack''] = Inr [?c]" by (simp add: cl el)
  have res: "make_reservations (demo_env ''book'') ?p [''pack'' \<mapsto> 400] 0 [?c] = Inr [demo_reservation]"
    by (simp add: r share_of_def)
  note b = demo_submit_body [unfolded demo_e5_def demo_event_def One_nat_def]
  show ?thesis
    by (simp add: submit_plan_def Let_def p s sel al res st ok ratings_of_def submit_plan_atomic_def in_tx_def b
        del: select_clusters.simps make_reservations.simps cong: checked_weak_cong)
qed

lemma demo_approval:
  "plan_by_id demo7 ''plan'' = Inr (demo_plan PlanSubmitted '''' None 2)"
  "plan_approve (demo_plan PlanSubmitted '''' None 2) ''bob'' 2 demo_now = Inr (demo_plan PlanApproved ''bob'' (Some demo_now) 3)"
  "update_plan demo7 (demo_plan PlanApproved ''bob'' (Some demo_now) 3) 2
    = Inr (demo7\<lparr>plans := [demo_plan PlanApproved ''bob'' (Some demo_now) 3]\<rparr>)"
proof -
  let ?p = "demo_plan PlanSubmitted '''' None 2" and ?q = "demo_plan PlanApproved ''bob'' (Some demo_now) 3"
  show "plan_by_id demo7 ''plan'' = Inr ?p" by (simp add: plan_by_id_def)
  show "plan_approve ?p ''bob'' 2 demo_now = Inr ?q" by code_simp
  have "assign_plan ?q ?p = ?q" by (simp add: assign_plan_def demo_plan_def demo_plan_ref)
  moreover have "plan_row_violation demo7 ?q = None"
    by (simp add: plan_row_violation_def demo_plan_check user_ref_ok_def user_exists_def)
  ultimately show "update_plan demo7 ?q 2 = Inr (demo7\<lparr>plans := [?q]\<rparr>)"
    by (simp add: update_plan_def cas_rows_def expect_one_def exec_update_def List.map_filter_simps)
qed

lemma demo_run8: "fst (approve_plan (demo_env ''okay'') demo7 demo7 (demo_signed_in demo_bob) ''plan'' 2 '''') = demo8"
proof -
  have "fst (approve_plan (demo_env ''okay'') demo7 demo7 (demo_signed_in demo_bob) ''plan'' 2 '''')
    = demo7\<lparr>plans := [demo_plan PlanApproved ''bob'' (Some demo_now) 3],
        audit_events := [demo_e1, demo_e2, demo_e3, demo_e4, demo_e5, demo_e6]\<rparr>"
    by (simp add: approve_plan_def demo_approval demo_audit demo_insert_audit flip: demo_e6_def cong: checked_weak_cong)
  then show ?thesis by (simp add: demo8_def)
qed

lemma demo_run9: "fst (dispatch_plan (demo_env ''send'') demo8 demo8 (demo_signed_in demo_bob) ''plan'' 3 '''') = demo9"
proof -
  let ?p = "demo_plan PlanApproved ''bob'' (Some demo_now) 3" and ?q = "demo_plan PlanDispatched ''bob'' (Some demo_now) 4"
  have p: "plan_by_id demo8 ''plan'' = Inr ?p" by (simp add: plan_by_id_def)
  have rs: "reservations_by_plan demo8 ''plan'' = [demo_reservation]" by (simp add: reservations_by_plan_def)
  have j: "new_job ''send'' ''plan'' ''pack'' 5 demo_now = Inr demo_job" by code_simp
  have d: "plan_dispatch ?p 1 1 demo_now = Inr ?q" by code_simp
  have f: "j_lease_owner demo_job = ''''" "j_plan_id demo_job = ''plan''" "j_cluster_id demo_job = ''pack''"
    "job_row_violation demo_job = None" "demo_job\<lparr>j_lease_owner := ''''\<rparr> = demo_job"
    by (simp_all add: demo_job_def job_row_violation_def)
  then have i: "insert_job demo_job demo8 = Inr (demo8\<lparr>jobs := [demo_job]\<rparr>)"
    by (simp add: insert_job_Inr job_violation_def plan_exists_def cluster_exists_def demo_plan_ref)
  have "assign_plan_status ?q ?p = ?q" by (simp add: assign_plan_status_def demo_plan_def)
  then have u: "update_plan_status op ?q 3 (demo8\<lparr>jobs := [demo_job]\<rparr>) = Inr (demo8\<lparr>jobs := [demo_job], plans := [?q]\<rparr>)" for op
    by (simp add: update_plan_status_def cas_rows_def expect_one_def exec_update_def List.map_filter_simps
        plan_status_violation_def demo_plan_check)
  have "dispatch_body ?q 3 [demo_job] (audit_inserter demo_e7) demo8 = Inr (demo8\<lparr>jobs := [demo_job], plans := [?q],
      audit_events := [demo_e1, demo_e2, demo_e3, demo_e4, demo_e5, demo_e6, demo_e7]\<rparr>)"
    by (simp add: dispatch_body_def i u audit_inserter_def demo_insert_audit)
  then have "dispatch_body ?q 3 [demo_job] (audit_inserter demo_e7) demo8 = Inr demo9"
    by (simp add: demo8_def demo9_def)
  note b = this [unfolded demo_e7_def demo_event_def One_nat_def]
  show ?thesis
    by (simp add: dispatch_plan_def Let_def p rs j d dispatch_plan_atomic_def in_tx_def b cong: checked_weak_cong)
qed

section \<open>The run\<close>

definition demo_history :: "database list" where
  "demo_history = [demo9, demo8, demo7, demo6, demo5, demo4, demo3, demo2, demo1, empty_database]"

lemma demo_env_ok: "env_ok (demo_env ''pack'')"
proof -
  have "visible (CHR ''p'')" by code_simp
  then show ?thesis by (simp add: env_ok_def)
qed

theorem demo_history_runs: "run demo_history"
  unfolding demo_history_def
proof (intro run_next)
  show "run [empty_database]" by (rule run_start)
  show "action empty_database empty_database demo1"
    unfolding demo_run1 [symmetric] by (rule a_bootstrap [OF surjective_pairing])
  show "action demo1 demo1 demo2"
    unfolding demo_run2 [symmetric] by (rule a_bootstrap [OF surjective_pairing])
  show "action demo2 demo2 demo3"
    unfolding demo_run3 [symmetric] by (rule a_create_site [OF surjective_pairing])
  show "action demo3 demo3 demo4"
    unfolding demo_run4 [symmetric] by (rule a_transition_site [OF surjective_pairing])
  show "action demo4 demo4 demo5"
    unfolding demo_run5 [symmetric] by (rule a_create_cluster [OF demo_env_ok surjective_pairing])
  show "action demo5 demo5 demo6"
    unfolding demo_run6 [symmetric] by (rule a_create_plan [OF surjective_pairing])
  show "action demo6 demo6 demo7"
    unfolding demo_run7 [symmetric]
    by (rule a_submit_plan [OF _ _ surjective_pairing]) (simp_all add: visits_all_def)
  show "action demo7 demo7 demo8"
    unfolding demo_run8 [symmetric] by (rule a_approve_plan [OF surjective_pairing])
  show "action demo8 demo8 demo9"
    unfolding demo_run9 [symmetric] by (rule a_dispatch_plan [OF surjective_pairing])
qed

lemma demo_history_length: "int (length demo_history) < 9223372036854775807"
  by (simp add: demo_history_def)

lemma demo_history_last: "demo9 \<in> set demo_history" "demo8 \<in> set demo_history" "hd demo_history = demo9"
  by (simp_all add: demo_history_def)

end
