(* ===== verification/DomainProperties.thy ===== *)
theory DomainProperties
  imports Config Scenario
begin

text \<open>
  The properties of the components that keep no tables: the lifecycles of the entities, backoff,
  time windows and their stored texts, settlement arithmetic, idempotency records, tokens,
  configuration.
\<close>

section \<open>Lifecycles\<close>

text \<open>
  C34. A plan that \<open>Create\<close> made stays well-formed under every sequence of renaming, submitting,
  approving, dispatching, starting, completing, failing and cancelling, and a plan that is completed,
  failed or cancelled admits no further operation.
\<close>

theorem plan_lifecycle:
  assumes "plan_create uuid input now = Inr p" "plan_step\<^sup>*\<^sup>* p q"
  shows "plan_ok q \<and> (plan_is_terminal q \<longrightarrow> (\<forall>r. plan_step\<^sup>*\<^sup>* q r \<longrightarrow> r = q))"
proof -
  have "plan_init p" using assms(1) by (auto simp: plan_init_def)
  then show ?thesis using plan_life.reachable_inv [OF _ assms(2)] plan_life.terminal_forever by blast
qed

theorem plan_lifecycle_witness:
  "plan_ok (demo_plan PlanSubmitted '''' None 2) \<and> \<not> plan_is_terminal (demo_plan PlanSubmitted '''' None 2)"
proof -
  have c: "plan_create ''plan'' \<lparr>np_site_id = ''site'', np_name = ''Peak'', np_direction = Discharge, np_requested_kw = 400,
     np_target_kwh = 400, np_starts_at = demo_now + hour, np_ends_at = demo_now + 2 * hour, np_created_by = ''ann''\<rparr> demo_now
     = Inr (demo_plan PlanDraft '''' None 1)" by code_simp
  have "plan_submit (demo_plan PlanDraft '''' None 1) 1 400 demo_now = Inr (demo_plan PlanSubmitted '''' None 2)" by code_simp
  then have "plan_step\<^sup>*\<^sup>* (demo_plan PlanDraft '''' None 1) (demo_plan PlanSubmitted '''' None 2)"
    by (intro r_into_rtranclp plan_step.submit)
  from plan_lifecycle [OF c this] show ?thesis by (simp add: plan_is_terminal_def)
qed

text \<open>
  C35. A job that \<open>NewJob\<close> made stays well-formed under leasing, renewing, reporting and cancelling:
  it has an owner and a deadline exactly while it is leased, and attempts left while it is to be
  retried; a job that succeeded or failed for good admits no further operation.
\<close>

theorem job_lifecycle:
  assumes "new_job uuid pid cid limit now = Inr j" "job_step\<^sup>*\<^sup>* j k"
  shows "job_ok k \<and> (job_terminal k \<longrightarrow> (\<forall>l. job_step\<^sup>*\<^sup>* k l \<longrightarrow> l = k))"
proof -
  have "job_init j" unfolding job_init_def using assms(1) by blast
  then show ?thesis using job_life.reachable_inv [OF _ assms(2)] job_life.terminal_forever by blast
qed

theorem job_lifecycle_witness:
  "\<exists>k. job_lease demo_job ''worker-1'' demo_now (30 * second) = Inr k \<and> job_ok k \<and> j_lease_owner k = ''worker-1''"
proof -
  have c: "new_job ''send'' ''plan'' ''pack'' 5 demo_now = Inr demo_job" by code_simp
  have t: "trim_space ''worker-1'' = ''worker-1''" by code_simp
  have v: "\<not> blank ''worker-1''" by code_simp
  have "\<exists>k. job_lease demo_job ''worker-1'' demo_now (30 * second) = Inr k \<and> j_lease_owner k = ''worker-1''"
    by (simp add: job_lease_Inr job_claimable_iff demo_job_def t v)
  then obtain k where k: "job_lease demo_job ''worker-1'' demo_now (30 * second) = Inr k" "j_lease_owner k = ''worker-1''"
    by blast
  then have "job_step\<^sup>*\<^sup>* demo_job k" by (intro r_into_rtranclp job_step.lease)
  from job_lifecycle [OF c this] k show ?thesis by blast
qed

text \<open>
  The version of a site counts its changes: after n operations it is n larger, until the 64-bit
  counter ends; the site stays well-formed, its reserved power never above its grid limit.
\<close>

theorem site_versions_count:
  assumes "site_ok s" "(site_step ^^ n) s t" "in_i64 (s_version s)" "s_version s + int n \<le> 9223372036854775807"
  shows "s_version t = s_version s + int n \<and> site_ok t"
  using site_life.relpowp_version [OF assms(2-4)]
    site_life.steps_inv [OF relpowp_imp_rtranclp [OF assms(2)] assms(1)] by blast

theorem site_versions_count_witness:
  "\<exists>t. (site_step ^^ 2) (demo_site 0 StatusActive 2) t \<and> s_version t = 4 \<and> site_ok t \<and> s_reserved t = 900"
proof -
  have ok: "site_ok (demo_site 0 StatusActive 2)" by code_simp
  have "site_reserve (demo_site 0 StatusActive 2) 400 demo_now = Inr (demo_site 400 StatusActive 3)"
    "site_reserve (demo_site 400 StatusActive 3) 500 demo_now = Inr (demo_site 900 StatusActive 4)" by code_simp+
  then have "site_step (demo_site 0 StatusActive 2) (demo_site 400 StatusActive 3)"
    "site_step (demo_site 400 StatusActive 3) (demo_site 900 StatusActive 4)" by (auto intro: site_step.reserve)
  then have steps: "(site_step ^^ 2) (demo_site 0 StatusActive 2) (demo_site 900 StatusActive 4)"
    by (auto simp: numeral_2_eq_2)
  from site_versions_count [OF ok this] show ?thesis using steps by (auto simp: in_i64_def)
qed

section \<open>Backoff\<close>

text \<open>
  C36. The pauses between the attempts at a job.  For every base up to fifteen minutes, and so for the
  second the program uses, the 64-bit arithmetic of \<open>Backoff\<close> does not overflow: the first pause is the
  base, each of the next eight is twice the one before it or fifteen minutes, whichever is less, and
  from the ninth attempt on the pause stays the same; so it never shrinks and is never shorter than the
  base or longer than fifteen minutes.  A base that is not positive counts as a second.  Beyond those
  fifteen minutes the product can wrap around to a negative pause.
\<close>

theorem backoff_doubles:
  assumes "0 < base" "base \<le> 15 * minute" "in_i64 n"
  shows "(n \<le> 1 \<longrightarrow> backoff base n = base)
    \<and> (1 \<le> n \<and> n \<le> 8 \<longrightarrow> backoff base (n + 1) = min (15 * minute) (2 * backoff base n))
    \<and> (9 \<le> n \<longrightarrow> backoff base n = backoff base 9)
    \<and> base \<le> backoff base n \<and> backoff base n \<le> 15 * minute
    \<and> (\<forall>m. in_i64 m \<and> m \<le> n \<longrightarrow> backoff base m \<le> backoff base n)
    \<and> (\<forall>none \<le> 0. backoff none n = backoff second n) \<and> backoff (2 ^ 56) 8 < 0"
proof -
  have first: "backoff base m = backoff base 1" if "m \<le> 1" for m
    using that by (cases "m = 1") (simp_all add: backoff_def)
  have one: "backoff base 1 = base" using backoff_eq [OF assms(1,2), of 1] assms(2) by (simp add: in_i64_def)
  have all: "base \<le> backoff base m" "backoff base m \<le> 15 * minute" if "in_i64 m" for m
    using backoff_bounds [OF assms(1,2), of m] first [of m] one assms(2) that by (cases "1 \<le> m"; simp)+
  have "backoff base (n + 1) = min (15 * minute) (2 * backoff base n)" if n: "1 \<le> n" "n \<le> 8"
  proof -
    have "nat n = Suc (nat (n - 1))" using n(1) by simp
    then have d: "base * 2 ^ nat n = 2 * (base * 2 ^ nat (n - 1))" by simp
    have b: "backoff base n = min (15 * minute) (base * 2 ^ nat (n - 1))" "backoff base (n + 1) = min (15 * minute) (base * 2 ^ nat n)"
      using backoff_eq [OF assms(1,2), of n] backoff_eq [OF assms(1,2), of "n + 1"] n by (simp_all add: in_i64_def)
    have "min (15 * minute) (2 * x) = min (15 * minute) (2 * min (15 * minute) x)" for x :: int by (simp add: min_def)
    from this [of "base * 2 ^ nat (n - 1)"] show ?thesis by (simp only: b d)
  qed
  moreover have "backoff base n = backoff base 9" if "9 \<le> n"
    using backoff_eq [OF assms(1,2), of n] backoff_eq [OF assms(1,2), of 9] that assms(3) by (simp add: in_i64_def)
  moreover have "backoff base m \<le> backoff base n" if m: "in_i64 m" "m \<le> n" for m
    using backoff_mono [OF assms(1,2), of m n] first [of m] one all(1) [OF assms(3)] m assms(3) by (cases "1 \<le> m") simp_all
  moreover have "backoff none n = backoff second n" if "none \<le> 0" for none using that by (simp add: backoff_def)
  ultimately show ?thesis using first [of n] one all [OF assms(3)] backoff_overflow by simp
qed

theorem backoff_doubles_witness: "backoff second 1 = second \<and> backoff second 2 = 2 * second \<and> backoff second 9 \<le> 15 * minute
    \<and> backoff second 2 \<le> backoff second 9"
proof -
  have n: "in_i64 1" "in_i64 2" "in_i64 9" by (simp_all add: in_i64_def)
  have one: "backoff second 1 = second" and two: "backoff second (1 + 1) = min (15 * minute) (2 * backoff second 1)"
    using backoff_doubles [of second 1] n(1) by simp_all
  then have "backoff second 2 = 2 * second" by simp
  moreover have "backoff second 9 \<le> 15 * minute" "backoff second 2 \<le> backoff second 9"
    using backoff_doubles [of second 9] n by simp_all
  ultimately show ?thesis using one by blast
qed

section \<open>Windows and stored times\<close>

text \<open>
  C37. Two windows of whole seconds overlap for the statement that compares their stored texts
  exactly when they overlap for the code, and that is when some instant lies in both.
\<close>

theorem stored_overlap_exact:
  assumes "whole_seconds v" "whole_seconds w" "window_ok v" "window_ok w"
  shows "(text_overlaps v w \<longleftrightarrow> window_overlaps v w)
    \<and> (window_overlaps v w \<longleftrightarrow> (\<exists>t. window_contains v t \<and> window_contains w t))"
  using text_overlaps_exact [OF assms(1,2)] overlaps_iff_common_instant [OF assms(3,4)] by blast

theorem stored_overlap_exact_witness:
  "\<not> text_overlaps \<lparr>w_start = 0, w_end = minute\<rparr> \<lparr>w_start = minute, w_end = hour\<rparr>"
  using stored_overlap_exact [of "\<lparr>w_start = 0, w_end = minute\<rparr>" "\<lparr>w_start = minute, w_end = hour\<rparr>"]
  by (simp add: whole_seconds_def time_in_range_def window_ok_def window_overlaps_def)

text \<open>
  The stored text of a time orders as the time does between different seconds of the years 1 to
  9999, but within one second it does not: a time with a fraction sorts before the whole second it
  follows, since the format drops the fraction of a whole second and the dot sorts before the zone.
\<close>

theorem stored_time_order:
  assumes "time_in_range t" "time_in_range u" "t < u"
  shows "(t div second < u div second \<longrightarrow> encode_time t < encode_time u)
    \<and> (t mod second = 0 \<and> t div second = u div second \<longrightarrow> encode_time u < encode_time t)"
  using encode_time_less_second [OF assms(1,2)] encode_time_fraction [OF _ assms(3)] by auto

theorem stored_time_order_witness:
  "encode_time demo_now < encode_time (demo_now + second) \<and> encode_time (demo_now + millisecond) < encode_time demo_now"
proof -
  have r: "time_in_range demo_now" "time_in_range (demo_now + second)" "time_in_range (demo_now + millisecond)"
    "demo_now < demo_now + second" "demo_now < demo_now + millisecond" "demo_now div second < (demo_now + second) div second"
    "demo_now mod second = 0" "demo_now div second = (demo_now + millisecond) div second"
    by (simp_all add: demo_now_def time_in_range_def)
  show ?thesis using stored_time_order [OF r(1,2,4)] stored_time_order [OF r(1,3,5)] r(6-8) by blast
qed

section \<open>Settlement arithmetic\<close>

text \<open>
  C38. While energy times price fits 64 bits, the amount of an entry is the exact product in
  thousandths, rounded down and never negative, and the deviation is actual minus planned; entries
  whose totals fit 64 bits are summed exactly.
\<close>

theorem settlement_exact:
  assumes "new_entry uuid pd pl planned actual price now = Inr e" "actual * price \<le> 9223372036854775807"
    and "in_i64 actual" "in_i64 planned" "in_i64 (sum_list (map e_amount es))"
  shows "e_amount e = actual * price div 1000 \<and> 0 \<le> e_amount e \<and> e_deviation_wh e = actual - planned
    \<and> sm_amount (summarize es) = sum_list (map e_amount es) \<and> sm_entry_count (summarize es) = int (length es)"
  using entry_amount_exact [OF assms(1-4)] assms(5) by (simp add: summarize_sums)

theorem settlement_exact_witness:
  "\<exists>e. new_entry ''e'' ''p'' ''q'' 400000 380000 250 demo_now = Inr e \<and> e_amount e = 95000 \<and> e_deviation_wh e = -20000
    \<and> sm_amount (summarize [e, e]) = 190000"
proof -
  have "\<not> blank ''p''" "\<not> blank ''q''" by code_simp+
  then obtain e where e: "new_entry ''e'' ''p'' ''q'' 400000 380000 250 demo_now = Inr e" by (auto simp: new_entry_Inr)
  have a: "e_amount e = 95000" "e_deviation_wh e = -20000"
    using settlement_exact [OF e, of "[]"] by (simp_all add: in_i64_def)
  have "in_i64 (sum_list (map e_amount [e, e]))" by (simp add: a in_i64_def)
  then have "sm_amount (summarize [e, e]) = sum_list (map e_amount [e, e])"
    using settlement_exact [OF e, of "[e, e]"] by (simp add: in_i64_def del: list.map sum_list.Cons)
  then have "sm_amount (summarize [e, e]) = 190000" by (simp add: a)
  with e a show ?thesis by blast
qed

text \<open>
  Beyond 64 bits the amount is wrong: ten gigawatt-hours at a price the service accepts come out
  negative, and \<open>NewEntry\<close> reports no error.
\<close>

theorem settlement_overflow:
  "\<exists>e. new_entry ''e'' ''p'' ''q'' 1 10000000000 1000000000 0 = Inr e \<and> e_amount e < 0"
  using entry_amount_overflow by (metis neg_numeral_less_zero)

section \<open>Idempotency records\<close>

text \<open>
  While it lives, a completed record answers the request it was started with by the stored
  response, refuses every request with another digest, and is never completed a second time.
\<close>

theorem idempotency_replays:
  assumes "idem_start upper sha256 uuid actor m path key request now ttl = Inr r"
    and "idem_complete r status body t = Inr c" "later < now + ttl"
  shows "idem_replay sha256 c request later = Inr (status, body)
    \<and> (sha256 other \<noteq> sha256 request \<longrightarrow> (\<exists>e. idem_replay sha256 c other later = Inl e \<and> http_status e = 409))
    \<and> (\<exists>e. idem_complete c s b u = Inl e \<and> http_status e = 409)"
  using replay_after_complete [OF assms] replay_other_request [OF assms] idem_complete_once [OF assms(2)]
  by (auto simp: status_new)

theorem idempotency_replays_witness:
  "\<exists>c. idem_replay (\<lambda>s. s) c ''body'' demo_now = Inr (201, ''done'')
    \<and> (\<exists>e. idem_replay (\<lambda>s. s) c ''other'' demo_now = Inl e \<and> http_status e = 409)"
proof -
  obtain r where r: "idem_start (\<lambda>s. s) (\<lambda>s. s) ''i'' ''ann'' ''POST'' ''/v1/plans'' ''key-0001'' ''body'' demo_now hour = Inr r"
  proof -
    have "trim_space ''ann'' = ''ann''" "upper_text (\<lambda>s. s) (trim_space ''POST'') = ''POST''" "trim_space ''/v1/plans'' = ''/v1/plans''"
      "trim_space ''key-0001'' = ''key-0001''" by code_simp+
    then show thesis using that by (auto simp: idem_start_def Let_def)
  qed
  have "i_state r = Started" using idem_start_scope [OF r] by simp
  then obtain c where c: "idem_complete r 201 ''done'' demo_now = Inr c" by (auto simp: idem_complete_def)
  from idempotency_replays [OF r c, of demo_now "''other''" 0 "''x''" 0] show ?thesis by auto
qed

section \<open>Texts\<close>

text \<open>
  Round trips: the decimal text of every 64-bit integer is read back as the integer, by the
  parser of the configuration and the query strings, and the hexadecimal text of a digest as the
  digest, so a token matches a stored hash exactly when the digests agree.
\<close>

theorem texts_round_trip:
  "(in_i64 i \<longrightarrow> parse_int64 (int_text i) = Some i) \<and> hex_decode (hex_encode s) = Some s
    \<and> (secure_hash_matches sha256 token (hash_token sha256 other) \<longleftrightarrow> sha256 token = sha256 other)"
  by (auto simp: parse_int64_int_text secure_hash_matches_iff hash_token_def)

theorem texts_round_trip_witness:
  "parse_int64 (int_text (- 42)) = Some (- 42) \<and> secure_hash_matches (\<lambda>s. s) ''t'' (hash_token (\<lambda>s. s) ''t'')"
  using texts_round_trip [of "- 42" "''t''" "\<lambda>s. s" "''t''" "''t''"] by (simp add: in_i64_def)

text \<open>
  The token of a well-formed \<open>Authorization\<close> header is what the client sent, in whatever case
  it spells the scheme.
\<close>

theorem bearer_round_trip:
  assumes "map lower_byte scheme = ''bearer''" "\<forall>c \<in> set scheme. visible c" "token \<noteq> []" "\<forall>c \<in> set token. visible c"
  shows "bearer_token (scheme @ '' '' @ token) = token"
  using assms by (rule bearer_token_of_header)

theorem bearer_round_trip_witness: "bearer_token ''BEARER abc'' = ''abc''"
proof -
  have "map lower_byte ''BEARER'' = ''bearer''" "\<forall>c \<in> set ''BEARER''. visible c" "\<forall>c \<in> set ''abc''. visible c" by code_simp+
  from bearer_round_trip [OF this(1,2) _ this(3)] show ?thesis by simp
qed

text \<open>
  Normalizing the filter of the site list yields page limits between 1 and 200, an offset up to
  a million, a known sort order and a trimmed search text, and normalizing again changes nothing.
\<close>

theorem site_filter_normal_form:
  assumes "site_filter_normalize f = Inr g"
  shows "site_filter_normal g \<and> site_filter_normalize g = Inr g"
  using site_filter_normalize_normal [OF assms] site_filter_normalize_idem [OF assms] by blast

theorem site_filter_normal_form_witness:
  "\<exists>g. site_filter_normalize \<lparr>sf_status = '''', sf_search = '''', sf_sort = '''', sf_limit = 0, sf_offset = 7\<rparr> = Inr g
    \<and> site_filter_normal g \<and> sf_limit g = 50 \<and> sf_sort g = ''code_asc''"
proof -
  let ?g = "\<lparr>sf_status = '''', sf_search = '''', sf_sort = ''code_asc'', sf_limit = 50, sf_offset = 7\<rparr>"
  have f: "site_filter_normalize \<lparr>sf_status = '''', sf_search = '''', sf_sort = '''', sf_limit = 0, sf_offset = 7\<rparr> = Inr ?g"
    by (simp add: site_filter_normalize_def Let_def)
  from site_filter_normal_form [OF f] f show ?thesis by auto
qed

section \<open>Configuration\<close>

text \<open>
  Every configuration that \<open>Load\<close> accepts is within policy: the lease outlasts the polling
  interval, intervals, batch and body sizes are in range, and bootstrap credentials come in pairs.
\<close>

theorem configuration_within_policy:
  assumes "config_load getenv parse = Inr cfg"
  shows "config_ok cfg"
  using assms by (rule config_load_ok)

theorem configuration_within_policy_witness:
  "\<exists>cfg. config_load (\<lambda>key. '''') (\<lambda>text. Inl '''') = Inr cfg \<and> config_ok cfg"
proof -
  have "case config_load (\<lambda>key. '''') (\<lambda>text. Inl '''') of Inl e \<Rightarrow> False | Inr cfg \<Rightarrow> True" by code_simp
  then obtain cfg where "config_load (\<lambda>key. '''') (\<lambda>text. Inl '''') = Inr cfg"
    by (auto split: sum.splits)
  with configuration_within_policy [OF this] show ?thesis by blast
qed

section \<open>Telemetry\<close>

text \<open>
  \<open>Evaluate\<close> raises at most two conditions, with different fingerprints, and none exactly when
  the state of charge lies strictly between its thresholds and the temperature below its own.
\<close>

theorem conditions_exact:
  assumes "evaluate s t = Inr cs"
  shows "length cs \<le> 2 \<and> distinct (map cd_fingerprint cs)
    \<and> (cs = [] \<longleftrightarrow> th_low_soc t < t_soc s \<and> t_soc s < th_high_soc t \<and> t_temperature s < th_high_temperature t)"
  using evaluate_conditions(1,2) [OF assms] is_healthy_iff [OF evaluate_Inr [OF assms], of s] assms
  by (simp add: is_healthy_def)

theorem conditions_exact_witness:
  "\<exists>cs. evaluate \<lparr>t_id = ''t'', t_cluster_id = ''pack'', t_sequence = 1, t_observed_at = demo_now, t_soc = 5,
      t_power_kw = 0, t_temperature = 70000, t_energy_wh = 0, t_received_at = demo_now\<rparr> default_thresholds = Inr cs
    \<and> length cs = 2 \<and> distinct (map cd_fingerprint cs)"
proof -
  let ?s = "\<lparr>t_id = ''t'', t_cluster_id = ''pack'', t_sequence = 1, t_observed_at = demo_now, t_soc = 5,
      t_power_kw = 0, t_temperature = 70000, t_energy_wh = 0, t_received_at = demo_now\<rparr>"
  have e: "evaluate ?s default_thresholds = Inr [soc_low_condition ?s default_thresholds, temperature_critical_condition ?s]"
    by (simp add: evaluate_def default_thresholds_valid) (simp add: default_thresholds_def)
  from conditions_exact [OF e] e show ?thesis by auto
qed

section \<open>Roles\<close>

text \<open>
  Duties are separated: no role may both write plans and approve them, so whoever can create or
  submit a plan is refused every approval.
\<close>

theorem duties_separated:
  assumes "principal_require p PermissionPlanWrite = Inr u"
  shows "approve_plan en rd db p pid v req
    = (db, snd (approve_plan en rd db p pid v req)) \<and> (\<exists>e. snd (approve_plan en rd db p pid v req) = Inl e)"
proof -
  have "\<not> role_allows (u_role (pr_user p)) PermissionPlanApprove" using assms write_approve_disjoint by auto
  then have "\<exists>e. principal_require p PermissionPlanApprove = Inl e"
    by (cases "principal_require p PermissionPlanApprove") auto
  then show ?thesis by (auto simp: approve_plan_def)
qed

theorem duties_separated_witness:
  "fst (approve_plan (demo_env ''t'') demo7 demo7 (demo_signed_in demo_ann) ''plan'' 2 '''') = demo7"
proof -
  have "principal_require (demo_signed_in demo_ann) PermissionPlanWrite = Inr ()" by simp
  from duties_separated [OF this] show ?thesis by (metis fst_conv)
qed

section \<open>Errors\<close>

text \<open>
  An error that is not one of the classified errors leaves the service as status 500 with a
  fixed text: its own text never reaches the client; and every answer for an error has one of the
  seven status codes of the classification.
\<close>

theorem internal_errors_hidden:
  assumes "as_fault e = None" "\<And>c. ended = Some c \<Longrightarrow> \<not> error_is e c"
  shows "write_error ended rid e = (500, \<lparr>ae_code = ''internal_error'', ae_message = ''internal service error'',
      ae_request_id = rid, ae_fields = None\<rparr>)
    \<and> fst (write_error other rid' e') \<in> {400, 401, 403, 404, 409, 500, 503}"
  using write_error_hides [OF assms] write_error_status by blast

theorem internal_errors_hidden_witness:
  "fst (write_error None ''req'' (conflict_error ''pack'')) = 500
    \<and> ae_message (snd (write_error None ''req'' (conflict_error ''pack''))) = ''internal service error''"
proof -
  have "as_fault (conflict_error ''pack'') = None" by (simp add: conflict_error_def)
  from internal_errors_hidden [OF this, of None "''req''"] show ?thesis by simp
qed

end
