(* ===== verification/ServiceProperties.thy ===== *)
theory ServiceProperties
  imports Config Scenario
begin

text \<open>
  The properties of the calls one by one: what a submission books, what failures leave behind, how
  workers share the jobs, sessions, what requests without a session or with a reading role can do,
  telemetry and alarms, idempotency keys, pages.  The witnesses run on the states of the scenario.
\<close>

section \<open>Workers\<close>

text \<open>The scenario goes on: two workers, the second one after the lease of the first has run out.\<close>

definition demo_executor :: "string \<Rightarrow> executor" where
  "demo_executor name = \<lparr>ex_owner = name, ex_interval = 2 * second, ex_lease = 20 * second, ex_timeout = 10 * second,
     ex_backoff = second, ex_batch = 8, ex_running = True\<rparr>"

definition demo_leased :: "string \<Rightarrow> time \<Rightarrow> i64 \<Rightarrow> job" where
  "demo_leased name at n = demo_job\<lparr>j_status := JobLeased, j_lease_owner := name, j_lease_until := Some (at + 20 * second),
     j_attempts := n, j_version := n + 1, j_updated_at := at\<rparr>"

definition demo10 :: database where
  "demo10 = demo9\<lparr>jobs := [demo_leased ''w1'' demo_now 1]\<rparr>"

definition demo11 :: database where
  "demo11 = demo9\<lparr>jobs := [demo_leased ''w2'' (demo_now + minute) 2]\<rparr>"

lemma demo_trim_workers: "trim_space ''w1'' = ''w1''" "trim_space ''w2'' = ''w2''" "\<not> blank ''w1''" "\<not> blank ''w2''"
  by code_simp+

lemma demo_lease1: "job_lease demo_job ''w1'' demo_now (20 * second) = Inr (demo_leased ''w1'' demo_now 1)"
  by (simp add: job_lease_Inr demo_trim_workers job_claimable_iff demo_leased_def) (simp add: demo_job_def incr64_def wrap64_def)

lemma demo_lease2: "job_lease (demo_leased ''w1'' demo_now 1) ''w2'' (demo_now + minute) (20 * second)
    = Inr (demo_leased ''w2'' (demo_now + minute) 2)"
  by (simp add: job_lease_Inr demo_trim_workers job_claimable_iff demo_leased_def incr64_def wrap64_def)

lemma claim_single:
  assumes "jobs db = [j]" "job_due now j" "job_lease j owner now d = Inr k" "0 < limit"
    and "job_row_violation (assign_lease k j) = None"
  shows "claim_jobs TxCommits (\<lambda>_. False) db owner limit now d = Inr (db\<lparr>jobs := [assign_lease k j]\<rparr>, [k])"
proof -
  have "j_id k = j_id j" using job_lease_frame [OF assms(3)] by simp
  then have "cas_rows j_id j_version assign_lease job_row_violation ''sqlite.claimJob'' [j] k (j_version j)
      = Inr [assign_lease k j]"
    using assms(5) by (subst cas_rows_Inr) (simp_all add: update_where_def)
  with assms show ?thesis
    by (simp add: claim_jobs_def claim_candidates_def sql_limit_def claim_one_def)
qed

lemma demo_lease_rows: "assign_lease (demo_leased ''w1'' demo_now 1) demo_job = demo_leased ''w1'' demo_now 1"
  "assign_lease (demo_leased ''w2'' (demo_now + minute) 2) (demo_leased ''w1'' demo_now 1) = demo_leased ''w2'' (demo_now + minute) 2"
  by (simp_all add: assign_lease_def demo_leased_def)

lemma demo_due: "job_due demo_now demo_job" "job_due (demo_now + minute) (demo_leased ''w1'' demo_now 1)"
proof -
  have "encode_time (demo_now + 20 * second) < encode_time (demo_now + minute)"
    by (subst encode_time_whole_seconds) (simp_all add: demo_now_def time_in_range_def)
  then show "job_due demo_now demo_job" "job_due (demo_now + minute) (demo_leased ''w1'' demo_now 1)"
    by (simp_all add: job_due_def demo_leased_def demo_job_def)
qed

lemma demo_claim1: "claim_jobs TxCommits (\<lambda>_. False) demo9 ''w1'' 8 demo_now (20 * second)
    = Inr (demo10, [demo_leased ''w1'' demo_now 1])"
proof -
  have "job_row_violation (assign_lease (demo_leased ''w1'' demo_now 1) demo_job) = None"
    by (simp add: demo_lease_rows job_row_violation_def) (simp add: demo_leased_def demo_job_def)
  from claim_single [OF _ demo_due(1) demo_lease1 _ this, of demo9 8] show ?thesis
    by (simp add: demo_lease_rows demo10_def)
qed

lemma demo_claim2: "claim_jobs TxCommits (\<lambda>_. False) demo10 ''w2'' 8 (demo_now + minute) (20 * second)
    = Inr (demo11, [demo_leased ''w2'' (demo_now + minute) 2])"
proof -
  have "job_row_violation (assign_lease (demo_leased ''w2'' (demo_now + minute) 2) (demo_leased ''w1'' demo_now 1)) = None"
    by (simp add: demo_lease_rows job_row_violation_def) (simp add: demo_leased_def demo_job_def)
  from claim_single [OF _ demo_due(2) demo_lease2 _ this, of demo10 8] show ?thesis
    by (simp add: demo_lease_rows demo10_def demo11_def)
qed

lemma demo_keys: "keys_ok demo9" "keys_ok demo8" "keys_ok demo10" "keys_ok demo11" "keys_ok demo7" "keys_ok demo6"
proof -
  show k: "keys_ok demo9" "keys_ok demo8" "keys_ok demo7" "keys_ok demo6"
    using run_keys [OF demo_history_runs] by (simp_all add: demo_history_def)
  show "keys_ok demo10" using claim_jobs_Inr(3) [OF k(1) demo_claim1] .
  then show "keys_ok demo11" using claim_jobs_Inr(3) [OF _ demo_claim2] by blast
qed

text \<open>
  C12. Leases are exclusive: while the lease of a claim runs, no other worker claims any of its jobs,
  however far the queries of the two overlap.
\<close>

theorem leases_exclusive:
  assumes "keys_ok db" "claim_jobs tx refused db owner limit now d = Inr (db1, claimed1)"
    and "claim_jobs tx' refused' db1 other limit' t d' = Inr (db2, claimed2)"
    and "now \<le> t" "t < now + d" "other \<noteq> trim_space owner"
  shows "j_id ` set claimed1 \<inter> j_id ` set claimed2 = {}"
  using assms by (rule claims_disjoint)

theorem leases_exclusive_witness:
  "\<exists>db2 claimed2. claim_jobs TxCommits (\<lambda>_. False) demo10 ''w2'' 8 demo_now (20 * second) = Inr (db2, claimed2)
    \<and> ''send'' \<notin> j_id ` set claimed2"
proof -
  obtain db2 claimed2 where c: "claim_jobs TxCommits (\<lambda>_. False) demo10 ''w2'' 8 demo_now (20 * second) = Inr (db2, claimed2)"
    by (simp add: claim_jobs_def in_tx_def) (metis surj_pair)
  from leases_exclusive [OF demo_keys(1) demo_claim1 c] have "''send'' \<notin> j_id ` set claimed2"
    by (simp add: demo_trim_workers demo_leased_def demo_job_def)
  with c show ?thesis by blast
qed

text \<open>
  C13. A worker that lost its lease cannot report: once another worker has claimed the job, whatever
  outcome the first worker reports leaves the database as it is.
\<close>

theorem lost_lease_is_silent:
  assumes "keys_ok db" "claim_jobs tx refused db owner limit now d = Inr (db1, claimed1)" "k1 \<in> set claimed1"
    and "claim_jobs tx' refused' db1 other limit' t d' = Inr (db2, claimed2)" "k2 \<in> set claimed2" "j_id k2 = j_id k1"
  shows "execute en ex outcome at k1 db2 = db2"
proof (rule execute_cases [of en ex outcome at k1 db2])
  fix k assume "job_report ex k1 outcome at = Inr k" "complete_job db2 k (j_version k1) = Inr (execute en ex outcome at k1 db2)"
  then show ?thesis using stale_report_refused [OF assms(1-6), of k] job_report_frame [of ex k1 outcome at k] by simp
qed

theorem lost_lease_is_silent_witness:
  "execute (demo_env ''t'') (demo_executor ''w1'') None (demo_now + second) (demo_leased ''w1'' demo_now 1) demo11 = demo11"
  using lost_lease_is_silent [OF demo_keys(1) demo_claim1 _ demo_claim2] by (simp add: demo_leased_def)

text \<open>
  C10. A cycle of the executor settles every job it claimed whose command ended before the lease:
  the row afterwards has no lease, and it has succeeded, waits for a further attempt, or has failed
  for good, exactly by what the gateway answered and the attempts left, in whatever order the
  goroutines of the cycle report.
\<close>

theorem cycle_settles_jobs:
  assumes "keys_ok db"
    and claim: "claim_jobs (en_tx en) refused db (ex_owner ex) (ex_batch ex) (en_now en 0) (ex_lease ex) = Inr (db1, claimed)"
    and run: "process_once en ex refused schedule gateway clock db = (db', out)" "mset (schedule claimed) = mset claimed"
    and j: "j \<in> set claimed" "clock j \<le> en_now en 0 + ex_lease ex"
    and quiet: "trim_space (ex_owner ex) = ex_owner ex" "en_driver en ''sqlite.CompleteJob'' = None"
  shows "\<exists>row. find_key j_id (j_id j) (jobs db') = Some row \<and> j_lease_until row = None \<and> j_status row =
    (case gateway j of None \<Rightarrow> JobSucceeded
     | Some e \<Rightarrow> if \<not> error_is e err_permanent \<and> \<not> error_is e err_canceled \<and> j_attempts j < j_max_attempts j
         then JobRetryable else JobPermanentFailure)"
proof -
  from claimed_row(2) [OF assms(1) claim j(1)] obtain old where "job_lease old (ex_owner ex) (en_now en 0) (ex_lease ex) = Inr j"
    by blast
  then have v: "verify_lease j (ex_owner ex) (clock j) = Inr ()"
    using j(2) quiet(1) by (simp add: job_lease_Inr verify_lease_Inr)
  then obtain k where k: "job_report ex j (gateway j) (clock j) = Inr k"
    by (cases "gateway j") (auto simp: job_report_def job_succeed_def job_fail_def Let_def)
  have "find_key j_id (j_id j) (jobs db') = Some (assign_job k j)"
    using process_once_row [OF assms(1) claim run j(1) k quiet(2)] .
  then show ?thesis using job_report_status [OF k] job_report_frame [OF k] by (simp add: assign_job_def)
qed

theorem cycle_settles_jobs_witness:
  "\<exists>row. find_key j_id ''send'' (jobs (fst (process_once (demo_env ''t'') (demo_executor ''w1'') (\<lambda>_. False) (\<lambda>js. js)
      (\<lambda>_. Some (Plain ''device busy'')) (\<lambda>_. demo_now + second) demo9))) = Some row
    \<and> j_lease_until row = None \<and> j_status row = JobRetryable"
proof -
  let ?ex = "demo_executor ''w1''" and ?j = "demo_leased ''w1'' demo_now 1"
  have c: "claim_jobs (en_tx (demo_env ''t'')) (\<lambda>_. False) demo9 (ex_owner ?ex) (ex_batch ?ex) (en_now (demo_env ''t'') 0) (ex_lease ?ex)
      = Inr (demo10, [?j])" using demo_claim1 by (simp add: demo_executor_def)
  have e: "\<not> error_is (Plain ''device busy'') err_permanent" "\<not> error_is (Plain ''device busy'') err_canceled" by code_simp+
  have f: "j_id ?j = ''send''" "j_attempts ?j = 1" "j_max_attempts ?j = 5" by (simp_all add: demo_leased_def demo_job_def)
  have d: "en_driver (demo_env ''t'') ''sqlite.CompleteJob'' = None" by (simp add: demo_env_def)
  from cycle_settles_jobs [OF demo_keys(1) c surjective_pairing, where schedule = "\<lambda>js. js"
      and gateway = "\<lambda>_. Some (Plain ''device busy'')" and clock = "\<lambda>_. demo_now + second" and j = ?j] d e f
  show ?thesis by (simp add: demo_executor_def demo_trim_workers)
qed

section \<open>Plans\<close>

lemma demo_submitted: "\<exists>q. submit_plan (demo_env ''book'') (\<lambda>k rs. rs) demo6 demo6 (demo_signed_in demo_ann)
   \<lparr>sp_plan_id = ''plan'', sp_expected_version = 1, sp_cluster_ids = [''pack'']\<rparr> '''' = (demo7, Inr q)
    \<and> p_requested_kw q = 400 \<and> p_site_id q = ''site''"
proof -
  let ?run = "submit_plan (demo_env ''book'') (\<lambda>k rs. rs) demo6 demo6 (demo_signed_in demo_ann)
    \<lparr>sp_plan_id = ''plan'', sp_expected_version = 1, sp_cluster_ids = [''pack'']\<rparr> ''''"
  have "reservations demo7 \<noteq> reservations demo6" by simp
  then have changed: "demo7 \<noteq> demo6" by metis
  obtain db' out where run: "?run = (db', out)" by fastforce
  then have db': "db' = demo7" using demo_run7 by simp
  show ?thesis
  proof (cases out)
    case (Inl e)
    with run submit_plan_atomic_failure have "db' = demo6" by blast
    with db' changed show ?thesis by simp
  next
    case (Inr q)
    note q = run [unfolded db' Inr]
    obtain plan now where
      p: "find_key p_id ''plan'' (plans demo6) = Some plan" "q = set_plan_status PlanSubmitted plan now"
      by (rule submit_plan_Inr [OF demo_keys(6) q]) (rule that, simp_all only: submit_plan_input.select_convs)
    then have "plan = demo_plan PlanDraft '''' None 1" by simp
    with p(2) have "p_requested_kw q = 400 \<and> p_site_id q = ''site''" by (simp add: set_plan_status_def)
    with q show ?thesis by blast
  qed
qed

text \<open>
  C18. A submission books exactly the clusters it names, in that order: each share is positive and
  within the rating of its cluster, is held for the window of the plan, and the shares add up to the
  requested power; in whatever order Go visits its maps.
\<close>

theorem submission_books_power:
  assumes "keys_ok db" "submit_plan en visit rd db p input req = (db', Inr submitted)"
    and "\<forall>c \<in> set (clusters rd). cluster_ok c \<and> \<not> blank (c_id c)" "visits_all visit"
      "length (sp_cluster_ids input) \<le> 4000000000000" "p_requested_kw submitted \<le> 10000000"
  shows "\<exists>rs. reservations db' = reservations db @ rs
    \<and> sum_list (map r_kw rs) = p_requested_kw submitted
    \<and> map r_cluster_id rs = sp_cluster_ids input
    \<and> (\<forall>r \<in> set rs. r_plan_id r = p_id submitted \<and> r_window r = p_window submitted \<and> 0 < r_kw r
         \<and> (\<exists>c. find_key c_id (r_cluster_id r) (clusters rd) = Some c \<and> r_kw r \<le> c_rated_kw c))"
  using assms by (rule submit_plan_power)

theorem submission_books_power_witness:
  "\<exists>rs. reservations demo7 = rs \<and> sum_list (map r_kw rs) = 400 \<and> map r_cluster_id rs = [''pack'']"
proof -
  from demo_submitted obtain q where q: "submit_plan (demo_env ''book'') (\<lambda>k rs. rs) demo6 demo6 (demo_signed_in demo_ann)
   \<lparr>sp_plan_id = ''plan'', sp_expected_version = 1, sp_cluster_ids = [''pack'']\<rparr> '''' = (demo7, Inr q)" "p_requested_kw q = 400"
    by blast
  have "cluster_ok (demo_cluster ClusterAvailable 1)" "\<not> blank ''pack''" by code_simp+
  with submission_books_power [OF demo_keys(6) q(1)] q(2) show ?thesis by (auto simp: visits_all_def)
qed

text \<open>
  C9. Overlapping submissions cannot book the same capacity twice: of two submissions that read a
  site at the same version, the one that writes second is refused and changes nothing.
\<close>

theorem overlapping_submissions:
  assumes "keys_ok db" and first: "submit_plan en visit rd db p input req = (db1, Inr submitted)"
    and second: "submit_plan en' visit' rd' db1 p' input' req' = (db2, out)"
    and same: "find_key p_id (sp_plan_id input') (plans rd') = Some q" "p_site_id q = p_site_id submitted"
      "find_key s_id (p_site_id q) (sites rd') = find_key s_id (p_site_id q) (sites rd)"
  shows "db2 = db1 \<and> (\<exists>e. out = Inl e)"
proof (cases out)
  case (Inr other)
  note ok1 = submit_plan_keys [OF assms(1) first]
  obtain plan owner rs now e where
    a: "find_key s_id (p_site_id plan) (sites rd) = Some owner" "submitted = set_plan_status PlanSubmitted plan now"
    and b: "submit_body submitted (p_version plan) rs (p_site_id plan) (p_requested_kw plan) (s_version owner) (Some (insert_audit e)) db = Inr db1"
    by (rule submit_plan_Inr [OF assms(1) first]) (rule that)
  obtain plan' owner' rs' e' where
    a': "find_key p_id (sp_plan_id input') (plans rd') = Some plan'" "find_key s_id (p_site_id plan') (sites rd') = Some owner'"
    and b': "submit_body other (p_version plan') rs' (p_site_id plan') (p_requested_kw plan') (s_version owner') (Some (insert_audit e')) db1 = Inr db2"
    by (rule submit_plan_Inr [OF ok1 second [unfolded Inr]]) (rule that)
  have sid: "p_site_id plan' = p_site_id plan" using a a' same by (simp add: set_plan_status_def)
  then have own: "owner' = owner" using a(1) a' same by simp
  from submit_body_Inr [OF assms(1) b] obtain s where s: "find_key s_id (p_site_id plan) (sites db) = Some s" "s_version s = s_version owner"
    and d: "insert_audit e (submitted_db submitted rs (p_site_id plan) (p_requested_kw plan) db) = Inr db1"
    unfolding site_has_room_def by blast
  from d have "sites db1 = update_where (\<lambda>s. s_id s = p_site_id plan) (add_reserved (p_requested_kw plan) (p_updated_at submitted)) (sites db)"
    by (auto simp: insert_audit_Inr submitted_db_def)
  then have "find_key s_id (p_site_id plan) (sites db1)
      = Some (add_reserved (p_requested_kw plan) (p_updated_at submitted) s)"
    using s(1) find_key_SomeD [OF s(1)] by (simp add: find_key_update_where add_reserved_def)
  moreover from submit_body_Inr [OF ok1 b'] obtain t where
    "find_key s_id (p_site_id plan) (sites db1) = Some t" "s_version t = s_version owner"
    unfolding sid own site_has_room_def by blast
  ultimately have "incr64 (s_version s) = s_version owner" by (simp add: add_reserved_def)
  with s(2) show ?thesis by simp
qed (use second submit_plan_atomic_failure in blast)

theorem overlapping_submissions_witness:
  "\<exists>e. submit_plan (demo_env ''other'') (\<lambda>k rs. rs) demo6 demo7 (demo_signed_in demo_ann)
   \<lparr>sp_plan_id = ''plan'', sp_expected_version = 1, sp_cluster_ids = [''pack'']\<rparr> '''' = (demo7, Inl e)"
proof -
  from demo_submitted obtain q where q: "submit_plan (demo_env ''book'') (\<lambda>k rs. rs) demo6 demo6 (demo_signed_in demo_ann)
   \<lparr>sp_plan_id = ''plan'', sp_expected_version = 1, sp_cluster_ids = [''pack'']\<rparr> '''' = (demo7, Inr q)" "p_site_id q = ''site''"
    by blast
  from overlapping_submissions [OF demo_keys(6) q(1) surjective_pairing, where q = "demo_plan PlanDraft '''' None 1"] q(2)
  show ?thesis by (simp add: prod_eq_iff)
qed

section \<open>Failures\<close>

lemma fst_on_failure: "(\<And>db' e. x = (db', Inl e) \<Longrightarrow> db' = db) \<Longrightarrow> snd x = Inl e \<longrightarrow> fst x = db"
  by (cases x) simp

text \<open>
  C19. A call that writes several tables and fails leaves no trace: submitting, dispatching,
  recording telemetry, acknowledging and resolving alarms, closing a period and completing an
  idempotent request change nothing when they return an error, whatever the error is.
\<close>

theorem failures_leave_no_trace:
  "(\<forall>e. snd (submit_plan en visit rd db p sub req) = Inl e \<longrightarrow> fst (submit_plan en visit rd db p sub req) = db)
    \<and> (\<forall>e. snd (dispatch_plan en rd db p pid v req) = Inl e \<longrightarrow> fst (dispatch_plan en rd db p pid v req) = db)
    \<and> (\<forall>e. snd (record_telemetry en th rd db p input req) = Inl e \<longrightarrow> fst (record_telemetry en th rd db p input req) = db)
    \<and> (\<forall>e. snd (acknowledge_alarm en rd db p aid v req) = Inl e \<longrightarrow> fst (acknowledge_alarm en rd db p aid v req) = db)
    \<and> (\<forall>e. snd (resolve_alarm en th rd db p aid v req) = Inl e \<longrightarrow> fst (resolve_alarm en th rd db p aid v req) = db)
    \<and> (\<forall>e. snd (calculate_and_close en rd db p sid v price req) = Inl e \<longrightarrow> fst (calculate_and_close en rd db p sid v price req) = db)
    \<and> (\<forall>e. snd (complete_request en db r st body) = Inl e \<longrightarrow> fst (complete_request en db r st body) = db)"
  by (intro conjI allI fst_on_failure)
    (erule submit_plan_atomic_failure dispatch_plan_atomic_failure failed_calls_change_nothing)+

theorem failures_leave_no_trace_witness:
  "fst (calculate_and_close (demo_env ''t'') demo9 demo9 (demo_signed_in demo_ann) ''period'' 1 50 '''') = demo9
    \<and> fst (dispatch_plan (demo_env ''t'') demo8 demo8 (demo_signed_in demo_ann) ''plan'' 3 '''') = demo8"
proof -
  have "principal_require (demo_signed_in demo_ann) PermissionSettlementClose = Inl (with_fields err_permission
      [(''role'', ''dispatcher''), (''permission'', ''settlement:close'')])"
    "principal_require (demo_signed_in demo_ann) PermissionPlanDispatch = Inl (with_fields err_permission
      [(''role'', ''dispatcher''), (''permission'', ''plan:dispatch'')])" by code_simp+
  then have "\<exists>e. snd (calculate_and_close (demo_env ''t'') demo9 demo9 (demo_signed_in demo_ann) ''period'' 1 50 '''') = Inl e"
    "\<exists>e. snd (dispatch_plan (demo_env ''t'') demo8 demo8 (demo_signed_in demo_ann) ''plan'' 3 '''') = Inl e"
    by (simp_all add: calculate_and_close_def dispatch_plan_def)
  then obtain e f where "snd (calculate_and_close (demo_env ''t'') demo9 demo9 (demo_signed_in demo_ann) ''period'' 1 50 '''') = Inl e"
    "snd (dispatch_plan (demo_env ''t'') demo8 demo8 (demo_signed_in demo_ann) ''plan'' 3 '''') = Inl f" by blast
  then show ?thesis
    using failures_leave_no_trace [THEN conjunct2, THEN conjunct1] failures_leave_no_trace [THEN conjunct2, THEN conjunct2,
      THEN conjunct2, THEN conjunct2, THEN conjunct2, THEN conjunct1] by blast
qed

text \<open>
  The plan the call read, approved by its actor at its time, was written with the version the client
  expects, and the audit log says nothing of it.
\<close>

definition approved_unlogged :: "env \<Rightarrow> database \<Rightarrow> database \<Rightarrow> principal \<Rightarrow> string \<Rightarrow> i64 \<Rightarrow> database \<Rightarrow> bool" where
  "approved_unlogged en rd db p pid v db' \<longleftrightarrow> (\<exists>seen q row. find_key p_id pid (plans rd) = Some seen
     \<and> plan_approve seen (u_id (pr_user p)) v (en_now en 0) = Inr q \<and> update_plan db q v = Inr db'
     \<and> find_key p_id pid (plans db') = Some row \<and> p_status row = PlanApproved
     \<and> p_approved_by row = nullable_string (u_id (pr_user p)) \<and> p_approved_at row = Some (en_now en 0)
     \<and> audit_events db' = audit_events db)"

lemma approved_unloggedI:
  assumes "keys_ok db" "find_key p_id pid (plans rd) = Some seen"
    and "plan_approve seen (u_id (pr_user p)) v (en_now en 0) = Inr q" "update_plan db q v = Inr db'"
  shows "approved_unlogged en rd db p pid v db'"
proof -
  from assms(4) obtain old where old: "find_key p_id (p_id q) (plans db) = Some old"
    "db' = db\<lparr>plans := update_where (\<lambda>r. p_id r = p_id q) (assign_plan q) (plans db)\<rparr>"
    by (auto simp: update_plan_Inr [OF assms(1)])
  have q: "p_id q = pid" "p_status q = PlanApproved" "p_approved_by q = u_id (pr_user p)" "p_approved_at q = Some (en_now en 0)"
    using assms(2,3) by (auto simp: plan_approve_Inr dest: find_key_SomeD)
  have "find_key p_id pid (plans db') = Some (assign_plan q old)"
    using old find_key_SomeD [OF old(1)] q(1) by (simp add: find_key_update_where)
  moreover have "p_status (assign_plan q old) = PlanApproved" "p_approved_at (assign_plan q old) = Some (en_now en 0)"
    "p_approved_by (assign_plan q old) = nullable_string (u_id (pr_user p))" by (simp_all add: assign_plan_def q)
  moreover have "audit_events db' = audit_events db" by (simp add: old(2))
  ultimately show ?thesis using assms(2-4) unfolding approved_unlogged_def by blast
qed

lemma approve_plan_cases:
  assumes "keys_ok db" "approve_plan en rd db p pid v req = (db', Inl e)"
  shows "db' = db \<or> approved_unlogged en rd db p pid v db'"
proof -
  from assms(2) consider "db' = db" | plan q where "via en ''sqlite.scanPlan'' (plan_by_id rd pid) = Inr plan"
    "plan_approve plan (u_id (pr_user p)) v (en_now en 0) = Inr q" "via en ''sqlite.UpdatePlan'' (update_plan db q v) = Inr db'"
    unfolding approve_plan_def checked_def by (auto split: sum.splits)
  then show ?thesis by cases (auto simp: plan_by_id_def intro: approved_unloggedI [OF assms(1)])
qed

text \<open>
  C20. An approval that fails either changed nothing or approved the plan all the same: it wrote the
  plan it had read, with its own actor as approver, and no event.  That is what it does whenever only
  the insertion of the event fails, since that is a statement of its own after the one that writes the
  plan: the plan stays approved, the client gets the error, and the audit log has no event.
\<close>

theorem approval_failures:
  assumes "keys_ok db"
  shows "(\<forall>e. snd (approve_plan en rd db p pid v req) = Inl e \<longrightarrow> fst (approve_plan en rd db p pid v req) = db
      \<or> approved_unlogged en rd db p pid v (fst (approve_plan en rd db p pid v req)))
    \<and> (\<forall>seen q db1 e. principal_require p PermissionPlanApprove = Inr () \<and> find_key p_id pid (plans rd) = Some seen
        \<and> plan_approve seen (u_id (pr_user p)) v (en_now en 0) = Inr q \<and> update_plan db q v = Inr db1
        \<and> en_driver en ''sqlite.scanPlan'' = None \<and> en_driver en ''sqlite.UpdatePlan'' = None
        \<and> en_driver en ''sqlite.insertAudit'' = Some e \<longrightarrow>
      approve_plan en rd db p pid v req = (db1, Inl (translate ''sqlite.insertAudit'' e))
        \<and> approved_unlogged en rd db p pid v db1)"
proof (intro conjI allI impI; (elim conjE)?)
  fix e assume "snd (approve_plan en rd db p pid v req) = Inl e"
  then show "fst (approve_plan en rd db p pid v req) = db \<or> approved_unlogged en rd db p pid v (fst (approve_plan en rd db p pid v req))"
    using approve_plan_cases [OF assms, of en rd p pid v req] by (metis surjective_pairing)
next
  fix seen q db1 e
  assume a: "principal_require p PermissionPlanApprove = Inr ()" "find_key p_id pid (plans rd) = Some seen"
    "plan_approve seen (u_id (pr_user p)) v (en_now en 0) = Inr q" "update_plan db q v = Inr db1"
    "en_driver en ''sqlite.scanPlan'' = None" "en_driver en ''sqlite.UpdatePlan'' = None" "en_driver en ''sqlite.insertAudit'' = Some e"
  then have v: "via en ''sqlite.scanPlan'' (plan_by_id rd pid) = Inr seen" "via en ''sqlite.UpdatePlan'' (update_plan db q v) = Inr db1"
    "audit_insert en ev d = Inl (translate ''sqlite.insertAudit'' e)" for ev d
    by (simp_all add: via_def audit_insert_def plan_by_id_def)
  show "approve_plan en rd db p pid v req = (db1, Inl (translate ''sqlite.insertAudit'' e))"
    unfolding approve_plan_def a(1,3) v checked_simps ..
  show "approved_unlogged en rd db p pid v db1" by (rule approved_unloggedI [OF assms a(2-4)])
qed

text \<open>In the scenario: the disk is full when the event is written.\<close>

theorem approval_failures_witness:
  "\<exists>en db'. approve_plan en demo7 demo7 (demo_signed_in demo_bob) ''plan'' 2 '''' = (db', Inl (translate ''sqlite.insertAudit'' (Plain ''disk full'')))
    \<and> plans db' = [demo_plan PlanApproved ''bob'' (Some demo_now) 3] \<and> audit_events db' = audit_events demo7"
proof -
  define failing where "failing = (demo_env ''okay'')\<lparr>en_driver :=
    (\<lambda>op. if op = ''sqlite.insertAudit'' then Some (Plain ''disk full'') else None)\<rparr>"
  let ?db = "demo7\<lparr>plans := [demo_plan PlanApproved ''bob'' (Some demo_now) 3]\<rparr>"
  have e: "en_driver failing ''sqlite.scanPlan'' = None" "en_driver failing ''sqlite.UpdatePlan'' = None"
    "en_driver failing ''sqlite.insertAudit'' = Some (Plain ''disk full'')" "en_now failing 0 = demo_now"
    by (simp_all add: failing_def)
  have r: "principal_require (demo_signed_in demo_bob) PermissionPlanApprove = Inr ()" "u_id (pr_user (demo_signed_in demo_bob)) = ''bob''"
    by code_simp+
  have f: "find_key p_id ''plan'' (plans demo7) = Some (demo_plan PlanSubmitted '''' None 2)"
    using demo_approval(1) by (simp add: plan_by_id_def)
  have "approve_plan failing demo7 demo7 (demo_signed_in demo_bob) ''plan'' 2 '''' = (?db, Inl (translate ''sqlite.insertAudit'' (Plain ''disk full'')))"
    using approval_failures [OF demo_keys(5), THEN conjunct2, rule_format, OF conjI, OF r(1) conjI, OF f] demo_approval(2,3) e
    by (metis r(2))
  then show ?thesis by (intro exI [of _ failing] exI [of _ ?db]) simp
qed

section \<open>Sessions\<close>

definition demo_auth :: auth_service where
  "demo_auth = \<lparr>as_ttl = hour, as_touch_interval = 5 * minute\<rparr>"

definition demo_session :: session where
  "demo_session = \<lparr>ss_id = ''in'', ss_user_id = ''ann'', ss_token_hash = hash_token (\<lambda>s. s) (base64_url ''r''),
     ss_expires_at = demo_now + hour, ss_revoked_at = None, ss_last_seen_at = demo_now, ss_created_at = demo_now\<rparr>"

definition demo_visitor :: principal where
  "demo_visitor = \<lparr>pr_user = demo_ann, pr_session = demo_session\<rparr>"

lemma demo_events:
  "\<exists>e. insert_audit (event_or_zero (new_event uuid ''ann'' req typ obj act res det at)) (demo2\<lparr>sessions := ss\<rparr>)
    = Inr (demo2\<lparr>sessions := ss, audit_events := [e]\<rparr>)"
proof -
  let ?e = "event_or_zero (new_event uuid ''ann'' req typ obj act res det at)"
  have "ev_actor_id ?e = ''ann'' \<or> ev_actor_id ?e = ''''"
    by (cases "new_event uuid ''ann'' req typ obj act res det at")
      (auto simp: event_or_zero_def zero_event_def demo_trims dest!: new_event_Inr)
  then have "user_ref_ok (demo2\<lparr>sessions := ss\<rparr>) (ev_actor_id ?e)"
    by (auto simp: user_ref_ok_def user_exists_def demo_plan_ref)
  then show ?thesis by (simp add: insert_audit_Inr event_violation_def) (rule exI, rule refl)
qed

lemma demo_insert_session: "insert_session demo2 demo_session = Inr (demo2\<lparr>sessions := [demo_session]\<rparr>)"
proof -
  have "sessions demo2 = []" by (simp add: demo2_def empty_database_def)
  then show ?thesis by (simp add: insert_session_Inr session_violation_def user_exists_def) (simp add: demo_session_def)
qed

lemma demo_login:
  "\<exists>r e. login (demo_env ''in'') demo_libs demo_auth demo2 demo2
      \<lparr>lg_email = ''ann@grid.test'', lg_password = ''Correct-Horse-1'', lg_request = ''''\<rparr>
    = (demo2\<lparr>sessions := [demo_session], audit_events := [e]\<rparr>, Inr r)
    \<and> uv_id (lr_user r) = ''ann'' \<and> lr_expires_at r = demo_now + hour \<and> lr_token r = base64_url ''r''"
proof -
  have n: "normalize_email (li_lower demo_libs) (li_address demo_libs) ''ann@grid.test'' = Inr ''ann@grid.test''" by code_simp
  have "find_key (nocase \<circ> u_email) (nocase ''ann@grid.test'') (users demo2) = Some demo_ann" by code_simp
  then have u: "user_by_email demo2 ''ann@grid.test'' = Inr demo_ann"
    by (simp add: user_by_email_def query_row_def comp_def)
  have v: "verify_password (li_bcrypt_matches demo_libs) demo_ann ''Correct-Horse-1'' = Inr ()" by code_simp
  have s: "issue_session (li_sha256 demo_libs) (li_random demo_libs) ''in'' ''ann'' demo_now (as_ttl demo_auth)
      = Inr \<lparr>is_session = demo_session, is_token = base64_url ''r''\<rparr>"
    by (simp add: issue_session_def blank_def demo_trims demo_session_def demo_libs_def demo_auth_def time_add_def Let_def)
  note i = demo_insert_session
  obtain e where e: "insert_audit (event_or_zero (new_event ''inx'' ''ann'' ''system'' ''session'' (ss_id demo_session) ''login'' ''success''
      (json_object [(''expires_at'', json_string (encode_time (ss_expires_at demo_session)))]) demo_now)) (demo2\<lparr>sessions := [demo_session]\<rparr>)
      = Inr (demo2\<lparr>sessions := [demo_session], audit_events := [e]\<rparr>)" using demo_events by blast
  let ?r = "\<lparr>lr_token = base64_url ''r'', lr_expires_at = ss_expires_at demo_session, lr_user = view_user demo_ann\<rparr>"
  have "login (demo_env ''in'') demo_libs demo_auth demo2 demo2
      \<lparr>lg_email = ''ann@grid.test'', lg_password = ''Correct-Horse-1'', lg_request = ''''\<rparr>
    = (demo2\<lparr>sessions := [demo_session], audit_events := [e]\<rparr>, Inr ?r)"
    by (simp add: login_def n u v s i e Let_def cong: checked_weak_cong)
  moreover have "uv_id (lr_user ?r) = ''ann''" "lr_expires_at ?r = demo_now + hour" "lr_token ?r = base64_url ''r''"
    by (simp_all add: demo_session_def view_user_def)
  ultimately show ?thesis by blast
qed

text \<open>
  C23. A login opens a session: until it expires, the token it returns authenticates as the user who
  logged in, whatever the interval of touching, provided the account is still active.
\<close>

theorem login_opens_session:
  assumes "keys_ok db" "login en lib s rd db input = (db1, Inr r)" "li_random lib = Inr bytes" "bytes \<noteq> []"
    and "user_by_id db1 (uv_id (lr_user r)) = Inr u" "u_active u"
    and "en_now en' 0 < lr_expires_at r" "\<And>op. en_driver en' op = None"
  shows "\<exists>db2 p. authenticate en' lib s' db1 db1 (lr_token r) = (db2, Inr p) \<and> pr_user p = u"
  using assms by (rule login_then_authenticate)

theorem login_opens_session_witness:
  "\<exists>e db2 p. authenticate (demo_env ''t'') demo_libs demo_auth (demo2\<lparr>sessions := [demo_session], audit_events := [e]\<rparr>)
      (demo2\<lparr>sessions := [demo_session], audit_events := [e]\<rparr>) (base64_url ''r'') = (db2, Inr p) \<and> pr_user p = demo_ann"
proof -
  obtain r e where l: "login (demo_env ''in'') demo_libs demo_auth demo2 demo2
      \<lparr>lg_email = ''ann@grid.test'', lg_password = ''Correct-Horse-1'', lg_request = ''''\<rparr>
    = (demo2\<lparr>sessions := [demo_session], audit_events := [e]\<rparr>, Inr r)"
    and r: "uv_id (lr_user r) = ''ann''" "lr_expires_at r = demo_now + hour" "lr_token r = base64_url ''r''"
    using demo_login by blast
  have k: "keys_ok demo2" using run_keys [OF demo_history_runs] by (simp add: demo_history_def)
  have q: "li_random demo_libs = Inr ''r''" "u_active demo_ann" "\<And>op. en_driver (demo_env ''t'') op = None"
    by (simp_all add: demo_libs_def demo_ann_def demo_user_def demo_env_def)
  have u: "user_by_id (demo2\<lparr>sessions := [demo_session], audit_events := [e]\<rparr>) (uv_id (lr_user r)) = Inr demo_ann"
    by (simp add: user_by_id_def r)
  have lt: "en_now (demo_env ''t'') 0 < lr_expires_at r" "''r'' \<noteq> []" by (simp_all add: r)
  from login_opens_session [OF k l q(1) lt(2) u q(2) lt(1) q(3), of demo_auth] show ?thesis unfolding r(3) by blast
qed

text \<open>
  C24. A logout closes the session for good: the token of the session is refused with status 401
  from then on, by every request.
\<close>

theorem logout_closes_session:
  assumes "keys_ok db" "logout en db p request = (db1, Inr ())"
    and "find_key ss_token_hash (hash_token (li_sha256 lib) (trim_space token)) (sessions db) = Some opened"
    and "ss_id opened = ss_id (pr_session p)" "trim_space token \<noteq> ''''" "en_driver en' ''sqlite.SessionByHash'' = None"
  shows "\<exists>e. authenticate en' lib s db1 db1 token = (db1, Inl e) \<and> http_status e = 401"
  using logout_then_refused [OF assms] by (simp add: status_new)

theorem logout_closes_session_witness:
  "\<exists>db1. logout (demo_env ''out'') (demo2\<lparr>sessions := [demo_session]\<rparr>) demo_visitor '''' = (db1, Inr ())
    \<and> (\<exists>e. authenticate (demo_env ''t'') demo_libs demo_auth db1 db1 (base64_url ''r'') = (db1, Inl e) \<and> http_status e = 401)"
proof -
  let ?db = "demo2\<lparr>sessions := [demo_session]\<rparr>"
  have s: "ss_id (pr_session demo_visitor) = ''in''" "u_id (pr_user demo_visitor) = ''ann''"
    by (simp_all add: demo_visitor_def demo_session_def)
  have v: "revoke_session ?db ''in'' demo_now
    = Inr (demo2\<lparr>sessions := [demo_session\<lparr>ss_revoked_at := Some demo_now\<rparr>]\<rparr>)"
    by (simp add: revoke_session_def exec_update_def expect_one_def List.map_filter_simps) (simp add: demo_session_def)
  have k2: "keys_ok demo2" using run_keys [OF demo_history_runs] by (simp add: demo_history_def)
  note k = insert_session_keys [OF k2 demo_insert_session]
  obtain e where e: "insert_audit (event_or_zero (new_event ''out'' ''ann'' ''system'' ''session'' ''in'' ''logout'' ''success''
      json_null demo_now)) (demo2\<lparr>sessions := [demo_session\<lparr>ss_revoked_at := Some demo_now\<rparr>]\<rparr>)
      = Inr (demo2\<lparr>sessions := [demo_session\<lparr>ss_revoked_at := Some demo_now\<rparr>], audit_events := [e]\<rparr>)"
    using demo_events by blast
  have out: "logout (demo_env ''out'') ?db demo_visitor '''' = (demo2\<lparr>sessions := [demo_session\<lparr>ss_revoked_at := Some demo_now\<rparr>], audit_events := [e]\<rparr>, Inr ())"
    using e by (simp add: logout_def Let_def v s cong: checked_weak_cong)
  have f: "find_key ss_token_hash (hash_token (li_sha256 demo_libs) (trim_space (base64_url ''r''))) (sessions ?db) = Some demo_session"
    "ss_id demo_session = ss_id (pr_session demo_visitor)" "trim_space (base64_url ''r'') \<noteq> ''''"
    by (simp_all add: trim_base64_url s demo_libs_def del: base64_url.simps) (simp_all add: demo_session_def)
  have "en_driver (demo_env ''t'') ''sqlite.SessionByHash'' = None" by (simp add: demo_env_def)
  from logout_closes_session [OF k out f this] out show ?thesis by blast
qed

section \<open>Idempotency keys\<close>










definition demo_record :: idem_record where
  "demo_record = \<lparr>i_id = ''key'', i_actor_id = ''ann'', i_method = ''POST'', i_path = ''/v1/plans'', i_key = ''key-0001'',
     i_request_hash = hex_encode ''body'', i_response_status = 0, i_response_body = '''', i_state = Started,
     i_expires_at = demo_now + hour, i_created_at = demo_now, i_updated_at = demo_now\<rparr>"

lemma demo_keyed:
  "stored_scope (\<lambda>s. s) demo_visitor ''POST'' ''/v1/plans'' ''key-0001''"
  "begin_request (\<lambda>s. s) (\<lambda>s. s) hour (\<lambda>_. demo_env ''key'') (\<lambda>_. demo2) (\<lambda>_. demo2) 0 1 demo_visitor ''POST'' ''/v1/plans'' ''key-0001'' ''body''
    = Some (demo2\<lparr>idempotency_keys := [demo_record]\<rparr>, Inr \<lparr>id_record = demo_record, id_replay = False, id_status = 0, id_body = ''''\<rparr>)"
  "\<exists>db2. complete_request (demo_env ''t'') (demo2\<lparr>idempotency_keys := [demo_record]\<rparr>) demo_record 201 ''made'' = (db2, Inr ())"
proof -
  have t: "upper_text (\<lambda>s. s) (trim_space ''POST'') = ''POST''" "trim_space ''/v1/plans'' = ''/v1/plans''" "trim_space ''key-0001'' = ''key-0001''"
    by code_simp+
  have u: "u_id (pr_user demo_visitor) = ''ann''" by (simp add: demo_visitor_def)
  have e: "idempotency_keys demo2 = []" by (simp add: demo2_def empty_database_def)
  show "stored_scope (\<lambda>s. s) demo_visitor ''POST'' ''/v1/plans'' ''key-0001''"
    by (simp add: stored_scope_def u t demo_trims)
  have s: "idem_start (\<lambda>s. s) (\<lambda>s. s) ''key'' ''ann'' ''POST'' ''/v1/plans'' ''key-0001'' ''body'' demo_now hour = Inr demo_record"
    by (simp add: idem_start_def t demo_trims Let_def demo_record_def time_add_def)
  have i: "insert_idempotency demo2 demo_record = Inr (demo2\<lparr>idempotency_keys := [demo_record]\<rparr>)"
    by (simp add: insert_idempotency_Inr idem_violation_def e user_exists_def) (simp add: demo_record_def)
  have "is_kind (translate ''sqlite.IdempotencyByScope'' err_no_rows) NotFound" by (simp add: is_kind_def wrap_fault_def)
  then show "begin_request (\<lambda>s. s) (\<lambda>s. s) hour (\<lambda>_. demo_env ''key'') (\<lambda>_. demo2) (\<lambda>_. demo2) 0 1 demo_visitor ''POST'' ''/v1/plans'' ''key-0001'' ''body''
    = Some (demo2\<lparr>idempotency_keys := [demo_record]\<rparr>, Inr \<lparr>id_record = demo_record, id_replay = False, id_status = 0, id_body = ''''\<rparr>)"
    by (simp add: One_nat_def u s i e idempotency_by_scope_def Let_def del: translate_no_rows)
  show "\<exists>db2. complete_request (demo_env ''t'') (demo2\<lparr>idempotency_keys := [demo_record]\<rparr>) demo_record 201 ''made'' = (db2, Inr ())"
    by (simp add: complete_request_def idem_complete_def demo_record_def complete_idempotency_def exec_update_def expect_one_def
        List.map_filter_simps)
qed


text \<open>
  C15. \<open>Begin\<close> returns after at most one repetition, when method, path and key are in the form they
  are stored in: a second request that overtakes it makes its insertion fail, and the repetition
  finds the record of that request.
\<close>

theorem begin_returns:
  assumes "stored_scope upper p m pth key" "user_exists (dbs 0) (u_id (pr_user p))"
    and "\<forall>r \<in> set (idempotency_keys (dbs 0)). i_id r \<noteq> en_uuid (ens 0) 0"
    and "set (idempotency_keys (dbs 0)) \<subseteq> set (idempotency_keys (rds (Suc 0)))"
    and "\<And>k op. en_driver (ens k) op = None"
  shows "\<exists>out. begin_request upper sha256 ttl ens rds dbs 0 2 p m pth key request = Some out"
  using assms by (rule begin_request_returns)

theorem begin_returns_witness:
  "\<exists>out. begin_request (\<lambda>s. s) (\<lambda>s. s) hour (\<lambda>_. demo_env ''t'') (\<lambda>k. if k = 0 then demo2 else demo2\<lparr>idempotency_keys := [demo_record]\<rparr>)
    (\<lambda>_. demo2\<lparr>idempotency_keys := [demo_record]\<rparr>) 0 2 demo_visitor ''POST'' ''/v1/plans'' ''key-0001'' ''body'' = Some out"
  by (rule begin_returns [OF demo_keyed(1)])
    (simp_all add: user_exists_def demo_visitor_def demo_record_def demo_env_def)

text \<open>
  C16. With a method, path or key that is not in that form \<open>Begin\<close> does not return at all once its
  record exists: the query asks for the text of the request, the record is stored under the trimmed
  texts and the method in capitals, so the query never finds it and every insertion conflicts,
  however often the call repeats itself.
\<close>

theorem begin_never_returns:
  assumes "trim_space (u_id (pr_user p)) = u_id (pr_user p)"
    and "(upper_text upper (trim_space m), trim_space pth, trim_space key) \<noteq> (m, pth, key)"
    and "\<forall>r \<in> set (idempotency_keys db). idem_scope r \<noteq> (u_id (pr_user p), m, pth, key)"
    and "r \<in> set (idempotency_keys db)" "idem_scope r = (u_id (pr_user p), upper_text upper (trim_space m), trim_space pth, trim_space key)"
    and "\<And>k. \<exists>r. idem_start upper sha256 (en_uuid (ens k) 0) (u_id (pr_user p)) m pth key request (en_now (ens k) 0) ttl = Inr r"
    and "\<And>k op. en_driver (ens k) op = None"
  shows "begin_request upper sha256 ttl ens (\<lambda>_. db) (\<lambda>_. db) k fuel p m pth key request = None"
  using assms by (rule begin_request_diverges)

theorem begin_never_returns_witness:
  "\<forall>fuel. begin_request (\<lambda>s. s) (\<lambda>s. s) hour (\<lambda>_. demo_env ''t'') (\<lambda>_. demo2\<lparr>idempotency_keys := [demo_record]\<rparr>)
    (\<lambda>_. demo2\<lparr>idempotency_keys := [demo_record]\<rparr>) 0 fuel demo_visitor ''post'' ''/v1/plans'' ''key-0001'' ''body'' = None"
proof
  fix fuel
  have t: "upper_text (\<lambda>s. s) (trim_space ''post'') = ''POST''" "trim_space ''/v1/plans'' = ''/v1/plans''" "trim_space ''key-0001'' = ''key-0001''"
    by code_simp+
  have u: "u_id (pr_user demo_visitor) = ''ann''" by (simp add: demo_visitor_def)
  show "begin_request (\<lambda>s. s) (\<lambda>s. s) hour (\<lambda>_. demo_env ''t'') (\<lambda>_. demo2\<lparr>idempotency_keys := [demo_record]\<rparr>)
    (\<lambda>_. demo2\<lparr>idempotency_keys := [demo_record]\<rparr>) 0 fuel demo_visitor ''post'' ''/v1/plans'' ''key-0001'' ''body'' = None"
    by (rule begin_never_returns [where r = demo_record])
      (simp_all add: t u demo_trims idem_scope_def demo_record_def idem_start_def Let_def demo_env_def)
qed

section \<open>Requests over HTTP\<close>

definition demo_server :: http_server where
  "demo_server = \<lparr>sv_auth = demo_auth, sv_libs = demo_libs, sv_thresholds = default_thresholds, sv_load_location = (\<lambda>_. None),
     sv_parse_time = (\<lambda>_. Inl (Plain ''bad time'')), sv_visit = (\<lambda>k rs. rs)\<rparr>"

definition demo_request_to :: "string \<Rightarrow> string list \<Rightarrow> string \<Rightarrow> json_body \<Rightarrow> http_request" where
  "demo_request_to http_method path authorization json = \<lparr>rq_method = http_method, rq_path = path, rq_request_id = ''request-1'',
     rq_authorization = authorization, rq_query = (\<lambda>_. ''''), rq_json = json, rq_ended = None\<rparr>"

text \<open>
  C21. Below \<open>/v1/\<close> nothing but a login is served without a token: whatever the route, the method and
  the body, no table changes, and the request is answered by status 401 and a fixed body that repeats
  its request identifier; only a path that is not clean is not looked at, and redirected by status 301.
\<close>

theorem no_service_without_token:
  assumes "route_path rq = ''v1'' # rest" "rest \<noteq> []" "\<not> (rest = [''auth'', ''login''] \<and> is_post rq)"
    and "bearer_token (rq_authorization rq) = ''''" "rq_ended rq = None"
  shows "serve sv ens failed random rq db = (db, \<lparr>rs_status = if path_redirected rq then 301 else 401,
    rs_request_id = request_id_from random (rq_request_id rq),
    rs_body = if path_redirected rq then MuxBody
      else ErrorBody \<lparr>ae_code = ''authentication_required'', ae_message = ''valid authentication is required'',
        ae_request_id = request_id_from random (rq_request_id rq), ae_fields = None\<rparr>\<rparr>)"
  using assms by (rule serve_without_token)

lemma demo_path_clean:
  "path_redirected (demo_request_to m [''v1'', ''sites''] a json) = False"
  "route_path (demo_request_to m [''v1'', ''sites''] a json) = [''v1'', ''sites'']"
  "path_redirected (demo_request_to m [''v1'', ''dispatch-plans''] a json) = False"
  "route_path (demo_request_to m [''v1'', ''dispatch-plans''] a json) = [''v1'', ''dispatch-plans'']"
proof -
  have c: "clean_path [''v1'', ''sites''] = [''v1'', ''sites'']" "clean_path [''v1'', ''dispatch-plans''] = [''v1'', ''dispatch-plans'']"
    "map path_unescape [''v1'', ''sites''] = [''v1'', ''sites'']"
    "map path_unescape [''v1'', ''dispatch-plans''] = [''v1'', ''dispatch-plans'']" by code_simp+
  then show "path_redirected (demo_request_to m [''v1'', ''sites''] a json) = False"
    "route_path (demo_request_to m [''v1'', ''sites''] a json) = [''v1'', ''sites'']"
    "path_redirected (demo_request_to m [''v1'', ''dispatch-plans''] a json) = False"
    "route_path (demo_request_to m [''v1'', ''dispatch-plans''] a json) = [''v1'', ''dispatch-plans'']"
    by (simp_all only: path_redirected_def route_path_def demo_request_to_def http_request.simps simp_thms)
qed

text \<open>A request whose path is clean, and one to \<open>/v1//sites\<close>.\<close>

theorem no_service_without_token_witness:
  "\<forall>json. serve demo_server (\<lambda>_. demo_env ''t'') None (Inr ''r'') (demo_request_to ''POST'' [''v1'', ''sites''] ''Basic YWxh'' json) demo9
      = (demo9, \<lparr>rs_status = 401, rs_request_id = ''request-1'',
          rs_body = ErrorBody \<lparr>ae_code = ''authentication_required'', ae_message = ''valid authentication is required'',
            ae_request_id = ''request-1'', ae_fields = None\<rparr>\<rparr>)
    \<and> serve demo_server (\<lambda>_. demo_env ''t'') None (Inr ''r'') (demo_request_to ''GET'' [''v1'', '''', ''sites''] '''' json) demo9
      = (demo9, \<lparr>rs_status = 301, rs_request_id = ''request-1'', rs_body = MuxBody\<rparr>)"
proof (intro allI conjI)
  fix json
  have b: "bearer_token ''Basic YWxh'' = ''''" "bearer_token '''' = ''''" by code_simp+
  have rid: "request_id_from (Inr ''r'') ''request-1'' = ''request-1''" by code_simp
  let ?a = "demo_request_to ''POST'' [''v1'', ''sites''] ''Basic YWxh'' json"
    and ?b = "demo_request_to ''GET'' [''v1'', '''', ''sites''] '''' json"
  have f: "rq_authorization ?a = ''Basic YWxh''" "rq_ended ?a = None" "rq_request_id ?a = ''request-1''"
    "rq_authorization ?b = ''''" "rq_ended ?b = None" "rq_request_id ?b = ''request-1''" "rq_path ?b = [''v1'', '''', ''sites'']"
    "rq_method ?b = ''GET''" by (simp_all add: demo_request_to_def)
  have "map path_unescape [''v1'', '''', ''sites''] = [''v1'', '''', ''sites'']"
    "clean_path [''v1'', '''', ''sites''] \<noteq> [''v1'', '''', ''sites'']" by code_simp+
  then have g: "route_path ?b = [''v1'', '''', ''sites'']" "path_redirected ?b" unfolding route_path_def path_redirected_def f by simp_all
  show "serve demo_server (\<lambda>_. demo_env ''t'') None (Inr ''r'') ?a demo9
      = (demo9, \<lparr>rs_status = 401, rs_request_id = ''request-1'',
          rs_body = ErrorBody \<lparr>ae_code = ''authentication_required'', ae_message = ''valid authentication is required'',
            ae_request_id = ''request-1'', ae_fields = None\<rparr>\<rparr>)"
    by (subst no_service_without_token [where rest = "[''sites'']"]) (simp_all add: f b rid demo_path_clean)
  show "serve demo_server (\<lambda>_. demo_env ''t'') None (Inr ''r'') ?b demo9
      = (demo9, \<lparr>rs_status = 301, rs_request_id = ''request-1'', rs_body = MuxBody\<rparr>)"
    by (subst no_service_without_token [where rest = "['''', ''sites'']"]) (simp_all add: f b rid g)
qed

text \<open>
  C22. An auditor only reads: whatever request an auditor's session sends, to whatever route, all
  tables keep their contents except the sessions and the audit log.
\<close>

theorem auditor_only_reads:
  assumes "route_path rq = ''v1'' # rest" "rest \<noteq> []" "\<not> (rest = [''auth'', ''login''] \<and> is_post rq)"
    and "authenticate (ens 0) (sv_libs sv) (sv_auth sv) db db (bearer_token (rq_authorization rq)) = (db1, Inr p)"
    and "u_role (pr_user p) = RoleAuditor"
  shows "same_records db (fst (serve sv ens failed random rq db))"
  using assms by (rule serve_auditor)

theorem auditor_only_reads_witness:
  "\<forall>json. same_records (empty_database\<lparr>users := [demo_user ''ann'' RoleAuditor], sessions := [demo_session]\<rparr>)
     (fst (serve demo_server (\<lambda>_. demo_env ''t'') None (Inr ''r'')
       (demo_request_to ''POST'' [''v1'', ''dispatch-plans''] (''Bearer '' @ base64_url ''r'') json)
       (empty_database\<lparr>users := [demo_user ''ann'' RoleAuditor], sessions := [demo_session]\<rparr>)))"
proof
  fix json :: json_body
  let ?db = "empty_database\<lparr>users := [demo_user ''ann'' RoleAuditor], sessions := [demo_session]\<rparr>"
  let ?p = "\<lparr>pr_user = demo_user ''ann'' RoleAuditor, pr_session = demo_session\<rparr>"
  have b: "bearer_token (''Bearer '' @ base64_url ''r'') = base64_url ''r''"
  proof -
    have "map lower_byte ''Bearer'' = ''bearer''" "\<forall>c \<in> set ''Bearer''. visible c" by code_simp+
    from bearer_token_of_header [OF this, of "base64_url ''r''"] base64_url_visible [of _ "''r''"] show ?thesis
      by (simp del: base64_url.simps)
  qed
  have s: "session_by_hash ?db (hash_token (\<lambda>s. s) (base64_url ''r'')) = Inr demo_session"
    by (simp add: session_by_hash_def demo_session_def)
  have u: "user_by_id ?db (ss_user_id demo_session) = Inr (demo_user ''ann'' RoleAuditor)"
    by (simp add: user_by_id_def demo_session_def demo_user_def)
  have "session_validate demo_session demo_now = Inr ()" "session_touch demo_session demo_now (5 * minute) = (demo_session, False)"
    "u_active (demo_user ''ann'' RoleAuditor)"
    by (simp_all add: session_validate_def session_touch_def demo_session_def demo_user_def time_sub_def)
  then have "authenticate (demo_env ''t'') demo_libs demo_auth ?db ?db (base64_url ''r'') = (?db, Inr ?p)"
    by (simp add: authenticate_def trim_base64_url Let_def s u demo_libs_def demo_auth_def del: base64_url.simps)
  then show "same_records ?db (fst (serve demo_server (\<lambda>_. demo_env ''t'') None (Inr ''r'')
       (demo_request_to ''POST'' [''v1'', ''dispatch-plans''] (''Bearer '' @ base64_url ''r'') json) ?db))"
    using b by (intro auditor_only_reads [where rest = "[''dispatch-plans'']" and p = ?p])
      (simp_all only: demo_path_clean, simp_all add: demo_request_to_def demo_server_def demo_user_def del: base64_url.simps)
qed

section \<open>Telemetry and alarms\<close>

lemma new_snapshot_fields: "new_snapshot uuid input received = Inr s \<Longrightarrow> t_sequence s = rd_sequence input \<and> t_soc s = rd_soc input"
  by (auto simp: new_snapshot_def split: if_splits)

text \<open>
  C25. The readings of a cluster are recorded in order and at most once: after a reading is recorded,
  the cluster shows its state of charge, and every later call for the same cluster with a sequence
  number that is not larger is refused and changes nothing, whatever state the call had read.
\<close>

theorem readings_in_order:
  assumes "keys_ok db" "record_telemetry en th rd db p input req = (db', Inr out)"
    and "rd_cluster_id later = rd_cluster_id input" "rd_sequence later \<le> rd_sequence input"
  shows "(\<exists>c. find_key c_id (rd_cluster_id input) (clusters db') = Some c \<and> c_soc c = rd_soc input \<and> c_sequence c = rd_sequence input)
    \<and> (\<exists>e. record_telemetry en' th' rd' db' p' later req' = (db', Inl e))"
proof -
  note ok' = record_telemetry_keys [OF assms(1,2)]
  obtain c rows e where s: "new_snapshot (en_uuid en 0) input (en_now en 0) = Inr (tr_snapshot out)"
    and c: "find_key c_id (rd_cluster_id input) (clusters db) = Some c"
    and db': "db' = db\<lparr>snapshots := snapshots db @ [tr_snapshot out],
       clusters := update_where (\<lambda>c. c_id c = rd_cluster_id input)
         (advance (tr_snapshot out) (t_soc (tr_snapshot out))) (clusters db),
       alarms := rows, audit_events := audit_events db @ [stored_event e]\<rparr>"
    by (rule record_telemetry_Inr [OF assms(1,2)]) (rule that)
  have seq: "t_sequence (tr_snapshot out) = rd_sequence input" "t_soc (tr_snapshot out) = rd_soc input"
    using new_snapshot_fields [OF s] by simp_all
  have c': "find_key c_id (rd_cluster_id input) (clusters db') = Some (advance (tr_snapshot out) (t_soc (tr_snapshot out)) c)"
    using c find_key_SomeD [OF c] by (simp add: db' find_key_update_where advance_def)
  have "\<exists>e. record_telemetry en' th' rd' db' p' later req' = (db', Inl e)"
  proof (cases "snd (record_telemetry en' th' rd' db' p' later req')")
    case (Inl e)
    then show ?thesis using failed_calls_change_nothing(1) [of en' th' rd' db' p' later req' _ e] by (metis prod.collapse)
  next
    case (Inr out')
    then have r: "record_telemetry en' th' rd' db' p' later req' = (fst (record_telemetry en' th' rd' db' p' later req'), Inr out')"
      by (metis prod.collapse)
    obtain d where "find_key c_id (rd_cluster_id later) (clusters db') = Some d" "c_sequence d < t_sequence (tr_snapshot out')"
      "new_snapshot (en_uuid en' 0) later (en_now en' 0) = Inr (tr_snapshot out')"
      by (rule record_telemetry_Inr [OF ok' r]) (rule that)
    then show ?thesis using c' assms(3,4) seq by (auto simp: advance_def dest: new_snapshot_fields)
  qed
  then show ?thesis using c' seq by (simp add: advance_def)
qed

definition demo_reading :: "i64 \<Rightarrow> reading" where
  "demo_reading sequence = \<lparr>rd_cluster_id = ''pack'', rd_sequence = sequence, rd_observed_at = demo_now, rd_soc = 60,
     rd_power_kw = 100, rd_temperature = 25000, rd_energy_wh = 1000\<rparr>"

lemma demo_reading_fields: "rd_cluster_id (demo_reading n) = ''pack''" "rd_sequence (demo_reading n) = n" "rd_soc (demo_reading n) = 60"
  by (simp_all add: demo_reading_def)

lemma demo_recorded:
  "\<exists>db' out. record_telemetry (demo_env ''read'') default_thresholds demo5 demo5 (demo_signed_in demo_ann) (demo_reading 1) '''' = (db', Inr out)"
proof -
  let ?c = "demo_cluster ClusterAvailable 1"
  let ?s = "\<lparr>t_id = ''read'', t_cluster_id = ''pack'', t_sequence = 1, t_observed_at = demo_now, t_soc = 60,
      t_power_kw = 100, t_temperature = 25000, t_energy_wh = 1000, t_received_at = demo_now\<rparr>"
  have r: "principal_require (demo_signed_in demo_ann) PermissionTelemetryWrite = Inr ()" by code_simp
  have c: "cluster_by_id demo5 ''pack'' = Inr ?c" by (simp add: cluster_by_id_def)
  have b: "\<not> blank ''pack''" by code_simp
  have s: "new_snapshot ''read'' (demo_reading 1) demo_now = Inr ?s"
    by (simp add: new_snapshot_def demo_reading_def b time_add_def) (simp add: demo_now_def)
  have a: "cluster_apply_telemetry ?c 1 60 demo_now demo_now = Inr (?c\<lparr>c_sequence := 1, c_soc := 60, c_telemetry_at := Some demo_now,
      c_version := 2, c_updated_at := demo_now\<rparr>)"
    by (simp add: cluster_apply_telemetry_def time_add_def) (simp add: demo_cluster_def incr64_def wrap64_def)
  have ev: "evaluate ?s default_thresholds = Inr []"
    by (simp add: evaluate_def default_thresholds_valid) (simp add: default_thresholds_def)
  have sn: "snapshots demo5 = []" by (simp add: demo5_def demo4_def demo2_def empty_database_def)
  let ?e = "demo_event ''readx'' ''ann'' ''battery_cluster'' ''pack'' ''record_telemetry''
      (json_object [(''condition_count'', nat_text 0), (''sequence'', int_text 1)])"
  have "trim_space ''record_telemetry'' = ''record_telemetry''" by code_simp
  then have e: "ev_id ?e = ''readx''" "ev_actor_id ?e = ''ann''"
    by (simp_all add: demo_event_def new_event_def Let_def demo_trims json_object_def json_string_def json_members.simps
        event_or_zero_def int_text_def nat_text.simps)
  have i: "insert_snapshot ?s demo5 = Inr (demo5\<lparr>snapshots := [?s]\<rparr>)"
    by (simp add: insert_snapshot_Inr snapshot_violation_def sn cluster_exists_def)
  have "cluster_row_violation (advance ?s 60 ?c) = None"
    by (simp add: cluster_row_violation_def cluster_check_def advance_def) (simp add: demo_cluster_def)
  moreover have "c_version ?c = 1" "c_sequence ?c = 0" by (simp_all add: demo_cluster_def)
  ultimately have adv: "advance_telemetry ?s 60 1 (demo5\<lparr>snapshots := [?s]\<rparr>)
      = Inr (demo5\<lparr>snapshots := [?s], clusters := [advance ?s 60 ?c]\<rparr>)"
    by (simp add: advance_telemetry_def exec_update_def expect_one_def List.map_filter_simps)
  have "insert_audit ?e (demo5\<lparr>snapshots := [?s], clusters := [advance ?s 60 ?c]\<rparr>)
      = Inr (demo5\<lparr>snapshots := [?s], clusters := [advance ?s 60 ?c], audit_events := [demo_e1, demo_e2, demo_e3, ?e]\<rparr>)"
    by (subst demo_insert_audit) (simp_all add: e)
  then have st: "\<exists>db'. store_telemetry_body ?s 60 1 [] ?e demo5 = Inr db'"
    by (simp add: store_telemetry_body_def i adv)
  have "c_version ?c = 1" "c_id ?c = ''pack''" by (simp_all add: demo_cluster_def)
  then show ?thesis using st
    by (auto simp: record_telemetry_def r c s a ev Let_def store_telemetry_atomic_def in_tx_def demo_event_def demo_reading_fields
        split: sum.splits)
qed

theorem readings_in_order_witness:
  "\<exists>db'. (\<exists>c. find_key c_id ''pack'' (clusters db') = Some c \<and> c_soc c = 60 \<and> c_sequence c = 1)
    \<and> (\<exists>e. record_telemetry (demo_env ''t'') default_thresholds demo5 db' (demo_signed_in demo_ann) (demo_reading 1) '''' = (db', Inl e))"
proof -
  have k: "keys_ok demo5" using run_keys [OF demo_history_runs] by (simp add: demo_history_def)
  from demo_recorded obtain db' out where
    "record_telemetry (demo_env ''read'') default_thresholds demo5 demo5 (demo_signed_in demo_ann) (demo_reading 1) '''' = (db', Inr out)"
    by blast
  from readings_in_order [OF k this, of "demo_reading 1" "demo_env ''t''" default_thresholds demo5 "demo_signed_in demo_ann" "''''"]
  show ?thesis by (auto simp: demo_reading_fields)
qed

text \<open>
  C26. A batch of acknowledgements answers item by item, in the order of the request: the counts add
  up, a repeated identifier is acknowledged at most once, exactly the alarms of the acknowledged
  items are acknowledged afterwards, by the one who asked, and every other alarm is as it was.
\<close>

theorem batch_acknowledges:
  assumes "keys_ok db" "acknowledge_batch ens db p ids versions req = (db', b)"
  shows "map ir_id (br_items b) = ids \<and> br_succeeded b + br_failed b = int (length ids)
    \<and> distinct (map ir_id (filter (\<lambda>i. ir_status i = ''acknowledged'') (br_items b)))
    \<and> (\<forall>aid. if aid \<in> ir_id ` {i \<in> set (br_items b). ir_status i = ''acknowledged''}
        then \<exists>row. find_key a_id aid (alarms db') = Some row \<and> a_status row = AlarmAcknowledged
          \<and> a_acknowledged_by row = nullable_string (u_id (pr_user p))
        else find_key a_id aid (alarms db') = find_key a_id aid (alarms db))"
proof -
  obtain items where each: "acknowledge_each ens p versions req 0 {} ids db = (db', items)"
    and b: "b = build_batch_result items"
    using assms(2) by (auto simp: acknowledge_batch_def split: prod.splits)
  then have items: "br_items b = items" by (simp add: build_batch_result_eq)
  show ?thesis
    using acknowledge_batch_result [OF assms(2)] acknowledge_each_rows [OF assms(1) each] unfolding items by blast
qed

theorem batch_acknowledges_witness:
  "\<exists>db' b. acknowledge_batch (\<lambda>_. demo_env ''t'') demo9 (demo_signed_in demo_ann) [''x'', ''y'', ''x''] (\<lambda>_. Some 1) '''' = (db', b)
    \<and> map ir_id (br_items b) = [''x'', ''y'', ''x''] \<and> br_succeeded b + br_failed b = 3"
proof -
  obtain db' b where b: "acknowledge_batch (\<lambda>_. demo_env ''t'') demo9 (demo_signed_in demo_ann) [''x'', ''y'', ''x''] (\<lambda>_. Some 1) '''' = (db', b)"
    by fastforce
  from batch_acknowledges [OF demo_keys(1) b] b show ?thesis by auto
qed

section \<open>Pages\<close>

text \<open>A client that reads the audit log page by page, following the cursor of each page; at most n pages.\<close>

fun audit_walk :: "database \<Rightarrow> audit_filter \<Rightarrow> nat \<Rightarrow> event list res" where
  "audit_walk db f 0 = Inl (Plain ''too many pages'')"
| "audit_walk db f (Suc n) =
     and_then (list_audit db f) (\<lambda>pg.
       case aup_next pg of
         None \<Rightarrow> Inr (aup_items pg)
       | Some c \<Rightarrow> and_then (audit_walk db (with_cursor f c) n) (\<lambda>es. Inr (aup_items pg @ es)))"

definition cursor_of :: "event \<Rightarrow> cursor" where
  "cursor_of e = \<lparr>cu_occurred_at = ev_occurred_at e, cu_id = ev_id e\<rparr>"

lemma list_audit_page:
  assumes "audit_filter_normalize g = Inr g" "rows = latest_text_first (filter (event_matches g) (audit_events db))"
  shows "list_audit db g = Inr (if nat (auf_limit g) < length rows
    then \<lparr>aup_items = take (nat (auf_limit g)) rows, aup_next = Some (cursor_of (rows ! (nat (auf_limit g) - 1)))\<rparr>
    else \<lparr>aup_items = rows, aup_next = None\<rparr>)"
  using audit_filter_normalize_limit [OF assms(1)]
  by (auto simp: list_audit_def assms Let_def cursor_of_def)

lemma normalize_with_cursor:
  "audit_filter_normalize f = Inr f \<Longrightarrow> cu_occurred_at c \<noteq> 0 \<Longrightarrow> \<not> blank (cu_id c) \<Longrightarrow>
    audit_filter_normalize (with_cursor f c) = Inr (with_cursor f c)"
  by (cases f) (auto simp: audit_filter_normalize_def with_cursor_def Let_def split: if_splits option.splits)

lemma event_key_second:
  assumes "event_key y < event_key x" "time_in_range (ev_occurred_at x)" "time_in_range (ev_occurred_at y)"
  shows "ev_occurred_at y div second \<le> ev_occurred_at x div second"
proof (rule ccontr)
  assume "\<not> ?thesis"
  then have "encode_time (ev_occurred_at x) < encode_time (ev_occurred_at y)"
    using assms(2,3) by (intro encode_time_less_second) simp_all
  then have "event_key x < event_key y" by (simp add: event_key_def)
  then show False using assms(1) by (rule less_asym)
qed

lemma latest_text_first_elems: "set (latest_text_first es) = set es" "length (latest_text_first es) = length es"
  by (simp_all add: latest_text_first_def)

lemma audit_walk_rest:
  assumes f: "audit_filter_normalize f = Inr f" "auf_cursor f = None" and ids: "distinct (map ev_id (audit_events db))"
    and good: "\<forall>e \<in> set (audit_events db). ev_occurred_at e \<noteq> 0 \<and> \<not> blank (ev_id e)"
    and rows: "rows = latest_text_first (filter (event_matches f) (audit_events db))"
    and "k \<le> length rows" "length rows - k < n" "g = (if k = 0 then f else with_cursor f (cursor_of (rows ! (k - 1))))"
  shows "audit_walk db g n = Inr (drop k rows)"
  using assms(6-8)
proof (induction n arbitrary: k g)
  case (Suc n)
  let ?L = "nat (auf_limit f)"
  have L: "1 \<le> ?L" using audit_filter_normalize_limit [OF f(1)] by (simp add: Suc_le_eq)
  have in_rows: "rows ! i \<in> set (audit_events db)" if "i < length rows" for i
    using nth_mem [OF that] by (auto simp: rows latest_text_first_def)
  have rest: "latest_text_first (filter (event_matches g) (audit_events db)) = drop k rows"
    using cursor_page_rest [OF ids f(2) _ _ rows, of k] Suc.prems by (cases "k = 0") (simp_all add: rows cursor_of_def)
  have norm: "audit_filter_normalize g = Inr g"
  proof (cases "k = 0")
    case False
    with in_rows [of "k - 1"] good Suc.prems(1) have "ev_occurred_at (rows ! (k - 1)) \<noteq> 0 \<and> \<not> blank (ev_id (rows ! (k - 1)))"
      by fastforce
    with normalize_with_cursor [OF f(1), of "cursor_of (rows ! (k - 1))"] False Suc.prems(3) show ?thesis
      by (simp add: cursor_of_def)
  qed (use f(1) Suc.prems(3) in simp)
  have lim: "auf_limit g = auf_limit f" using Suc.prems(3) by (simp add: with_cursor_def)
  show ?case
  proof (cases "?L < length rows - k")
    case True
    let ?c = "cursor_of (rows ! (k + ?L - 1))"
    have "audit_walk db (with_cursor g ?c) n = Inr (drop (k + ?L) rows)"
      by (rule Suc.IH) (use True L Suc.prems in \<open>auto simp: with_cursor_def\<close>)
    moreover have "drop k rows ! (?L - 1) = rows ! (k + ?L - 1)" using True L by simp
    moreover have "take ?L (drop k rows) @ drop (k + ?L) rows = drop k rows"
      by (metis append_take_drop_id drop_drop add.commute)
    ultimately show ?thesis using list_audit_page [OF norm rest [symmetric]] True by (simp add: lim)
  next
    case False
    then show ?thesis using list_audit_page [OF norm rest [symmetric]] by (simp add: lim)
  qed
qed simp

text \<open>
  C27. Reading the audit log page by page loses and repeats nothing: following the cursors from the
  first page on, while nobody writes, yields every matching event once, in at most one page per event
  and one more, also when many events carry one time.  They come in descending order of their stored
  times, that is newest second first; within one second the stored texts order them, and those of one
  text their identifiers.
\<close>

theorem audit_pages_complete:
  assumes "audit_filter_normalize f = Inr f" "auf_cursor f = None" "distinct (map ev_id (audit_events db))"
    and "\<forall>e \<in> set (audit_events db). ev_occurred_at e \<noteq> 0 \<and> \<not> blank (ev_id e)"
  shows "\<exists>es. audit_walk db f (Suc (length (audit_events db))) = Inr es
    \<and> mset es = mset (filter (event_matches f) (audit_events db))
    \<and> sorted_wrt (\<lambda>x y. (encode_time (ev_occurred_at y), ev_id y) < (encode_time (ev_occurred_at x), ev_id x)) es
    \<and> ((\<forall>e \<in> set (audit_events db). time_in_range (ev_occurred_at e)) \<longrightarrow>
        sorted_wrt (\<lambda>x y. ev_occurred_at y div second \<le> ev_occurred_at x div second) es)"
proof (intro exI conjI impI)
  let ?es = "latest_text_first (filter (event_matches f) (audit_events db))"
  have "length ?es \<le> length (audit_events db)" by (simp add: latest_text_first_def)
  then show "audit_walk db f (Suc (length (audit_events db))) = Inr ?es"
    using audit_walk_rest [OF assms refl, of 0] by (simp del: audit_walk.simps)
  show "mset ?es = mset (filter (event_matches f) (audit_events db))" by (simp add: latest_text_first_def)
  have strict: "sorted_wrt (\<lambda>x y. event_key y < event_key x) ?es"
    using assms(3) by (intro latest_text_first_strict) (simp add: distinct_map_filter)
  then show "sorted_wrt (\<lambda>x y. (encode_time (ev_occurred_at y), ev_id y) < (encode_time (ev_occurred_at x), ev_id x)) ?es"
    by (simp add: event_key_def)
  assume range: "\<forall>e \<in> set (audit_events db). time_in_range (ev_occurred_at e)"
  have "set ?es \<subseteq> set (audit_events db)" by (auto simp: latest_text_first_elems)
  then show "sorted_wrt (\<lambda>x y. ev_occurred_at y div second \<le> ev_occurred_at x div second) ?es"
    using range by (intro sorted_wrt_mono_rel [OF _ strict] event_key_second) auto
qed

theorem audit_pages_complete_witness:
  "\<exists>es. audit_walk demo5 \<lparr>auf_object_type = '''', auf_object_id = '''', auf_request_id = '''', auf_from = None, auf_until = None,
      auf_cursor = None, auf_limit = 2\<rparr> 4 = Inr es \<and> mset es = {#demo_e1, demo_e2, demo_e3#}"
proof -
  let ?f = "\<lparr>auf_object_type = '''', auf_object_id = '''', auf_request_id = '''', auf_from = None, auf_until = None,
      auf_cursor = None, auf_limit = 2\<rparr>"
  have n: "audit_filter_normalize ?f = Inr ?f" by (simp add: audit_filter_normalize_def Let_def)
  have i: "distinct (map ev_id (audit_events demo5))" by simp
  have "ev_occurred_at demo_e1 = demo_now" "ev_occurred_at demo_e2 = demo_now" "ev_occurred_at demo_e3 = demo_now"
    by (simp_all add: demo_e1_def demo_e2_def demo_e3_def demo_event_def new_event_def Let_def demo_trims json_object_def
        json_string_def json_members.simps event_or_zero_def int_text_def nat_text.simps)
  moreover have "\<not> blank ''sitex''" "\<not> blank ''move''" "\<not> blank ''packx''" by code_simp+
  ultimately have g: "\<forall>e \<in> set (audit_events demo5). ev_occurred_at e \<noteq> 0 \<and> \<not> blank (ev_id e)" by (simp add: demo_now_def)
  have "filter (event_matches ?f) (audit_events demo5) = [demo_e1, demo_e2, demo_e3]" by (simp add: event_matches_def)
  with audit_pages_complete [OF n _ i g] obtain es where
    "audit_walk demo5 ?f (Suc (length (audit_events demo5))) = Inr es" "mset es = mset [demo_e1, demo_e2, demo_e3]" by auto
  then show ?thesis by (intro exI [of _ es]) (simp del: audit_walk.simps add: eval_nat_numeral)
qed

text \<open>
  C39. The hourly cleanup never removes a session that is in use: a session that nobody revoked and
  that expires in a later second than the clock is still there afterwards.
\<close>

theorem cleanup_keeps_sessions:
  assumes "cleanup en db = (db', Inr n)" "s \<in> set (sessions db)" "ss_revoked_at s = None"
    and "time_in_range (en_now en 0)" "time_in_range (ss_expires_at s)" "en_now en 0 div second < ss_expires_at s div second"
  shows "s \<in> set (sessions db')"
proof -
  from assms(1) have "delete_expired_sessions db (en_now en 0) = Inr (db', n)" by (auto simp: cleanup_def split: prod.splits)
  from cleanup_keeps_live [OF this assms(2-6)] show ?thesis .
qed

theorem cleanup_keeps_sessions_witness:
  "demo_session \<in> set (sessions (fst (cleanup (demo_env ''t'') (demo2\<lparr>sessions := [demo_session]\<rparr>))))"
proof -
  have "\<exists>db' n. cleanup (demo_env ''t'') (demo2\<lparr>sessions := [demo_session]\<rparr>) = (db', Inr n)"
    by (simp add: cleanup_def delete_expired_sessions_def)
  then obtain db' n where c: "cleanup (demo_env ''t'') (demo2\<lparr>sessions := [demo_session]\<rparr>) = (db', Inr n)" by blast
  have t: "ss_revoked_at demo_session = None" "ss_expires_at demo_session = demo_now + hour"
    by (simp_all add: demo_session_def)
  have r: "time_in_range demo_now" "time_in_range (demo_now + hour)" "demo_now div second < (demo_now + hour) div second"
    by (simp_all add: demo_now_def time_in_range_def)
  from cleanup_keeps_sessions [OF c] show ?thesis using t r c by simp
qed

end
