(* ===== verification/Migration.thy ===== *)
theory Migration
  imports Config Store
begin

text \<open>
  \<open>internal/storage/sqlite/db.go\<close>, \<open>Open\<close> and \<open>Migrate\<close>: the name the driver gets for the database
  and the application of the embedded schema scripts.

  The state is the table \<open>schema_migrations\<close> (absent before the first start) and the scripts whose
  transactions were committed.  The directory is an argument, and so is what the driver answers to
  each statement of \<open>Migrate\<close>: \<open>fails\<close> is asked with the name of the statement and the file.
\<close>

record migration_row =
  mr_version :: i64
  mr_name :: string
  mr_applied_at :: time

record schema =
  sc_history :: "migration_row list option"
  sc_scripts :: "string list"

definition no_schema :: schema where
  "no_schema = \<lparr>sc_history = None, sc_scripts = []\<rparr>"

definition applied :: "schema \<Rightarrow> migration_row list" where
  "applied s = (case sc_history s of None \<Rightarrow> [] | Some rows \<Rightarrow> rows)"

record dir_entry =
  de_name :: string
  de_dir :: bool
  de_contents :: "string res"

type_synonym statement_faults = "string \<Rightarrow> string \<Rightarrow> go_error option"

section \<open>Open\<close>

definition data_source_name :: "string \<Rightarrow> string" where
  "data_source_name path =
     (let dsn = (if path = '':memory:'' then ''file:gridvault?mode=memory&cache=shared'' else path);
          separator = (if contains ''?'' dsn then ''&'' else ''?'')
      in dsn @ separator @ ''_pragma=foreign_keys(1)&_pragma=busy_timeout(5000)&_pragma=journal_mode(WAL)'')"

text \<open>\<open>filepath.Abs\<close> and \<open>os.MkdirAll\<close> are arguments.\<close>

definition database_path :: "(string \<Rightarrow> string res) \<Rightarrow> (string \<Rightarrow> go_error option) \<Rightarrow> string \<Rightarrow> string res" where
  "database_path absolute mkdir path =
     (let path = trim_space path in
      if path = '''' then Inl (new_fault Invalid ''database_path_required'' ''database path is required'')
      else if path \<noteq> '':memory:'' \<and> \<not> starts_with ''file:'' path then
        (case absolute path of
           Inl e \<Rightarrow> Inl (Wrapping (''resolve database path: '' @ error_text e) e)
         | Inr full \<Rightarrow>
             (case mkdir full of
                Some e \<Rightarrow> Inl (Wrapping (''create database directory: '' @ error_text e) e)
              | None \<Rightarrow> Inr full))
      else Inr path)"

section \<open>Migrate\<close>

text \<open>\<open>strings.SplitN(name, "_", 2)\<close>: the text before the first underscore, when there is one.\<close>

definition version_prefix :: "string \<Rightarrow> string option" where
  "version_prefix name = (if CHR ''_'' \<in> set name then Some (takeWhile (\<lambda>c. c \<noteq> CHR ''_'') name) else None)"

definition migration_version :: "string \<Rightarrow> i64 res" where
  "migration_version name =
     (case version_prefix name of
        None \<Rightarrow> Inl (Plain (''migration '' @ go_quote name @ '' has no numeric prefix''))
      | Some prefix \<Rightarrow>
          (case parse_int64 prefix of
             None \<Rightarrow> Inl (Wrapping (''migration '' @ go_quote name @ '' has invalid version: '' @ error_text (integer_error ''Atoi'' prefix))
                         (integer_error ''Atoi'' prefix))
           | Some v \<Rightarrow> Inr v))"

definition ends_with :: "string \<Rightarrow> string \<Rightarrow> bool" where
  "ends_with suffix s \<longleftrightarrow> length suffix \<le> length s \<and> drop (length s - length suffix) s = suffix"

definition is_script :: "dir_entry \<Rightarrow> bool" where
  "is_script e \<longleftrightarrow> \<not> de_dir e \<and> ends_with ''.sql'' (de_name e)"

definition migrate_fault :: "string \<Rightarrow> string \<Rightarrow> go_error \<Rightarrow> go_error" where
  "migrate_fault code message e = wrap_fault Internal code message ''sqlite.Migrate'' e"

definition ran :: "statement_faults \<Rightarrow> string \<Rightarrow> string \<Rightarrow> string \<Rightarrow> string \<Rightarrow> unit res" where
  "ran fails statement file code message =
     (case fails statement file of Some e \<Rightarrow> Inl (migrate_fault code message e) | None \<Rightarrow> Inr ())"

text \<open>One file that is not in the history: its script and its row in one transaction.\<close>

definition apply_script :: "statement_faults \<Rightarrow> time \<Rightarrow> dir_entry \<Rightarrow> i64 \<Rightarrow> schema \<Rightarrow> schema res" where
  "apply_script fails now e version s =
     and_then (map_error (migrate_fault ''migration_read_failed'' ''migration file could not be read'') (de_contents e)) (\<lambda>script.
     and_then (ran fails ''begin'' (de_name e) ''migration_begin_failed'' ''migration transaction could not start'') (\<lambda>_.
     and_then (ran fails ''apply'' (de_name e) ''migration_apply_failed'' ''database migration could not be applied'') (\<lambda>_.
     and_then (ran fails ''record'' (de_name e) ''migration_record_failed'' ''migration history could not be saved'') (\<lambda>_.
     and_then (ran fails ''commit'' (de_name e) ''migration_commit_failed'' ''migration could not be committed'') (\<lambda>_.
     Inr \<lparr>sc_history = Some (applied s @ [\<lparr>mr_version = version, mr_name = de_name e, mr_applied_at = now\<rparr>]),
          sc_scripts = sc_scripts s @ [script]\<rparr>)))))"

fun migrate_files :: "statement_faults \<Rightarrow> (string \<Rightarrow> time) \<Rightarrow> dir_entry list \<Rightarrow> schema \<Rightarrow> schema \<times> unit res" where
  "migrate_files fails clock [] s = (s, Inr ())"
| "migrate_files fails clock (e # es) s =
     (if \<not> is_script e then migrate_files fails clock es s
      else case migration_version (de_name e) of
        Inl x \<Rightarrow> (s, Inl x)
      | Inr version \<Rightarrow>
          (case ran fails ''history'' (de_name e) ''migration_history_failed'' ''migration history could not be read'' of
             Inl x \<Rightarrow> (s, Inl x)
           | Inr _ \<Rightarrow>
               (case find_key mr_version version (applied s) of
                  Some row \<Rightarrow>
                    if mr_name row \<noteq> de_name e then
                      (s, Inl (new_fault Conflict ''migration_history_conflict''
                        ''applied migration version has a different name''))
                    else migrate_files fails clock es s
                | None \<Rightarrow>
                    (case apply_script fails (clock (de_name e)) e version s of
                       Inl x \<Rightarrow> (s, Inl x)
                     | Inr s' \<Rightarrow> migrate_files fails clock es s'))))"

definition migrate :: "statement_faults \<Rightarrow> (string \<Rightarrow> time) \<Rightarrow> dir_entry list res \<Rightarrow> schema \<Rightarrow> schema \<times> unit res" where
  "migrate fails clock dir s =
     (case ran fails ''create'' '''' ''migration_bootstrap_failed'' ''database migration table could not be created'' of
        Inl e \<Rightarrow> (s, Inl e)
      | Inr _ \<Rightarrow>
          let s = s\<lparr>sc_history := Some (applied s)\<rparr> in
          (case map_error (migrate_fault ''migration_read_failed'' ''database migrations could not be read'') dir of
             Inl e \<Rightarrow> (s, Inl e)
           | Inr files \<Rightarrow> migrate_files fails clock (sort_key de_name files) s))"

text \<open>
  \<open>Open\<close>: the path, the handle, a first contact and the migration.  What the driver answers to
  \<open>sql.Open\<close> and to the ping are arguments; the limits of the connection pool have no effect on the
  tables.
\<close>

definition open_database ::
    "(string \<Rightarrow> string res) \<Rightarrow> (string \<Rightarrow> go_error option) \<Rightarrow> (string \<Rightarrow> go_error option) \<Rightarrow> go_error option
     \<Rightarrow> statement_faults \<Rightarrow> (string \<Rightarrow> time) \<Rightarrow> dir_entry list res \<Rightarrow> string \<Rightarrow> schema \<Rightarrow> schema \<times> string res" where
  "open_database absolute mkdir sql_open pinged fails clock dir path s =
     (case database_path absolute mkdir path of
        Inl e \<Rightarrow> (s, Inl e)
      | Inr full \<Rightarrow>
          (case sql_open (data_source_name full) of
             Some e \<Rightarrow> (s, Inl (wrap_fault Unavailable ''database_open_failed'' ''database could not be opened'' ''sqlite.Open'' e))
           | None \<Rightarrow>
               (case pinged of
                  Some e \<Rightarrow> (s, Inl (wrap_fault Unavailable ''database_unreachable'' ''database is not reachable'' ''sqlite.Open'' e))
                | None \<Rightarrow>
                    (case migrate fails clock dir s of
                       (s', Inl e) \<Rightarrow> (s', Inl e)
                     | (s', Inr _) \<Rightarrow> (s', Inr full)))))"

section \<open>Every script once and in order\<close>

text \<open>The scripts of a directory, in the order of their names.\<close>

definition scripts :: "dir_entry list \<Rightarrow> dir_entry list" where
  "scripts files = filter is_script (sort_key de_name files)"

text \<open>
  A directory is well-formed if every script has a version of its own and can be read, as the
  embedded one.
\<close>

definition directory_ok :: "dir_entry list \<Rightarrow> bool" where
  "directory_ok files \<longleftrightarrow> (\<forall>e \<in> set (scripts files). \<exists>v script. migration_version (de_name e) = Inr v \<and> de_contents e = Inr script)
     \<and> distinct (map (migration_version \<circ> de_name) (scripts files))"

text \<open>The first k scripts are applied: the history names them and no script ran but these, once each, in order.\<close>

definition applied_first :: "nat \<Rightarrow> dir_entry list \<Rightarrow> schema \<Rightarrow> bool" where
  "applied_first k es s \<longleftrightarrow> k \<le> length es
     \<and> map mr_name (applied s) = map de_name (take k es)
     \<and> map (Inr \<circ> mr_version) (applied s) = map (migration_version \<circ> de_name) (take k es)
     \<and> map Inr (sc_scripts s) = map de_contents (take k es)"

lemma migrate_files_filter: "migrate_files fails clock es s = migrate_files fails clock (filter is_script es) s"
  by (induction es arbitrary: s) (auto split: sum.splits option.splits)

lemma ran_cases: "ran fails statement file code message = Inr () \<or> (\<exists>e. ran fails statement file code message = Inl e)"
  by (cases "ran fails statement file code message") auto

lemma applied_lookup:
  assumes "applied_first k es s" "distinct (map (migration_version \<circ> de_name) es)"
    and "i < length es" "migration_version (de_name (es ! i)) = Inr v"
  shows "i < k \<Longrightarrow> \<exists>row. find_key mr_version v (applied s) = Some row \<and> mr_name row = de_name (es ! i)"
    "k \<le> i \<Longrightarrow> find_key mr_version v (applied s) = None"
proof -
  let ?ver = "migration_version \<circ> de_name"
  have len: "length (applied s) = k" "k \<le> length es"
    using assms(1) by (auto simp: applied_first_def dest: arg_cong [of _ _ length])
  have row: "mr_name (applied s ! j) = de_name (es ! j)" "Inr (mr_version (applied s ! j)) = ?ver (es ! j)" if "j < k" for j
  proof -
    have "map mr_name (applied s) ! j = map de_name (take k es) ! j"
      "map (Inr \<circ> mr_version) (applied s) ! j = map ?ver (take k es) ! j"
      using assms(1) by (auto simp: applied_first_def)
    with that len show "mr_name (applied s ! j) = de_name (es ! j)" "Inr (mr_version (applied s ! j)) = ?ver (es ! j)"
      by simp_all
  qed
  have dist: "distinct (map mr_version (applied s))"
  proof -
    have "distinct (map ?ver (take k es))" using assms(2) by (simp add: take_map [symmetric])
    then have "distinct (map (Inr \<circ> mr_version) (applied s) :: (go_error + i64) list)"
      using assms(1) by (simp add: applied_first_def)
    then show ?thesis by (simp add: distinct_map inj_on_def)
  qed
  {
    assume "i < k"
    then have "mr_version (applied s ! i) = v" "applied s ! i \<in> set (applied s)" "mr_name (applied s ! i) = de_name (es ! i)"
      using row [of i] assms(4) len by auto
    then show "\<exists>row. find_key mr_version v (applied s) = Some row \<and> mr_name row = de_name (es ! i)"
      using find_key_in_set [OF dist, of "applied s ! i"] by auto
  }
  {
    assume ik: "k \<le> i"
    have "v \<noteq> mr_version (applied s ! j)" if "j < k" for j
    proof
      assume "v = mr_version (applied s ! j)"
      then have "?ver (es ! i) = ?ver (es ! j)" using row(2) [OF that] assms(4) by simp
      then have "i = j" using assms(2,3) that ik len by (simp add: distinct_conv_nth)
      with that ik show False by simp
    qed
    then show "find_key mr_version v (applied s) = None"
      using len by (fastforce simp: find_key_None_iff in_set_conv_nth)
  }
qed

lemma apply_script_cases:
  assumes "migration_version (de_name e) = Inr v" "de_contents e = Inr script"
  shows "(\<exists>x. apply_script fails now e v s = Inl x \<and> (\<exists>st f. fails st f \<noteq> None))
    \<or> apply_script fails now e v s = Inr \<lparr>sc_history = Some (applied s @ [\<lparr>mr_version = v, mr_name = de_name e, mr_applied_at = now\<rparr>]),
          sc_scripts = sc_scripts s @ [script]\<rparr>"
  using assms by (auto simp: apply_script_def ran_def map_error_def and_then_def split: option.splits)

lemma migrate_files_applied:
  assumes good: "\<forall>e \<in> set es. is_script e \<and> (\<exists>v script. migration_version (de_name e) = Inr v \<and> de_contents e = Inr script)"
    and dist: "distinct (map (migration_version \<circ> de_name) es)"
    and "es = pre @ rest" "applied_first k es s" "length pre \<le> k"
  shows "\<exists>k'. k \<le> k' \<and> applied_first k' es (fst (migrate_files fails clock rest s))
    \<and> (snd (migrate_files fails clock rest s) = Inr () \<longrightarrow> k' = length es)
    \<and> ((\<forall>st f. fails st f = None) \<longrightarrow> snd (migrate_files fails clock rest s) = Inr ())"
  using assms(3-5)
proof (induction rest arbitrary: pre k s)
  case Nil
  then show ?case by (intro exI [of _ k]) (auto simp: applied_first_def)
next
  case (Cons e rest)
  let ?out = "migrate_files fails clock (e # rest) s"
  have i: "length pre < length es" "es ! length pre = e" "e \<in> set es" using Cons.prems(1) by simp_all
  then obtain v script where e: "is_script e" "migration_version (de_name e) = Inr v" "de_contents e = Inr script"
    using good by blast
  have look: "length pre < k \<Longrightarrow> \<exists>row. find_key mr_version v (applied s) = Some row \<and> mr_name row = de_name e"
    "k \<le> length pre \<Longrightarrow> find_key mr_version v (applied s) = None"
    using applied_lookup [OF Cons.prems(2) dist i(1)] e(2) i(2) by auto
  have es: "es = (pre @ [e]) @ rest" using Cons.prems(1) by simp
  show ?case
  proof (cases "ran fails ''history'' (de_name e) ''migration_history_failed'' ''migration history could not be read''")
    case (Inl x)
    then have out: "?out = (s, Inl x)" and "\<exists>st f. fails st f \<noteq> None" using e by (auto simp: ran_def split: option.splits)
    with Cons.prems(2) show ?thesis unfolding out by auto
  next
    case (Inr u)
    show ?thesis
    proof (cases "length pre < k")
      case True
      then have out: "?out = migrate_files fails clock rest s" using look(1) e Inr by auto
      have "length (pre @ [e]) \<le> k" using True by simp
      from Cons.IH [OF es Cons.prems(2) this] show ?thesis unfolding out .
    next
      case False
      with Cons.prems(3) have k: "k = length pre" by simp
      then have none: "find_key mr_version v (applied s) = None" using look(2) by simp
      from apply_script_cases [OF e(2,3), of fails "clock (de_name e)" s] show ?thesis
      proof (elim disjE exE conjE)
        fix x st f assume a: "apply_script fails (clock (de_name e)) e v s = Inl x" "fails st f \<noteq> None"
        then have out: "?out = (s, Inl x)" using e Inr none by simp
        with a(2) Cons.prems(2) show ?thesis unfolding out by auto
      next
        let ?s = "\<lparr>sc_history = Some (applied s @ [\<lparr>mr_version = v, mr_name = de_name e, mr_applied_at = clock (de_name e)\<rparr>]),
          sc_scripts = sc_scripts s @ [script]\<rparr>"
        assume "apply_script fails (clock (de_name e)) e v s = Inr ?s"
        then have out: "?out = migrate_files fails clock rest ?s" using e Inr none by simp
        have "take (Suc k) es = take k es @ [e]" using i k by (simp add: take_Suc_conv_app_nth)
        then have first: "applied_first (Suc k) es ?s" using Cons.prems(2) e i k by (simp add: applied_first_def applied_def)
        have "length (pre @ [e]) \<le> Suc k" using k by simp
        from Cons.IH [OF es first this] show ?thesis
          unfolding out by (elim exE conjE) (intro exI conjI, erule Suc_leD, assumption+)
      qed
    qed
  qed
qed

lemma migrate_applied:
  assumes "directory_ok files" "applied_first k (scripts files) s"
  shows "\<exists>k'. k \<le> k' \<and> applied_first k' (scripts files) (fst (migrate fails clock (Inr files) s))
    \<and> (snd (migrate fails clock (Inr files) s) = Inr () \<longrightarrow> k' = length (scripts files))
    \<and> ((\<forall>st f. fails st f = None) \<longrightarrow> snd (migrate fails clock (Inr files) s) = Inr ())"
proof (cases "ran fails ''create'' '''' ''migration_bootstrap_failed'' ''database migration table could not be created''")
  case (Inl x)
  then have "migrate fails clock (Inr files) s = (s, Inl x)" "\<exists>st f. fails st f \<noteq> None"
    by (auto simp: migrate_def ran_def split: option.splits)
  with assms(2) show ?thesis by auto
next
  case (Inr u)
  let ?s = "s\<lparr>sc_history := Some (applied s)\<rparr>"
  have m: "migrate fails clock (Inr files) s = migrate_files fails clock (scripts files) ?s"
    using Inr migrate_files_filter [of fails clock "sort_key de_name files"]
    by (simp add: migrate_def map_error_def Let_def scripts_def)
  have "applied_first k (scripts files) ?s" using assms(2) by (simp add: applied_first_def applied_def)
  moreover have "\<forall>e \<in> set (scripts files). is_script e \<and> (\<exists>v script. migration_version (de_name e) = Inr v \<and> de_contents e = Inr script)"
    using assms(1) by (auto simp: directory_ok_def scripts_def)
  ultimately show ?thesis
    using migrate_files_applied [of "scripts files" "[]" "scripts files" k ?s] assms(1) unfolding m directory_ok_def by simp
qed

text \<open>
  Starts of the program one after the other, each with its own faults: whatever interrupts them, no
  script runs twice or out of order, and a start that succeeds leaves every script applied.
\<close>

definition starts :: "dir_entry list \<Rightarrow> (statement_faults \<times> (string \<Rightarrow> time)) list \<Rightarrow> schema" where
  "starts files attempts = fold (\<lambda>(fails, clock) s. fst (migrate fails clock (Inr files) s)) attempts no_schema"

lemma starts_applied:
  assumes "directory_ok files"
  shows "\<exists>k. applied_first k (scripts files) (starts files attempts)"
proof -
  have "\<exists>k. applied_first k (scripts files) (fold (\<lambda>(fails, clock) s. fst (migrate fails clock (Inr files) s)) attempts s)"
    if "applied_first j (scripts files) s" for j s
    using that
  proof (induction attempts arbitrary: j s)
    case (Cons a attempts)
    obtain fails clock where a: "a = (fails, clock)" by force
    from migrate_applied [OF assms Cons.prems, of fails clock] obtain k where
      "applied_first k (scripts files) (fst (migrate fails clock (Inr files) s))" by blast
    from Cons.IH [OF this] show ?case by (simp add: a)
  qed auto
  moreover have "applied_first 0 (scripts files) no_schema" by (simp add: applied_first_def no_schema_def applied_def)
  ultimately show ?thesis unfolding starts_def by blast
qed

text \<open>A second start after a successful one runs nothing.\<close>

lemma migrate_again:
  assumes "directory_ok files" "applied_first (length (scripts files)) (scripts files) s"
  shows "sc_scripts (fst (migrate fails clock (Inr files) s)) = sc_scripts s"
proof -
  from migrate_applied [OF assms, of fails clock] obtain k where
    "length (scripts files) \<le> k" "applied_first k (scripts files) (fst (migrate fails clock (Inr files) s))" by blast
  with assms(2) have "map (Inr :: string \<Rightarrow> string res) (sc_scripts (fst (migrate fails clock (Inr files) s))) = map Inr (sc_scripts s)"
    by (simp add: applied_first_def)
  then show ?thesis by (simp add: inj_map_eq_map inj_def)
qed

section \<open>The embedded directory\<close>

text \<open>The two files of \<open>migrations/\<close>; their contents, SQL text, are arguments.\<close>

definition embedded :: "string \<Rightarrow> string \<Rightarrow> dir_entry list" where
  "embedded initial indexes =
     [\<lparr>de_name = ''001_initial.sql'', de_dir = False, de_contents = Inr initial\<rparr>,
      \<lparr>de_name = ''002_operational_indexes.sql'', de_dir = False, de_contents = Inr indexes\<rparr>]"

lemma embedded_versions: "migration_version ''001_initial.sql'' = Inr 1" "migration_version ''002_operational_indexes.sql'' = Inr 2"
  by code_simp+

lemma embedded_scripts: "scripts (embedded initial indexes) = embedded initial indexes"
proof -
  have "ends_with ''.sql'' ''001_initial.sql''" "ends_with ''.sql'' ''002_operational_indexes.sql''" by code_simp+
  moreover have "''001_initial.sql'' \<le> ''002_operational_indexes.sql''" by code_simp
  ultimately show ?thesis by (simp add: scripts_def embedded_def is_script_def)
qed

lemma embedded_ok: "directory_ok (embedded initial indexes)"
  by (simp add: directory_ok_def embedded_scripts) (simp add: embedded_def embedded_versions)

end
