(* ===== verification/App.thy ===== *)
theory App
  imports HttpServer Worker Migration
begin

text \<open>
  \<open>internal/app/app.go\<close> and \<open>cmd/server/main.go\<close>: the start of the process, which opens and migrates
  the database, admits the first operator and wires the services, and its end.  Sockets, signals and
  the log are left out: why the process stops, and whether the server and the workers stop in time,
  are arguments.
\<close>

section \<open>Start\<close>

record application =
  ap_server :: http_server
  ap_executor :: executor
  ap_maintenance_interval :: duration
  ap_address :: string
  ap_max_request_bytes :: i64
  ap_read_header_timeout :: duration
  ap_read_timeout :: duration
  ap_write_timeout :: duration
  ap_idle_timeout :: duration
  ap_max_header_bytes :: i64

definition bootstrap_input :: "config \<Rightarrow> new_user" where
  "bootstrap_input cfg = \<lparr>nu_email = c_bootstrap_email cfg, nu_password = c_bootstrap_password cfg,
     nu_display_name = ''Bootstrap Operator'', nu_role = RoleOperator\<rparr>"

definition bootstrap_operator :: "env \<Rightarrow> auth_libs \<Rightarrow> config \<Rightarrow> database \<Rightarrow> database \<times> unit res" where
  "bootstrap_operator en lib cfg db =
     (if c_bootstrap_email cfg \<noteq> '''' then
        (case bootstrap en lib db db (bootstrap_input cfg) of
           (db', Inl e) \<Rightarrow> (db', Inl e)
         | (db', Inr _) \<Rightarrow> (db', Inr ()))
      else (db, Inr ()))"

definition wire ::
    "auth_libs \<Rightarrow> (string \<Rightarrow> go_error option) \<Rightarrow> (string \<Rightarrow> time res) \<Rightarrow> (nat \<Rightarrow> ratings \<Rightarrow> ratings) \<Rightarrow> string \<Rightarrow> config \<Rightarrow> application" where
  "wire lib load_location parse visit uuid cfg =
     \<lparr>ap_server = \<lparr>sv_auth = new_auth_service (c_session_ttl cfg), sv_libs = lib, sv_thresholds = default_thresholds,
        sv_load_location = load_location, sv_parse_time = parse, sv_visit = visit\<rparr>,
      ap_executor = new_executor uuid (c_worker_interval cfg) (c_worker_lease cfg) (c_worker_batch_size cfg),
      ap_maintenance_interval = hour, ap_address = c_address cfg, ap_max_request_bytes = c_max_request_bytes cfg,
      ap_read_header_timeout = 5 * second, ap_read_timeout = 15 * second, ap_write_timeout = 30 * second,
      ap_idle_timeout = 60 * second, ap_max_header_bytes = 1048576\<rparr>"

section \<open>End\<close>

datatype stop = StopRequested | ListenEnded go_error

definition err_server_closed :: go_error where
  "err_server_closed = Plain ''http: Server closed''"

definition app_end :: "stop \<Rightarrow> go_error option \<Rightarrow> go_error option \<Rightarrow> go_error option" where
  "app_end reason shutdown waited =
     (case reason of
        ListenEnded e \<Rightarrow> if e \<noteq> err_server_closed then Some e
          else (case shutdown of Some x \<Rightarrow> Some x | None \<Rightarrow> waited)
      | StopRequested \<Rightarrow> (case shutdown of Some x \<Rightarrow> Some x | None \<Rightarrow> waited))"

text \<open>
  \<open>Run\<close>: \<open>serving\<close> is what requests, workers and maintenance do to the database while the process
  serves with the application it wired.
\<close>

definition app_run ::
    "(schema \<Rightarrow> schema \<times> string res) \<Rightarrow> env \<Rightarrow> auth_libs \<Rightarrow> (string \<Rightarrow> go_error option) \<Rightarrow> (string \<Rightarrow> time res)
     \<Rightarrow> (nat \<Rightarrow> ratings \<Rightarrow> ratings) \<Rightarrow> config \<Rightarrow> (application \<Rightarrow> database \<Rightarrow> database) \<Rightarrow> stop \<Rightarrow> go_error option
     \<Rightarrow> go_error option \<Rightarrow> schema \<times> database \<Rightarrow> (schema \<times> database) \<times> go_error option" where
  "app_run open_db en lib load_location parse visit cfg serving reason shutdown waited = (\<lambda>(s, db).
     case open_db s of
       (s', Inl e) \<Rightarrow> ((s', db), Some e)
     | (s', Inr _) \<Rightarrow>
         (case bootstrap_operator en lib cfg db of
            (db', Inl e) \<Rightarrow> ((s', db'), Some e)
          | (db', Inr _) \<Rightarrow>
              ((s', serving (wire lib load_location parse visit (en_uuid en 1) cfg) db'), app_end reason shutdown waited)))"

definition exit_status :: "config res \<Rightarrow> (config \<Rightarrow> go_error option) \<Rightarrow> nat" where
  "exit_status loaded run = (case loaded of Inl e \<Rightarrow> 1 | Inr cfg \<Rightarrow> (case run cfg of Some e \<Rightarrow> 1 | None \<Rightarrow> 0))"

section \<open>The first operator\<close>

text \<open>bcrypt recognizes the password a hash was made from.\<close>

definition bcrypt_sound :: "auth_libs \<Rightarrow> bool" where
  "bcrypt_sound lib \<longleftrightarrow> (\<forall>password h. li_bcrypt lib password = Inr h \<longrightarrow> li_bcrypt_matches lib h password)"

lemma bootstrap_operator_user:
  assumes "bootstrap_operator en lib cfg empty_database = (db, Inr ())" "c_bootstrap_email cfg \<noteq> ''''"
  shows "\<exists>u email. db = empty_database\<lparr>users := [u]\<rparr> \<and> u_id u = en_uuid en 0 \<and> u_role u = RoleOperator \<and> u_active u
    \<and> normalize_email (li_lower lib) (li_address lib) (c_bootstrap_email cfg) = Inr email \<and> u_email u = email
    \<and> li_bcrypt lib (c_bootstrap_password cfg) = Inr (u_password_hash u)"
proof -
  from assms obtain u where b: "bootstrap en lib empty_database empty_database (bootstrap_input cfg) = (db, Inr u)"
    by (auto simp: bootstrap_operator_def split: prod.splits sum.splits)
  then obtain email where e: "normalize_email (li_lower lib) (li_address lib) (c_bootstrap_email cfg) = Inr email"
    by (auto simp: bootstrap_def bootstrap_input_def)
  have none: "\<not> (\<exists>v. via en ''sqlite.scanUser'' (user_by_email empty_database email) = Inr v)"
    by (auto simp: user_by_email_def empty_database_def)
  from b e none obtain
    c: "create_user (li_lower lib) (li_address lib) (li_bcrypt lib) (en_uuid en 0) (bootstrap_input cfg) (en_now en 0) = Inr u"
    and ins: "insert_user empty_database u = Inr db"
    by (cases "via en ''sqlite.scanUser'' (user_by_email empty_database email)")
      (auto simp: bootstrap_def bootstrap_input_def split: if_splits)
  have "users empty_database = []" by (simp add: empty_database_def)
  with ins have "db = empty_database\<lparr>users := [u]\<rparr>" by (simp add: insert_user_Inr)
  moreover have "u_id u = en_uuid en 0" "u_email u = email"
    using c e by (auto simp: create_user_def bootstrap_input_def Let_def split: sum.splits if_splits)
  ultimately show ?thesis using create_user_Inr [OF c] e by (auto simp: bootstrap_input_def)
qed

text \<open>
  A configuration that \<open>Load\<close> accepts and that names an operator admits that operator: the session
  lifetime is within the policy of \<open>IssueSession\<close>, so the login succeeds.
\<close>

lemma operator_event:
  assumes "trim_space (u_id u) = u_id u" "users db = [u]" "audit_events db = []"
  shows "\<exists>db'. insert_audit (event_or_zero (new_event uuid (u_id u) req typ obj act res det at)) db = Inr db'"
proof -
  let ?e = "event_or_zero (new_event uuid (u_id u) req typ obj act res det at)"
  have "ev_actor_id ?e = u_id u \<or> ev_actor_id ?e = ''''"
    using assms(1) by (cases "new_event uuid (u_id u) req typ obj act res det at")
      (auto simp: event_or_zero_def zero_event_def dest!: new_event_Inr)
  then have "user_ref_ok db (ev_actor_id ?e)"
    using assms(2) by (auto simp: user_ref_ok_def user_exists_def blank_def)
  then show ?thesis by (simp add: insert_audit_Inr event_violation_def assms(3))
qed

lemma first_operator_logs_in:
  assumes cfg: "config_load getenv parse = Inr cfg" "c_bootstrap_email cfg \<noteq> ''''"
    and boot: "bootstrap_operator en lib cfg empty_database = (db, Inr ())"
    and libs: "bcrypt_sound lib" "li_random lib = Inr bytes"
    and uuid: "\<not> blank (en_uuid en 0)" "trim_space (en_uuid en 0) = en_uuid en 0"
    and quiet: "\<And>op. en_driver en' op = None"
  shows "\<exists>db' r. login en' lib (new_auth_service (c_session_ttl cfg)) db db
      \<lparr>lg_email = c_bootstrap_email cfg, lg_password = c_bootstrap_password cfg, lg_request = rid\<rparr> = (db', Inr r)
    \<and> uv_role (lr_user r) = RoleOperator \<and> lr_expires_at r = en_now en' 0 + c_session_ttl cfg"
proof -
  from bootstrap_operator_user [OF boot cfg(2)] obtain u email where
    u: "db = empty_database\<lparr>users := [u]\<rparr>" "u_id u = en_uuid en 0" "u_role u = RoleOperator" "u_active u"
    and e: "normalize_email (li_lower lib) (li_address lib) (c_bootstrap_email cfg) = Inr email" "u_email u = email"
    and h: "li_bcrypt lib (c_bootstrap_password cfg) = Inr (u_password_hash u)" by blast
  have ttl: "minute \<le> c_session_ttl cfg" "c_session_ttl cfg \<le> 30 * 24 * hour"
    using config_load_ok [OF cfg(1)] by (simp_all add: config_ok_def)
  have f: "user_by_email db email = Inr u" by (simp add: user_by_email_def u(1) e(2))
  have v: "verify_password (li_bcrypt_matches lib) u (c_bootstrap_password cfg) = Inr ()"
    using h libs(1) u(4) by (simp add: verify_password_def bcrypt_sound_def)
  obtain i where i: "issue_session (li_sha256 lib) (li_random lib) (en_uuid en' 0) (u_id u) (en_now en' 0) (c_session_ttl cfg) = Inr i"
    "ss_expires_at (is_session i) = en_now en' 0 + c_session_ttl cfg" "ss_user_id (is_session i) = u_id u"
    using ttl uuid(1) libs(2) u(2) by (simp add: issue_session_def time_add_def Let_def)
  let ?db = "db\<lparr>sessions := [is_session i]\<rparr>"
  have s: "insert_session db (is_session i) = Inr ?db"
    using i(3) by (simp add: insert_session_Inr session_violation_def user_exists_def u(1) empty_database_def)
  have "\<exists>db'. insert_audit (event_or_zero (new_event uuid (u_id u) req ot obj act res det at)) ?db = Inr db'"
    for uuid req ot obj act res det at
    using uuid(2) u by (intro operator_event) (simp_all add: empty_database_def)
  then obtain db' where a: "insert_audit (event_or_zero (new_event (en_uuid en' 1) (u_id u) (request_id rid) ''session''
      (ss_id (is_session i)) ''login'' ''success''
      (json_object [(''expires_at'', json_string (encode_time (ss_expires_at (is_session i))))]) (en_now en' 1))) ?db = Inr db'"
    by blast
  have l: "login en' lib (new_auth_service (c_session_ttl cfg)) db db
      \<lparr>lg_email = c_bootstrap_email cfg, lg_password = c_bootstrap_password cfg, lg_request = rid\<rparr>
    = (db', Inr \<lparr>lr_token = is_token i, lr_expires_at = ss_expires_at (is_session i), lr_user = view_user u\<rparr>)"
    by (simp add: login_def e f v new_auth_service_def i(1) s a [unfolded One_nat_def] via_def quiet map_error_def Let_def)
  then show ?thesis using i(2) u(3) by (auto simp: view_user_def)
qed

end
