(* ===== verification/StoredTime.thy ===== *)
theory StoredTime
  imports Timestamp Config
begin

text \<open>
  \<open>parseTime\<close> and \<open>parseOptionalTime\<close> of \<open>internal/storage/sqlite/db.go\<close>: reading a stored time back
  with \<open>time.Parse(time.RFC3339Nano, value)\<close>.  The theory computes the strict form of RFC 3339, which
  \<open>time.Parse\<close> tries first (\<open>parseRFC3339\<close>); the general parser it falls back to, for texts that
  are not of that form, is an argument.  Every text that \<open>encodeTime\<close> writes is of the strict form, and
  is read back as the time it was made from.
\<close>

section \<open>The strict form of RFC 3339\<close>

definition is_digit :: "char \<Rightarrow> bool" where
  "is_digit c \<longleftrightarrow> digit_value c \<noteq> None"

definition parse_uint :: "string \<Rightarrow> int \<Rightarrow> int \<Rightarrow> int option" where
  "parse_uint s lo hi = (case digits_value 0 s of None \<Rightarrow> None | Some x \<Rightarrow> if x < lo \<or> hi < x then None else Some x)"

definition days_in :: "int \<Rightarrow> int \<Rightarrow> int" where
  "days_in month year =
     (if month = 2 \<and> is_leap year then 29
      else int (days_before_month ! nat month) - int (days_before_month ! nat (month - 1)))"

definition date_days :: "int \<Rightarrow> int \<Rightarrow> int \<Rightarrow> int" where
  "date_days year month day = days_before_year (year - 1) + int (days_before_month ! nat (month - 1))
     + (if is_leap year \<and> 2 < month then 1 else 0) + (day - 1)"

text \<open>\<open>parseNanoseconds\<close>: the digits after the point; those after the ninth are dropped.\<close>

definition nanoseconds :: "string \<Rightarrow> int" where
  "nanoseconds ds = (let ds = take 9 ds in (case digits_value 0 ds of None \<Rightarrow> 0 | Some v \<Rightarrow> v * 10 ^ (9 - length ds)))"

definition split_fraction :: "string \<Rightarrow> int \<times> string" where
  "split_fraction s =
     (if 2 \<le> length s \<and> s ! 0 = CHR ''.'' \<and> is_digit (s ! 1)
      then (nanoseconds (takeWhile is_digit (tl s)), dropWhile is_digit (tl s))
      else (0, s))"

definition zone_offset :: "string \<Rightarrow> int option" where
  "zone_offset s =
     (if s = ''Z'' then Some 0
      else if length s \<noteq> 6 \<or> \<not> (s ! 0 = CHR ''-'' \<or> s ! 0 = CHR ''+'') \<or> s ! 3 \<noteq> CHR '':'' then None
      else case (parse_uint (take 2 (drop 1 s)) 0 23, parse_uint (drop 4 s) 0 59) of
          (Some h, Some m) \<Rightarrow> Some (if s ! 0 = CHR ''-'' then - ((h * 60 + m) * 60) else (h * 60 + m) * 60)
        | _ \<Rightarrow> None)"

definition parse_strict :: "string \<Rightarrow> time option" where
  "parse_strict s =
     (if length s < 19 \<or> s ! 4 \<noteq> CHR ''-'' \<or> s ! 7 \<noteq> CHR ''-'' \<or> s ! 10 \<noteq> CHR ''T'' \<or> s ! 13 \<noteq> CHR '':'' \<or> s ! 16 \<noteq> CHR '':''
      then None
      else case (parse_uint (take 4 s) 0 9999, parse_uint (take 2 (drop 5 s)) 1 12) of
        (Some year, Some month) \<Rightarrow>
          (case (parse_uint (take 2 (drop 8 s)) 1 (days_in month year), parse_uint (take 2 (drop 11 s)) 0 23,
                 parse_uint (take 2 (drop 14 s)) 0 59, parse_uint (take 2 (drop 17 s)) 0 59) of
             (Some day, Some h, Some m, Some sec) \<Rightarrow>
               (let (nsec, zone) = split_fraction (drop 19 s) in
                case zone_offset zone of
                  None \<Rightarrow> None
                | Some offset \<Rightarrow> Some ((86400 * date_days year month day + 3600 * h + 60 * m + sec - offset) * second + nsec))
           | _ \<Rightarrow> None)
      | _ \<Rightarrow> None)"

definition parse_stored :: "(string \<Rightarrow> time + string) \<Rightarrow> string \<Rightarrow> time res" where
  "parse_stored general value =
     (case parse_strict value of
        Some t \<Rightarrow> Inr t
      | None \<Rightarrow>
          (case general value of
             Inl t \<Rightarrow> Inr t
           | Inr e \<Rightarrow> Inl (Wrapping (''parse stored time '' @ go_quote value @ '': '' @ e) (Plain e))))"

definition parse_optional_stored :: "(string \<Rightarrow> time + string) \<Rightarrow> string option \<Rightarrow> time option res" where
  "parse_optional_stored general value =
     (case value of
        None \<Rightarrow> Inr None
      | Some text \<Rightarrow> (case parse_stored general text of Inl e \<Rightarrow> Inl e | Inr t \<Rightarrow> Inr (Some t)))"

definition encode_optional_time :: "time option \<Rightarrow> string option" where
  "encode_optional_time value = map_option encode_time value"

section \<open>Digits\<close>

lemma digits_value_pad: "n < 10 ^ k \<Longrightarrow> digits_value 0 (pad k n) = Some (int n)"
proof (induction k arbitrary: n)
  case (Suc k)
  then have "n div 10 < 10 ^ k" by (simp add: less_mult_imp_div_less mult.commute)
  with Suc.IH show ?case by (simp add: digits_value_append zdiv_int zmod_int)
qed simp

lemma is_digit_digit [simp]: "n < 10 \<Longrightarrow> is_digit (digit n)"
  by (simp add: is_digit_def)

lemma is_digit_pad: "c \<in> set (pad k n) \<Longrightarrow> is_digit c"
  by (induction k arbitrary: n) auto

lemma parse_uint_pad: "n < 10 ^ k \<Longrightarrow> lo \<le> int n \<Longrightarrow> int n \<le> hi \<Longrightarrow> parse_uint (pad k n) lo hi = Some (int n)"
  by (simp add: parse_uint_def digits_value_pad)

lemma digits_value_zeros: "digits_value v (replicate k (CHR ''0'')) = Some (v * 10 ^ k)"
proof (induction k arbitrary: v)
  case (Suc k)
  have "digit_value (CHR ''0'') = Some 0" by (simp add: digit_value_def)
  with Suc.IH show ?case by (simp add: algebra_simps)
qed simp

lemma trim_zeros_split: "trim_zeros s @ replicate (length s - length (trim_zeros s)) (CHR ''0'') = s"
proof -
  let ?z = "\<lambda>c. c = CHR ''0''"
  have all: "\<forall>c \<in> set (takeWhile ?z (rev s)). c = CHR ''0''" by (auto dest: set_takeWhileD)
  then have "takeWhile ?z (rev s) = replicate (length (takeWhile ?z (rev s))) (CHR ''0'')"
    by (simp add: replicate_length_same)
  moreover have "length (takeWhile ?z (rev s)) = length s - length (trim_zeros s)"
    by (metis (no_types) add_diff_cancel_right' length_append length_rev takeWhile_dropWhile_id trim_zeros_def)
  moreover have "s = rev (dropWhile ?z (rev s)) @ rev (takeWhile ?z (rev s))"
    by (metis rev_append rev_rev_ident takeWhile_dropWhile_id)
  ultimately show ?thesis by (metis rev_replicate trim_zeros_def)
qed

lemma nanoseconds_fraction:
  assumes "ns < 10 ^ 9"
  shows "nanoseconds (trim_zeros (pad 9 ns)) = int ns"
proof -
  let ?t = "trim_zeros (pad 9 ns)"
  have split: "?t @ replicate (9 - length ?t) (CHR ''0'') = pad 9 ns" using trim_zeros_split [of "pad 9 ns"] by simp
  then have len: "length ?t \<le> 9" by (metis length_append length_pad le_add1)
  have "digits_value 0 (?t @ replicate (9 - length ?t) (CHR ''0'')) = Some (int ns)"
    unfolding split by (rule digits_value_pad [OF assms])
  then obtain v where "digits_value 0 ?t = Some v" "v * 10 ^ (9 - length ?t) = int ns"
    unfolding digits_value_append digits_value_zeros by (auto split: option.splits)
  with len show ?thesis by (simp add: nanoseconds_def)
qed

lemma split_fraction_text:
  assumes "ns < 10 ^ 9"
  shows "split_fraction (fraction_text ns @ ''Z'') = (int ns, ''Z'')"
proof (cases "ns = 0")
  case True
  then show ?thesis by (simp add: fraction_text_def split_fraction_def)
next
  case False
  let ?t = "trim_zeros (pad 9 ns)"
  have digits: "\<forall>c \<in> set ?t. is_digit c"
    using trim_zeros_split [of "pad 9 ns"] is_digit_pad [of _ 9 ns] by (metis UnCI set_append)
  have "?t \<noteq> []"
  proof
    assume "?t = []"
    then have "nanoseconds [] = int ns" using nanoseconds_fraction [OF assms] by simp
    with False show False by (simp add: nanoseconds_def)
  qed
  moreover from this digits have "is_digit (?t ! 0)" by simp
  moreover have "\<not> is_digit (CHR ''Z'')" by (simp add: is_digit_def digit_value_def)
  ultimately show ?thesis
    using digits False nanoseconds_fraction [OF assms]
    by (auto simp: fraction_text_def split_fraction_def nth_append Suc_le_eq)
qed

section \<open>The round trip\<close>

lemma month_day_plain_inverse:
  assumes "n < 365" "month_day False n = (m, d)"
  shows "1 \<le> m \<and> m \<le> 12 \<and> 1 \<le> d \<and> days_before_month ! (m - 1) + d = n + 1 \<and> days_before_month ! (m - 1) + d \<le> days_before_month ! m"
  using assms by (simp add: month_day_table split: if_splits) (auto simp: days_before_month_def)

lemma month_day_inverse:
  assumes "n \<le> (if leap then 365 else 364)" "month_day leap n = (m, d)"
  shows "1 \<le> m \<and> m \<le> 12 \<and> 1 \<le> d
    \<and> days_before_month ! (m - 1) + (if leap \<and> 2 < m then 1 else 0) + d = n + 1
    \<and> (if m = 2 \<and> leap then d \<le> 29 else days_before_month ! (m - 1) + d \<le> days_before_month ! m)"
proof (cases "leap \<and> 59 \<le> n")
  case False
  then have plain: "month_day False n = (m, d)" "n < 365" using assms by (auto simp: month_day_leap split: if_splits)
  have "m \<le> 2" if leap
  proof -
    have "n < 59" using False that by simp
    with plain(1) show ?thesis by (auto simp: month_day_table split: if_splits)
  qed
  moreover have "leap \<Longrightarrow> m = 2 \<Longrightarrow> d \<le> 29"
    using month_day_plain_inverse [OF plain(2,1)] by (simp add: days_before_month_def)
  ultimately show ?thesis using month_day_plain_inverse [OF plain(2,1)] by auto
next
  case True
  show ?thesis
  proof (cases "n = 59")
    case True
    with \<open>leap \<and> 59 \<le> n\<close> assms(2) have "m = 2" "d = 29" by (simp_all add: month_day_leap)
    with True \<open>leap \<and> 59 \<le> n\<close> show ?thesis by (simp add: days_before_month_def)
  next
    case False
    then have plain: "month_day False (n - 1) = (m, d)" "n - 1 < 365" "59 \<le> n - 1"
      using assms True by (auto simp: month_day_leap)
    then have "3 \<le> m" by (auto simp: month_day_table split: if_splits)
    with month_day_plain_inverse [OF plain(2,1)] True show ?thesis by auto
  qed
qed

lemma parse_strict_fields:
  assumes "length a = 4" "length b = 2" "length c = 2" "length d = 2" "length e = 2" "length f = 2"
  shows "parse_strict ((a @ ''-'' @ b @ ''-'' @ c @ ''T'' @ d @ '':'' @ e @ '':'' @ f) @ rest) =
    (case (parse_uint a 0 9999, parse_uint b 1 12) of
        (Some year, Some month) \<Rightarrow>
          (case (parse_uint c 1 (days_in month year), parse_uint d 0 23, parse_uint e 0 59, parse_uint f 0 59) of
             (Some day, Some h, Some m, Some sec) \<Rightarrow>
               (let (nsec, zone) = split_fraction rest in
                case zone_offset zone of
                  None \<Rightarrow> None
                | Some offset \<Rightarrow> Some ((86400 * date_days year month day + 3600 * h + 60 * m + sec - offset) * second + nsec))
           | _ \<Rightarrow> None)
      | _ \<Rightarrow> None)"
proof -
  let ?s = "(a @ ''-'' @ b @ ''-'' @ c @ ''T'' @ d @ '':'' @ e @ '':'' @ f) @ rest"
  have cut: "take 4 ?s = a" "take 2 (drop 5 ?s) = b" "take 2 (drop 8 ?s) = c" "take 2 (drop 11 ?s) = d"
    "take 2 (drop 14 ?s) = e" "take 2 (drop 17 ?s) = f" "drop 19 ?s = rest"
    "\<not> (length ?s < 19 \<or> ?s ! 4 \<noteq> CHR ''-'' \<or> ?s ! 7 \<noteq> CHR ''-'' \<or> ?s ! 10 \<noteq> CHR ''T'' \<or> ?s ! 13 \<noteq> CHR '':'' \<or> ?s ! 16 \<noteq> CHR '':'')"
    using assms by (simp_all add: nth_append drop_Cons' take_Cons')
  show ?thesis unfolding parse_strict_def cut(1-7) if_not_P [OF cut(8)] ..
qed

lemma parse_second_text:
  assumes "0 \<le> s" "s < 315537897600" "zone_offset zone = Some offset" "split_fraction rest = (nsec, zone)"
  shows "parse_strict (second_text s @ rest) = Some ((s - offset) * second + nsec)"
proof -
  let ?d = "s div 86400" and ?sod = "nat (s mod 86400)"
  obtain y r where yr: "year_day ?d = (y, r)" by force
  note spec = year_day_spec [OF yr]
  let ?l = "is_leap (y + 1)"
  obtain m dd where md: "month_day ?l (nat r) = (m, dd)" by force
  have n: "nat r \<le> (if ?l then 365 else 364)" using spec(2,3) by (auto split: if_splits)
  note inv = month_day_inverse [OF n md]
  have "0 \<le> ?d" "?d < 3652059" using assms(1,2) by (auto simp: pos_imp_zdiv_nonneg_iff)
  from year_range [OF yr this] have y: "0 \<le> y" "y < 9999" by auto
  have written: "second_text s = pad 4 (nat (y + 1)) @ ''-'' @ pad 2 m @ ''-'' @ pad 2 dd @ ''T''
      @ pad 2 (?sod div 3600) @ '':'' @ pad 2 (?sod div 60 mod 60) @ '':'' @ pad 2 (?sod mod 60)"
    by (simp add: second_text_def Let_def yr md)
  have sod: "?sod < 86400" by (simp add: nat_less_iff)
  have sum: "?sod = 3600 * (?sod div 3600) + 60 * (?sod div 60 mod 60) + ?sod mod 60"
  proof -
    have "?sod div 3600 = ?sod div 60 div 60" by (simp add: div_mult2_eq [symmetric])
    moreover have "?sod div 60 = 60 * (?sod div 60 div 60) + ?sod div 60 mod 60" by simp
    moreover have "?sod = 60 * (?sod div 60) + ?sod mod 60" by simp
    ultimately show ?thesis by linarith
  qed
  obtain h mi sec where f: "?sod div 3600 = h" "?sod div 60 mod 60 = mi" "?sod mod 60 = sec" by blast
  have lt: "h < 24" "mi < 60" "sec < 60" using sod f by (auto simp: less_mult_imp_div_less)
  have r: "int (nat r) = r" using spec(2) by simp
  have "int (days_before_month ! (m - 1)) + (if ?l \<and> 2 < m then 1 else 0) + int dd = r + 1"
    using inv r by (auto split: if_splits)
  then have days: "date_days (y + 1) (int m) (int dd) = ?d"
    using inv spec(1) by (simp add: date_days_def nat_diff_distrib)
  have day: "int dd \<le> days_in (int m) (y + 1)"
    using inv by (auto simp: days_in_def nat_diff_distrib days_before_month_def split: if_splits)
  have "days_in (int m) (y + 1) \<le> 31"
  proof -
    have "m = 1 \<or> m = 2 \<or> m = 3 \<or> m = 4 \<or> m = 5 \<or> m = 6 \<or> m = 7 \<or> m = 8 \<or> m = 9 \<or> m = 10 \<or> m = 11 \<or> m = 12"
      using inv [THEN conjunct1] inv [THEN conjunct2, THEN conjunct1] by presburger
    then show ?thesis by (elim disjE) (simp_all add: days_in_def days_before_month_def)
  qed
  with day have small: "m < 10 ^ 2" "dd < 10 ^ 2" using inv by auto
  have secs: "s = 86400 * ?d + 3600 * int h + 60 * int mi + int sec"
  proof -
    have "int ?sod = 3600 * int h + 60 * int mi + int sec" using arg_cong [OF sum, of int] by (simp add: f)
    then have "s mod 86400 = 3600 * int h + 60 * int mi + int sec" by simp
    with mult_div_mod_eq [of 86400 s] show ?thesis by linarith
  qed
  have u: "parse_uint (pad 4 (nat (y + 1))) 0 9999 = Some (y + 1)" "parse_uint (pad 2 m) 1 12 = Some (int m)"
    "parse_uint (pad 2 dd) 1 (days_in (int m) (y + 1)) = Some (int dd)" "parse_uint (pad 2 h) 0 23 = Some (int h)"
    "parse_uint (pad 2 mi) 0 59 = Some (int mi)" "parse_uint (pad 2 sec) 0 59 = Some (int sec)"
    using y inv lt small day by (auto intro!: parse_uint_pad [THEN trans])
  show ?thesis
    unfolding parse_strict_fields [OF length_pad length_pad length_pad length_pad length_pad length_pad] written
    by (simp add: f u days assms(3,4) flip: secs)
qed

text \<open>Every time of the years 1 to 9999 is read back from its stored text.\<close>

lemma parse_encode_time:
  assumes "time_in_range t"
  shows "parse_strict (encode_time t) = Some t"
proof -
  have s: "0 \<le> t div second" "t div second < 315537897600"
    using assms by (auto simp: time_in_range_def pos_imp_zdiv_nonneg_iff)
  have "nat (t mod second) < 10 ^ 9" by (simp add: nat_less_iff)
  from split_fraction_text [OF this] have f: "split_fraction (fraction_text (nat (t mod second)) @ ''Z'') = (t mod second, ''Z'')"
    by simp
  have "zone_offset ''Z'' = Some 0" by (simp add: zone_offset_def)
  from parse_second_text [OF s this f] show ?thesis by (simp add: encode_time_def)
qed

lemma parse_stored_encode: "time_in_range t \<Longrightarrow> parse_stored general (encode_time t) = Inr t"
  by (simp add: parse_stored_def parse_encode_time)

lemma parse_optional_encode:
  "(\<And>t. value = Some t \<Longrightarrow> time_in_range t) \<Longrightarrow> parse_optional_stored general (encode_optional_time value) = Inr value"
  by (cases "value") (simp_all add: parse_optional_stored_def encode_optional_time_def parse_stored_encode)

text \<open>Different times have different texts.\<close>

lemma encode_time_inj: "time_in_range t \<Longrightarrow> time_in_range u \<Longrightarrow> encode_time t = encode_time u \<longleftrightarrow> t = u"
  using parse_encode_time by (metis option.inject)

end
