(* ===== verification/Rows.thy ===== *)
theory Rows
  imports StoredTime Store
begin

text \<open>
  The rows behind the records: the columns that \<open>InsertSite\<close>, \<open>InsertPlan\<close> and \<open>insertJob\<close> write and
  what \<open>scanSite\<close>, \<open>scanPlan\<close> and \<open>scanJobRows\<close> make of them.  The tables of the other theories hold
  records; this is sound because what is written is read back.  A status column only holds the texts
  its constraint lists.
\<close>

section \<open>Statuses\<close>

definition status_of_text :: "('s \<Rightarrow> string) \<Rightarrow> 's list \<Rightarrow> string \<Rightarrow> 's option" where
  "status_of_text text values s = find (\<lambda>v. text v = s) values"

definition plan_statuses :: "plan_status list" where
  "plan_statuses = [PlanDraft, PlanSubmitted, PlanApproved, PlanDispatched, PlanRunning, PlanCompleted, PlanFailed, PlanCancelled]"

fun job_status_text :: "job_status \<Rightarrow> string" where
  "job_status_text JobPending = ''pending''"
| "job_status_text JobLeased = ''leased''"
| "job_status_text JobSucceeded = ''succeeded''"
| "job_status_text JobRetryable = ''retryable''"
| "job_status_text JobPermanentFailure = ''permanent_failure''"
| "job_status_text JobCancelled = ''cancelled''"

definition job_statuses :: "job_status list" where
  "job_statuses = [JobPending, JobLeased, JobSucceeded, JobRetryable, JobPermanentFailure, JobCancelled]"

text \<open>The conversion \<open>site.Status(text)\<close> and \<open>dispatch.Direction(text)\<close>: any text is kept.\<close>

definition site_status_of_text :: "string \<Rightarrow> site_status" where
  "site_status_of_text s =
     (if s = ''commissioning'' then StatusCommissioning else if s = ''active'' then StatusActive
      else if s = ''suspended'' then StatusSuspended else if s = ''retired'' then StatusRetired else StatusOther s)"

definition direction_of_text :: "string \<Rightarrow> direction" where
  "direction_of_text s = (if s = ''charge'' then Charge else if s = ''discharge'' then Discharge else DirectionOther s)"

section \<open>Columns\<close>

text \<open>A nullable text column: \<open>nullableString\<close> and \<open>sql.NullString\<close>.\<close>

definition nullable_column :: "string \<Rightarrow> string option" where
  "nullable_column value = (if blank value then None else Some value)"

definition null_string :: "string option \<Rightarrow> string" where
  "null_string column = (case column of None \<Rightarrow> '''' | Some s \<Rightarrow> s)"

text \<open>\<open>t, _ = parseTime(text)\<close>: a text that is no time leaves the zero time, the start of the year 1.\<close>

definition time_or_zero :: "time res \<Rightarrow> time" where
  "time_or_zero r = (case r of Inl _ \<Rightarrow> 0 | Inr t \<Rightarrow> t)"

definition optional_or_nil :: "time option res \<Rightarrow> time option" where
  "optional_or_nil r = (case r of Inl _ \<Rightarrow> None | Inr t \<Rightarrow> t)"

record site_row =
  sr_id :: string
  sr_code :: string
  sr_name :: string
  sr_timezone :: string
  sr_grid_limit :: i64
  sr_reserved :: i64
  sr_status :: string
  sr_version :: i64
  sr_created_at :: string
  sr_updated_at :: string

definition site_columns :: "site \<Rightarrow> site_row" where
  "site_columns s = \<lparr>sr_id = s_id s, sr_code = s_code s, sr_name = s_name s, sr_timezone = s_timezone s,
     sr_grid_limit = s_grid_limit s, sr_reserved = s_reserved s, sr_status = site_status_text (s_status s),
     sr_version = s_version s, sr_created_at = encode_time (s_created_at s), sr_updated_at = encode_time (s_updated_at s)\<rparr>"

definition scan_site :: "(string \<Rightarrow> time + string) \<Rightarrow> site_row \<Rightarrow> site res" where
  "scan_site general r =
     (case parse_stored general (sr_created_at r) of
        Inl e \<Rightarrow> Inl e
      | Inr created \<Rightarrow>
          (case parse_stored general (sr_updated_at r) of
             Inl e \<Rightarrow> Inl e
           | Inr updated \<Rightarrow> Inr \<lparr>s_id = sr_id r, s_code = sr_code r, s_name = sr_name r, s_timezone = sr_timezone r,
               s_grid_limit = sr_grid_limit r, s_reserved = sr_reserved r, s_status = site_status_of_text (sr_status r),
               s_version = sr_version r, s_created_at = created, s_updated_at = updated\<rparr>))"

record plan_row =
  pr_id :: string
  pr_site_id :: string
  pr_name :: string
  pr_direction :: string
  pr_requested_kw :: i64
  pr_target_kwh :: i64
  pr_starts_at :: string
  pr_ends_at :: string
  pr_status :: string
  pr_created_by :: string
  pr_approved_by :: "string option"
  pr_approved_at :: "string option"
  pr_version :: i64
  pr_created_at :: string
  pr_updated_at :: string

definition plan_columns :: "plan \<Rightarrow> plan_row" where
  "plan_columns p = \<lparr>pr_id = p_id p, pr_site_id = p_site_id p, pr_name = p_name p, pr_direction = direction_text (p_direction p),
     pr_requested_kw = p_requested_kw p, pr_target_kwh = p_target_kwh p, pr_starts_at = encode_time (w_start (p_window p)),
     pr_ends_at = encode_time (w_end (p_window p)), pr_status = plan_status_text (p_status p), pr_created_by = p_created_by p,
     pr_approved_by = nullable_column (p_approved_by p), pr_approved_at = encode_optional_time (p_approved_at p),
     pr_version = p_version p, pr_created_at = encode_time (p_created_at p), pr_updated_at = encode_time (p_updated_at p)\<rparr>"

definition scan_plan :: "(string \<Rightarrow> time + string) \<Rightarrow> plan_row \<Rightarrow> plan option" where
  "scan_plan general r =
     (case status_of_text plan_status_text plan_statuses (pr_status r) of
        None \<Rightarrow> None
      | Some status \<Rightarrow> Some \<lparr>p_id = pr_id r, p_site_id = pr_site_id r, p_name = pr_name r,
          p_direction = direction_of_text (pr_direction r), p_requested_kw = pr_requested_kw r, p_target_kwh = pr_target_kwh r,
          p_window = \<lparr>w_start = time_or_zero (parse_stored general (pr_starts_at r)),
                      w_end = time_or_zero (parse_stored general (pr_ends_at r))\<rparr>,
          p_status = status, p_created_by = pr_created_by r, p_approved_by = null_string (pr_approved_by r),
          p_approved_at = optional_or_nil (parse_optional_stored general (pr_approved_at r)), p_version = pr_version r,
          p_created_at = time_or_zero (parse_stored general (pr_created_at r)),
          p_updated_at = time_or_zero (parse_stored general (pr_updated_at r))\<rparr>)"

record job_row =
  jr_id :: string
  jr_plan_id :: string
  jr_cluster_id :: string
  jr_status :: string
  jr_attempts :: i64
  jr_max_attempts :: i64
  jr_next_attempt_at :: string
  jr_lease_owner :: "string option"
  jr_lease_until :: "string option"
  jr_last_error :: string
  jr_command_key :: string
  jr_version :: i64
  jr_created_at :: string
  jr_updated_at :: string

definition job_columns :: "job \<Rightarrow> job_row" where
  "job_columns j = \<lparr>jr_id = j_id j, jr_plan_id = j_plan_id j, jr_cluster_id = j_cluster_id j,
     jr_status = job_status_text (j_status j), jr_attempts = j_attempts j, jr_max_attempts = j_max_attempts j,
     jr_next_attempt_at = encode_time (j_next_attempt_at j), jr_lease_owner = nullable_column (j_lease_owner j),
     jr_lease_until = encode_optional_time (j_lease_until j), jr_last_error = j_last_error j,
     jr_command_key = j_command_key j, jr_version = j_version j,
     jr_created_at = encode_time (j_created_at j), jr_updated_at = encode_time (j_updated_at j)\<rparr>"

definition scan_job :: "(string \<Rightarrow> time + string) \<Rightarrow> job_row \<Rightarrow> job option" where
  "scan_job general r =
     (case status_of_text job_status_text job_statuses (jr_status r) of
        None \<Rightarrow> None
      | Some status \<Rightarrow> Some \<lparr>j_id = jr_id r, j_plan_id = jr_plan_id r, j_cluster_id = jr_cluster_id r, j_status = status,
          j_attempts = jr_attempts r, j_max_attempts = jr_max_attempts r,
          j_next_attempt_at = time_or_zero (parse_stored general (jr_next_attempt_at r)),
          j_lease_owner = null_string (jr_lease_owner r),
          j_lease_until = optional_or_nil (parse_optional_stored general (jr_lease_until r)),
          j_last_error = jr_last_error r, j_command_key = jr_command_key r, j_version = jr_version r,
          j_created_at = time_or_zero (parse_stored general (jr_created_at r)),
          j_updated_at = time_or_zero (parse_stored general (jr_updated_at r))\<rparr>)"

section \<open>What is written is read back\<close>

lemma plan_status_read: "status_of_text plan_status_text plan_statuses (plan_status_text v) = Some v"
  by (cases v) (simp_all add: status_of_text_def plan_statuses_def)

lemma job_status_read: "status_of_text job_status_text job_statuses (job_status_text v) = Some v"
  by (cases v) (simp_all add: status_of_text_def job_statuses_def)

lemma site_status_read: "(\<And>s. v \<noteq> StatusOther s) \<Longrightarrow> site_status_of_text (site_status_text v) = v"
  by (cases v) (simp_all add: site_status_of_text_def)

lemma direction_read: "(\<And>s. d \<noteq> DirectionOther s) \<Longrightarrow> direction_of_text (direction_text d) = d"
  by (cases d) (simp_all add: direction_of_text_def)

lemma nullable_read [simp]: "null_string (nullable_column s) = nullable_string s"
  by (simp add: nullable_string_def nullable_column_def null_string_def)

text \<open>The instants a record carries.\<close>

definition site_times :: "site \<Rightarrow> time set" where
  "site_times s = {s_created_at s, s_updated_at s}"

definition plan_times :: "plan \<Rightarrow> time set" where
  "plan_times p = {w_start (p_window p), w_end (p_window p), p_created_at p, p_updated_at p} \<union> set_option (p_approved_at p)"

definition job_times :: "job \<Rightarrow> time set" where
  "job_times j = {j_next_attempt_at j, j_created_at j, j_updated_at j} \<union> set_option (j_lease_until j)"

definition writable :: "time set \<Rightarrow> bool" where
  "writable ts \<longleftrightarrow> (\<forall>t \<in> ts. time_in_range t)"

lemma time_read [simp]: "time_in_range t \<Longrightarrow> time_or_zero (parse_stored general (encode_time t)) = t"
  by (simp add: time_or_zero_def parse_stored_encode)

lemma optional_time_read: "writable (set_option t) \<Longrightarrow>
    optional_or_nil (parse_optional_stored general (encode_optional_time t)) = t"
  by (simp add: optional_or_nil_def writable_def parse_optional_encode)

lemma writable_parts: "writable (insert t ts) \<longleftrightarrow> time_in_range t \<and> writable ts"
  "writable (ts \<union> us) \<longleftrightarrow> writable ts \<and> writable us" "writable {}"
  by (auto simp: writable_def)

lemmas read_back = writable_parts parse_stored_encode optional_time_read time_or_zero_def

lemma site_read_back:
  assumes "writable (site_times s)" "\<And>t. s_status s \<noteq> StatusOther t"
  shows "scan_site general (site_columns s) = Inr s"
  using assms(1) site_status_read [OF assms(2)] by (simp add: scan_site_def site_columns_def site_times_def read_back)

lemma plan_read_back:
  assumes "writable (plan_times p)" "\<And>t. p_direction p \<noteq> DirectionOther t"
  shows "scan_plan general (plan_columns p) = Some (p\<lparr>p_approved_by := nullable_string (p_approved_by p)\<rparr>)"
  using assms(1) direction_read [OF assms(2)]
  by (auto simp: scan_plan_def plan_columns_def plan_times_def plan_status_read read_back intro!: plan.equality window.equality)

lemma job_read_back:
  assumes "writable (job_times j)"
  shows "scan_job general (job_columns j) = Some (j\<lparr>j_lease_owner := nullable_string (j_lease_owner j)\<rparr>)"
  using assms by (auto simp: scan_job_def job_columns_def job_times_def job_status_read read_back intro!: job.equality)

section \<open>Sessions and idempotency keys\<close>

text \<open>\<open>SessionByHash\<close> returns the error of a time it cannot read: no session lives longer for it.\<close>

record session_row =
  xr_id :: string
  xr_user_id :: string
  xr_token_hash :: string
  xr_expires_at :: string
  xr_revoked_at :: "string option"
  xr_last_seen_at :: string
  xr_created_at :: string

definition session_columns :: "session \<Rightarrow> session_row" where
  "session_columns s = \<lparr>xr_id = ss_id s, xr_user_id = ss_user_id s, xr_token_hash = ss_token_hash s,
     xr_expires_at = encode_time (ss_expires_at s), xr_revoked_at = encode_optional_time (ss_revoked_at s),
     xr_last_seen_at = encode_time (ss_last_seen_at s), xr_created_at = encode_time (ss_created_at s)\<rparr>"

definition scan_session :: "(string \<Rightarrow> time + string) \<Rightarrow> session_row \<Rightarrow> session res" where
  "scan_session general r =
     and_then (parse_stored general (xr_expires_at r)) (\<lambda>expires.
     and_then (parse_optional_stored general (xr_revoked_at r)) (\<lambda>revoked.
     and_then (parse_stored general (xr_last_seen_at r)) (\<lambda>seen.
     and_then (parse_stored general (xr_created_at r)) (\<lambda>created.
     Inr \<lparr>ss_id = xr_id r, ss_user_id = xr_user_id r, ss_token_hash = xr_token_hash r, ss_expires_at = expires,
          ss_revoked_at = revoked, ss_last_seen_at = seen, ss_created_at = created\<rparr>))))"

text \<open>\<open>nullableStatus\<close> and \<open>nullableBytes\<close>: a request that is not answered yet has neither.\<close>

definition nullable_status :: "i64 \<Rightarrow> i64 option" where
  "nullable_status value = (if value = 0 then None else Some value)"

definition nullable_bytes :: "string \<Rightarrow> string option" where
  "nullable_bytes value = (if length value = 0 then None else Some value)"

fun idem_state_text :: "idem_state \<Rightarrow> string" where
  "idem_state_text Started = ''started''"
| "idem_state_text Completed = ''completed''"

record idem_row =
  ir_id :: string
  ir_actor_id :: string
  ir_method :: string
  ir_path :: string
  ir_key :: string
  ir_request_hash :: string
  ir_response_status :: "i64 option"
  ir_response_body :: "string option"
  ir_state :: string
  ir_expires_at :: string
  ir_created_at :: string
  ir_updated_at :: string

definition idem_columns :: "idem_record \<Rightarrow> idem_row" where
  "idem_columns r = \<lparr>ir_id = i_id r, ir_actor_id = i_actor_id r, ir_method = i_method r, ir_path = i_path r, ir_key = i_key r,
     ir_request_hash = i_request_hash r, ir_response_status = nullable_status (i_response_status r),
     ir_response_body = nullable_bytes (i_response_body r), ir_state = idem_state_text (i_state r),
     ir_expires_at = encode_time (i_expires_at r), ir_created_at = encode_time (i_created_at r),
     ir_updated_at = encode_time (i_updated_at r)\<rparr>"

definition scan_idempotency :: "(string \<Rightarrow> time + string) \<Rightarrow> idem_row \<Rightarrow> idem_record option" where
  "scan_idempotency general r =
     (case status_of_text idem_state_text [Started, Completed] (ir_state r) of
        None \<Rightarrow> None
      | Some state \<Rightarrow> Some \<lparr>i_id = ir_id r, i_actor_id = ir_actor_id r, i_method = ir_method r, i_path = ir_path r,
          i_key = ir_key r, i_request_hash = ir_request_hash r,
          i_response_status = (case ir_response_status r of None \<Rightarrow> 0 | Some n \<Rightarrow> n),
          i_response_body = null_string (ir_response_body r), i_state = state,
          i_expires_at = time_or_zero (parse_stored general (ir_expires_at r)),
          i_created_at = time_or_zero (parse_stored general (ir_created_at r)),
          i_updated_at = time_or_zero (parse_stored general (ir_updated_at r))\<rparr>)"

definition session_times :: "session \<Rightarrow> time set" where
  "session_times s = {ss_expires_at s, ss_last_seen_at s, ss_created_at s} \<union> set_option (ss_revoked_at s)"

definition idem_times :: "idem_record \<Rightarrow> time set" where
  "idem_times r = {i_expires_at r, i_created_at r, i_updated_at r}"

lemma parse_optional_read: "writable (set_option t) \<Longrightarrow>
    parse_optional_stored general (encode_optional_time t) = Inr t"
  by (simp add: writable_def parse_optional_encode)

lemma session_read_back: "writable (session_times s) \<Longrightarrow> scan_session general (session_columns s) = Inr s"
  by (simp add: scan_session_def session_columns_def session_times_def read_back parse_optional_read)

lemma idempotency_read_back: "writable (idem_times r) \<Longrightarrow> scan_idempotency general (idem_columns r) = Some r"
  by (cases "i_state r")
    (auto simp: scan_idempotency_def idem_columns_def idem_times_def read_back status_of_text_def nullable_status_def
      nullable_bytes_def null_string_def intro!: idem_record.equality)

text \<open>A session whose expiry cannot be read is refused.\<close>

lemma unreadable_session_refused:
  assumes "parse_stored general (xr_expires_at r) = Inl e"
  shows "scan_session general r = Inl e"
  using assms by (simp add: scan_session_def)
end
