(* ===== verification/RowsMore.thy ===== *)
theory RowsMore
  imports Rows
begin

text \<open>
  The rows of the other tables the program reads: users, clusters, reservations, alarms, settlement
  periods and audit events, as their insertions and updates write them and as their queries read
  them.  Snapshots and settlement entries are written only.
\<close>

section \<open>Statuses\<close>

text \<open>The conversion \<open>alarm.Severity(text)\<close>, like \<open>identity.Role(text)\<close>, keeps any text.\<close>

fun severity_text :: "severity \<Rightarrow> string" where
  "severity_text SeverityWarning = ''warning''"
| "severity_text SeverityCritical = ''critical''"
| "severity_text (SeverityOther s) = s"

definition severity_of_text :: "string \<Rightarrow> severity" where
  "severity_of_text s =
     (if s = ''warning'' then SeverityWarning else if s = ''critical'' then SeverityCritical else SeverityOther s)"

fun reservation_status_text :: "reservation_status \<Rightarrow> string" where
  "reservation_status_text ReservationHeld = ''held''"
| "reservation_status_text ReservationConsumed = ''consumed''"
| "reservation_status_text ReservationReleased = ''released''"

fun period_status_text :: "period_status \<Rightarrow> string" where
  "period_status_text PeriodOpen = ''open''"
| "period_status_text PeriodCalculating = ''calculating''"
| "period_status_text PeriodClosed = ''closed''"

definition cluster_statuses :: "cluster_status list" where
  "cluster_statuses = [ClusterAvailable, ClusterReserved, ClusterRunning, ClusterDegraded, ClusterOffline]"

section \<open>Columns\<close>

record user_row =
  ur_id :: string
  ur_email :: string
  ur_password_hash :: string
  ur_display_name :: string
  ur_role :: string
  ur_active :: bool
  ur_version :: i64
  ur_created_at :: string
  ur_updated_at :: string

definition user_columns :: "user \<Rightarrow> user_row" where
  "user_columns u = \<lparr>ur_id = u_id u, ur_email = u_email u, ur_password_hash = u_password_hash u,
     ur_display_name = u_display_name u, ur_role = role_text (u_role u), ur_active = u_active u, ur_version = u_version u,
     ur_created_at = encode_time (u_created_at u), ur_updated_at = encode_time (u_updated_at u)\<rparr>"

definition scan_user :: "(string \<Rightarrow> time + string) \<Rightarrow> user_row \<Rightarrow> user res" where
  "scan_user general r =
     and_then (parse_stored general (ur_created_at r)) (\<lambda>created.
     and_then (parse_stored general (ur_updated_at r)) (\<lambda>updated.
     Inr \<lparr>u_id = ur_id r, u_email = ur_email r, u_password_hash = ur_password_hash r, u_display_name = ur_display_name r,
          u_role = role_of_text (ur_role r), u_active = ur_active r, u_version = ur_version r,
          u_created_at = created, u_updated_at = updated\<rparr>))"

record cluster_row =
  cr_id :: string
  cr_site_id :: string
  cr_code :: string
  cr_rated_kw :: i64
  cr_capacity_kwh :: i64
  cr_min_soc :: i64
  cr_max_soc :: i64
  cr_soc :: i64
  cr_status :: string
  cr_sequence :: i64
  cr_telemetry_at :: "string option"
  cr_version :: i64
  cr_created_at :: string
  cr_updated_at :: string

definition cluster_columns :: "cluster \<Rightarrow> cluster_row" where
  "cluster_columns c = \<lparr>cr_id = c_id c, cr_site_id = c_site_id c, cr_code = c_code c, cr_rated_kw = c_rated_kw c,
     cr_capacity_kwh = c_capacity_kwh c, cr_min_soc = c_min_soc c, cr_max_soc = c_max_soc c, cr_soc = c_soc c,
     cr_status = cluster_status_text (c_status c), cr_sequence = c_sequence c,
     cr_telemetry_at = encode_optional_time (c_telemetry_at c), cr_version = c_version c,
     cr_created_at = encode_time (c_created_at c), cr_updated_at = encode_time (c_updated_at c)\<rparr>"

definition scan_cluster :: "(string \<Rightarrow> time + string) \<Rightarrow> cluster_row \<Rightarrow> cluster option" where
  "scan_cluster general r =
     (case status_of_text cluster_status_text cluster_statuses (cr_status r) of
        None \<Rightarrow> None
      | Some status \<Rightarrow> Some \<lparr>c_id = cr_id r, c_site_id = cr_site_id r, c_code = cr_code r, c_rated_kw = cr_rated_kw r,
          c_capacity_kwh = cr_capacity_kwh r, c_min_soc = cr_min_soc r, c_max_soc = cr_max_soc r, c_soc = cr_soc r,
          c_status = status, c_sequence = cr_sequence r,
          c_telemetry_at = optional_or_nil (parse_optional_stored general (cr_telemetry_at r)), c_version = cr_version r,
          c_created_at = time_or_zero (parse_stored general (cr_created_at r)),
          c_updated_at = time_or_zero (parse_stored general (cr_updated_at r))\<rparr>)"

record reservation_row =
  vr_id :: string
  vr_plan_id :: string
  vr_cluster_id :: string
  vr_kw :: i64
  vr_starts_at :: string
  vr_ends_at :: string
  vr_status :: string
  vr_created_at :: string
  vr_updated_at :: string

definition reservation_columns :: "reservation \<Rightarrow> reservation_row" where
  "reservation_columns r = \<lparr>vr_id = r_id r, vr_plan_id = r_plan_id r, vr_cluster_id = r_cluster_id r, vr_kw = r_kw r,
     vr_starts_at = encode_time (w_start (r_window r)), vr_ends_at = encode_time (w_end (r_window r)),
     vr_status = reservation_status_text (r_status r), vr_created_at = encode_time (r_created_at r),
     vr_updated_at = encode_time (r_updated_at r)\<rparr>"

definition scan_reservation :: "(string \<Rightarrow> time + string) \<Rightarrow> reservation_row \<Rightarrow> reservation option" where
  "scan_reservation general r =
     (case status_of_text reservation_status_text [ReservationHeld, ReservationConsumed, ReservationReleased] (vr_status r) of
        None \<Rightarrow> None
      | Some status \<Rightarrow> Some \<lparr>r_id = vr_id r, r_plan_id = vr_plan_id r, r_cluster_id = vr_cluster_id r, r_kw = vr_kw r,
          r_window = \<lparr>w_start = time_or_zero (parse_stored general (vr_starts_at r)),
                      w_end = time_or_zero (parse_stored general (vr_ends_at r))\<rparr>,
          r_status = status, r_created_at = time_or_zero (parse_stored general (vr_created_at r)),
          r_updated_at = time_or_zero (parse_stored general (vr_updated_at r))\<rparr>)"

record alarm_row =
  ar_id :: string
  ar_site_id :: string
  ar_cluster_id :: string
  ar_type :: string
  ar_severity :: string
  ar_status :: string
  ar_fingerprint :: string
  ar_message :: string
  ar_opened_at :: string
  ar_acknowledged_by :: "string option"
  ar_acknowledged_at :: "string option"
  ar_resolved_by :: "string option"
  ar_resolved_at :: "string option"
  ar_version :: i64
  ar_updated_at :: string

definition alarm_columns :: "alarm \<Rightarrow> alarm_row" where
  "alarm_columns a = \<lparr>ar_id = a_id a, ar_site_id = a_site_id a, ar_cluster_id = a_cluster_id a, ar_type = a_type a,
     ar_severity = severity_text (a_severity a), ar_status = alarm_status_text (a_status a), ar_fingerprint = a_fingerprint a,
     ar_message = a_message a, ar_opened_at = encode_time (a_opened_at a),
     ar_acknowledged_by = nullable_column (a_acknowledged_by a), ar_acknowledged_at = encode_optional_time (a_acknowledged_at a),
     ar_resolved_by = nullable_column (a_resolved_by a), ar_resolved_at = encode_optional_time (a_resolved_at a),
     ar_version = a_version a, ar_updated_at = encode_time (a_updated_at a)\<rparr>"

definition scan_alarm :: "(string \<Rightarrow> time + string) \<Rightarrow> alarm_row \<Rightarrow> alarm option" where
  "scan_alarm general r =
     (case status_of_text alarm_status_text [AlarmOpen, AlarmAcknowledged, AlarmResolved] (ar_status r) of
        None \<Rightarrow> None
      | Some status \<Rightarrow> Some \<lparr>a_id = ar_id r, a_site_id = ar_site_id r, a_cluster_id = ar_cluster_id r, a_type = ar_type r,
          a_severity = severity_of_text (ar_severity r), a_status = status, a_fingerprint = ar_fingerprint r,
          a_message = ar_message r, a_opened_at = time_or_zero (parse_stored general (ar_opened_at r)),
          a_acknowledged_by = null_string (ar_acknowledged_by r),
          a_acknowledged_at = optional_or_nil (parse_optional_stored general (ar_acknowledged_at r)),
          a_resolved_by = null_string (ar_resolved_by r),
          a_resolved_at = optional_or_nil (parse_optional_stored general (ar_resolved_at r)), a_version = ar_version r,
          a_updated_at = time_or_zero (parse_stored general (ar_updated_at r))\<rparr>)"

record period_row =
  dr_id :: string
  dr_site_id :: string
  dr_starts_at :: string
  dr_ends_at :: string
  dr_status :: string
  dr_closed_by :: "string option"
  dr_closed_at :: "string option"
  dr_version :: i64
  dr_created_at :: string
  dr_updated_at :: string

definition period_columns :: "period \<Rightarrow> period_row" where
  "period_columns p = \<lparr>dr_id = pd_id p, dr_site_id = pd_site_id p, dr_starts_at = encode_time (w_start (pd_window p)),
     dr_ends_at = encode_time (w_end (pd_window p)), dr_status = period_status_text (pd_status p),
     dr_closed_by = nullable_column (pd_closed_by p), dr_closed_at = encode_optional_time (pd_closed_at p),
     dr_version = pd_version p, dr_created_at = encode_time (pd_created_at p), dr_updated_at = encode_time (pd_updated_at p)\<rparr>"

definition scan_period :: "(string \<Rightarrow> time + string) \<Rightarrow> period_row \<Rightarrow> period option" where
  "scan_period general r =
     (case status_of_text period_status_text [PeriodOpen, PeriodCalculating, PeriodClosed] (dr_status r) of
        None \<Rightarrow> None
      | Some status \<Rightarrow> Some \<lparr>pd_id = dr_id r, pd_site_id = dr_site_id r,
          pd_window = \<lparr>w_start = time_or_zero (parse_stored general (dr_starts_at r)),
                       w_end = time_or_zero (parse_stored general (dr_ends_at r))\<rparr>,
          pd_status = status, pd_closed_by = null_string (dr_closed_by r),
          pd_closed_at = optional_or_nil (parse_optional_stored general (dr_closed_at r)), pd_version = dr_version r,
          pd_created_at = time_or_zero (parse_stored general (dr_created_at r)),
          pd_updated_at = time_or_zero (parse_stored general (dr_updated_at r))\<rparr>)"

record event_row =
  er_id :: string
  er_actor_id :: "string option"
  er_request_id :: string
  er_object_type :: string
  er_object_id :: string
  er_action :: string
  er_result :: string
  er_details :: string
  er_occurred_at :: string

definition event_columns :: "event \<Rightarrow> event_row" where
  "event_columns e = \<lparr>er_id = ev_id e, er_actor_id = nullable_column (ev_actor_id e), er_request_id = ev_request_id e,
     er_object_type = ev_object_type e, er_object_id = ev_object_id e, er_action = ev_action e, er_result = ev_result e,
     er_details = ev_details e, er_occurred_at = encode_time (ev_occurred_at e)\<rparr>"

definition scan_event :: "(string \<Rightarrow> time + string) \<Rightarrow> event_row \<Rightarrow> event" where
  "scan_event general r = \<lparr>ev_id = er_id r, ev_actor_id = null_string (er_actor_id r), ev_request_id = er_request_id r,
     ev_object_type = er_object_type r, ev_object_id = er_object_id r, ev_action = er_action r, ev_result = er_result r,
     ev_details = er_details r, ev_occurred_at = time_or_zero (parse_stored general (er_occurred_at r))\<rparr>"

section \<open>What is written is read back\<close>

definition user_times :: "user \<Rightarrow> time set" where
  "user_times u = {u_created_at u, u_updated_at u}"

definition cluster_times :: "cluster \<Rightarrow> time set" where
  "cluster_times c = {c_created_at c, c_updated_at c} \<union> set_option (c_telemetry_at c)"

definition reservation_times :: "reservation \<Rightarrow> time set" where
  "reservation_times r = {w_start (r_window r), w_end (r_window r), r_created_at r, r_updated_at r}"

definition alarm_times :: "alarm \<Rightarrow> time set" where
  "alarm_times a = {a_opened_at a, a_updated_at a} \<union> set_option (a_acknowledged_at a) \<union> set_option (a_resolved_at a)"

definition period_times :: "period \<Rightarrow> time set" where
  "period_times p = {w_start (pd_window p), w_end (pd_window p), pd_created_at p, pd_updated_at p} \<union> set_option (pd_closed_at p)"

lemma severity_read: "(\<And>s. v \<noteq> SeverityOther s) \<Longrightarrow> severity_of_text (severity_text v) = v"
  by (cases v) (simp_all add: severity_of_text_def)

lemma status_reads:
  "status_of_text cluster_status_text cluster_statuses (cluster_status_text c) = Some c"
  "status_of_text reservation_status_text [ReservationHeld, ReservationConsumed, ReservationReleased] (reservation_status_text r) = Some r"
  "status_of_text alarm_status_text [AlarmOpen, AlarmAcknowledged, AlarmResolved] (alarm_status_text a) = Some a"
  "status_of_text period_status_text [PeriodOpen, PeriodCalculating, PeriodClosed] (period_status_text p) = Some p"
  by (cases c, simp_all add: status_of_text_def cluster_statuses_def) (cases r, simp_all, cases a, simp_all, cases p, simp_all)

lemma user_read_back:
  "writable (user_times u) \<Longrightarrow> role_valid (u_role u) \<Longrightarrow> scan_user general (user_columns u) = Inr u"
  by (simp add: scan_user_def user_columns_def user_times_def read_back role_of_text_text)

lemma cluster_read_back: "writable (cluster_times c) \<Longrightarrow> scan_cluster general (cluster_columns c) = Some c"
  by (auto simp: scan_cluster_def cluster_columns_def cluster_times_def status_reads read_back intro!: cluster.equality)

lemma reservation_read_back: "writable (reservation_times r) \<Longrightarrow> scan_reservation general (reservation_columns r) = Some r"
  by (auto simp: scan_reservation_def reservation_columns_def reservation_times_def status_reads read_back
      intro!: reservation.equality window.equality)

text \<open>A blank name is read as none.\<close>

lemma alarm_read_back:
  "writable (alarm_times a) \<Longrightarrow> (\<And>s. a_severity a \<noteq> SeverityOther s) \<Longrightarrow> scan_alarm general (alarm_columns a)
    = Some (a\<lparr>a_acknowledged_by := nullable_string (a_acknowledged_by a), a_resolved_by := nullable_string (a_resolved_by a)\<rparr>)"
  by (auto simp: scan_alarm_def alarm_columns_def alarm_times_def status_reads read_back severity_read intro!: alarm.equality)

lemma period_read_back:
  "writable (period_times p) \<Longrightarrow> scan_period general (period_columns p) = Some (p\<lparr>pd_closed_by := nullable_string (pd_closed_by p)\<rparr>)"
  by (auto simp: scan_period_def period_columns_def period_times_def status_reads read_back
      intro!: period.equality window.equality)

lemma event_read_back:
  "time_in_range (ev_occurred_at e) \<Longrightarrow> scan_event general (event_columns e) = e\<lparr>ev_actor_id := nullable_string (ev_actor_id e)\<rparr>"
  by (auto simp: scan_event_def event_columns_def read_back intro!: event.equality)

end
