(* ===== verification/Drain.thy ===== *)
theory Drain
  imports Worker
begin

text \<open>
  What the loop of the executor achieves: with a lease within policy and a gateway that executes
  every command, the cycles of \<open>Executor.Run\<close> drain the queue, a batch of the due jobs each.
\<close>

section \<open>One claim takes the first due jobs\<close>

definition countable_attempts :: "job \<Rightarrow> bool" where
  "countable_attempts j \<longleftrightarrow> 0 \<le> j_attempts j \<and> j_attempts j < 9223372036854775807 \<and> 0 < j_max_attempts j"

lemma claims_ready:
  assumes "keys_ok db" "claim_jobs tx (\<lambda>_. False) db owner limit now d = Inr (db', claimed)"
    and "second \<le> d" "d \<le> 10 * minute" "\<not> blank owner" "\<forall>j \<in> set (jobs db). job_due now j \<longrightarrow> countable_attempts j"
  shows "map j_id claimed = map j_id (filter (\<lambda>j. job_claimable j now) (claim_candidates db limit now))"
proof -
  let ?c = "claim_of (\<lambda>_. False) owner now d"
  have ready: "\<exists>k. ?c j = Some k \<and> j_id k = j_id j" if j: "countable_attempts j" "job_claimable j now" for j
  proof -
    let ?k = "j\<lparr>j_status := JobLeased, j_lease_owner := trim_space owner, j_lease_until := Some (now + d),
      j_attempts := incr64 (j_attempts j), j_version := incr64 (j_version j), j_updated_at := now\<rparr>"
    have "job_lease j owner now d = Inr ?k" using assms(3-5) j(2) by (simp add: job_lease_Inr)
    moreover have "job_row_violation ?k = None"
      using j(1) by (auto simp: countable_attempts_def job_row_violation_def incr64_def wrap64_def)
    ultimately have "?c j = Some ?k" by (simp add: claim_of_Some)
    then show ?thesis by auto
  qed
  have none: "?c j = None" if "\<not> job_claimable j now" for j
    using that claim_of_Some [of "\<lambda>_. False" owner now d j] by (cases "?c j") (auto simp: job_lease_Inr)
  have "map j_id (List.map_filter ?c js) = map j_id (filter (\<lambda>j. job_claimable j now) js)"
    if "\<forall>j \<in> set js. countable_attempts j" for js
    using that
  proof (induction js)
    case (Cons j js)
    then show ?case using ready [of j] none [of j] by (cases "job_claimable j now") (auto simp: List.map_filter_simps)
  qed (simp add: List.map_filter_simps)
  moreover have "\<forall>j \<in> set (claim_candidates db limit now). countable_attempts j"
    using claim_candidates_sub(1) [OF assms(1), of limit now] assms(6) by auto
  ultimately show ?thesis using claim_jobs_Inr(1) [OF assms(1,2)] by simp
qed

section \<open>One cycle succeeds them\<close>

definition open_jobs :: "database \<Rightarrow> string set" where
  "open_jobs db = j_id ` {j \<in> set (jobs db). j_status j \<noteq> JobSucceeded}"

definition ready_job :: "time \<Rightarrow> job \<Rightarrow> bool" where
  "ready_job now j \<longleftrightarrow> job_due now j \<and> job_claimable j now \<and> countable_attempts j"

text \<open>
  A cycle in which the database answers and every report is in time: the gateway returns before the
  lease ends, as one that keeps to its deadline of half the lease does, with whatever answer.
\<close>

definition timely_cycle :: "duration \<Rightarrow> cycle \<Rightarrow> bool" where
  "timely_cycle lease c \<longleftrightarrow> en_tx (cy_env c) = TxCommits \<and> en_driver (cy_env c) ''sqlite.CompleteJob'' = None
     \<and> cy_refused c = (\<lambda>_. False) \<and> (\<forall>js. mset (cy_schedule c js) = mset js)
     \<and> (\<forall>j. 0 \<le> cy_delay c j \<and> cy_delay c j \<le> lease \<and> cy_delay c j \<le> cy_took c) \<and> 0 \<le> cy_late c \<and> cy_meanwhile c = (\<lambda>db. db)"

text \<open>The cycle of a worker that nothing disturbs: the gateway executes as well.\<close>

definition calm_cycle :: "duration \<Rightarrow> cycle \<Rightarrow> bool" where
  "calm_cycle lease c \<longleftrightarrow> timely_cycle lease c \<and> cy_gateway c = local_gateway None"

lemmas cycle_defs = calm_cycle_def timely_cycle_def

definition within_policy :: "executor \<Rightarrow> bool" where
  "within_policy ex \<longleftrightarrow> second \<le> ex_lease ex \<and> ex_lease ex \<le> 10 * minute \<and> \<not> blank (ex_owner ex)
     \<and> trim_space (ex_owner ex) = ex_owner ex \<and> 1 \<le> ex_batch ex"

lemma execute_ids: "keys_ok db \<Longrightarrow> map j_id (jobs (execute en ex outcome now j db)) = map j_id (jobs db)"
  by (rule execute_cases [of en ex outcome now j db])
    (auto simp: complete_job_Inr update_where_def assign_job_def)

lemma execute_fold_ids: "keys_ok db \<Longrightarrow>
    map j_id (jobs (fold (\<lambda>j. execute en ex (gateway j) (clock j) j) js db)) = map j_id (jobs db)"
  by (induction js arbitrary: db) (simp_all add: execute_ids execute_keys)

lemma due_open: "job_due now j \<Longrightarrow> j_status j \<noteq> JobSucceeded"
  by (auto simp: job_due_def)

lemma open_due:
  assumes "\<forall>j \<in> set (jobs db). j_status j = JobSucceeded \<or> ready_job now j"
  shows "filter (job_due now) (jobs db) = filter (\<lambda>j. j_status j \<noteq> JobSucceeded) (jobs db)"
  using assms by (intro filter_cong) (auto simp: ready_job_def job_due_def)

lemma cycle_claims:
  assumes ok: "keys_ok db" and ex: "within_policy ex" and calm: "calm_cycle (ex_lease ex) c"
    and good: "\<forall>j \<in> set (jobs db). j_status j = JobSucceeded \<or> ready_job (start) j"
  shows "\<exists>db1 claimed. claim_jobs (en_tx (cy_env c)) (cy_refused c) db (ex_owner ex) (ex_batch ex) start (ex_lease ex)
      = Inr (db1, claimed) \<and> distinct (map j_id claimed) \<and> j_id ` set claimed \<subseteq> open_jobs db
      \<and> length claimed = min (nat (ex_batch ex)) (card (open_jobs db))"
proof -
  let ?now = "start"
  let ?cand = "claim_candidates db (ex_batch ex) ?now"
  obtain db1 claimed where run: "claim_jobs (en_tx (cy_env c)) (cy_refused c) db (ex_owner ex) (ex_batch ex) ?now (ex_lease ex)
      = Inr (db1, claimed)"
    using calm by (simp add: cycle_defs claim_jobs_def) (metis surj_pair)
  have sub: "set ?cand \<subseteq> {j \<in> set (jobs db). job_due ?now j}" "distinct (map j_id ?cand)"
    using claim_candidates_sub [OF ok] by auto
  then have ready: "ready_job ?now j" if "j \<in> set ?cand" for j
    using good that due_open by blast
  have due: "\<forall>j \<in> set (jobs db). job_due ?now j \<longrightarrow> countable_attempts j"
    using good due_open by (auto simp: ready_job_def)
  have "map j_id claimed = map j_id (filter (\<lambda>j. job_claimable j ?now) ?cand)"
    using claims_ready [OF ok _ _ _ _ due] run ex calm by (simp add: cycle_defs within_policy_def)
  also have "filter (\<lambda>j. job_claimable j ?now) ?cand = ?cand" using ready by (simp add: ready_job_def)
  finally have ids: "map j_id claimed = map j_id ?cand" .
  have "distinct (map j_id (filter (\<lambda>j. j_status j \<noteq> JobSucceeded) (jobs db)))"
    using ok by (simp add: keys_ok_def distinct_map_filter)
  then have "card (open_jobs db) = length (filter (\<lambda>j. j_status j \<noteq> JobSucceeded) (jobs db))"
    using distinct_card unfolding open_jobs_def by fastforce
  then have "length ?cand = min (nat (ex_batch ex)) (card (open_jobs db))"
    using ex open_due [OF good] by (simp add: claim_candidates_def sql_limit_def within_policy_def min.commute)
  then have "length claimed = min (nat (ex_batch ex)) (card (open_jobs db))" using ids by (metis length_map)
  moreover have "j_id ` set claimed = j_id ` set ?cand" using ids by (metis list.set_map)
  moreover have "j_id ` set ?cand \<subseteq> open_jobs db" using sub(1) due_open by (auto simp: open_jobs_def)
  moreover have "distinct (map j_id claimed)" unfolding ids by (rule sub(2))
  ultimately show ?thesis using run by blast
qed

lemma find_key_map_ids: "(\<And>x. key (f x) = key x) \<Longrightarrow> find_key key k (map f xs) = map_option f (find_key key k xs)"
  by (induction xs) auto

text \<open>A claim leaves the rows it does not claim as they are.\<close>

lemma claim_other:
  assumes "keys_ok db" "claim_jobs tx refused db owner limit now d = Inr (db1, claimed)" "i \<notin> j_id ` set claimed"
  shows "find_key j_id i (jobs db1) = find_key j_id i (jobs db)"
proof -
  note c = claim_jobs_Inr [OF assms(1,2)]
  let ?f = "after_claim (claim_of refused owner now d) (set (claim_candidates db limit now))"
  have "find_key j_id i (jobs db1) = map_option ?f (find_key j_id i (jobs db))"
    by (simp add: c(2) find_key_map_ids after_claim_id)
  moreover have "?f x = x" if x: "find_key j_id i (jobs db) = Some x" for x
  proof (rule ccontr)
    assume "?f x \<noteq> x"
    then obtain k where k: "x \<in> set (claim_candidates db limit now)" "claim_of refused owner now d x = Some k"
      by (auto simp: after_claim_def split: if_splits option.splits)
    then have "k \<in> set claimed" unfolding c(1) by (force simp: List.map_filter_def)
    moreover have "j_id k = i" using k(2) find_key_SomeD [OF x] by (auto simp: claim_of_Some dest: job_lease_frame)
    ultimately show False using assms(3) by blast
  qed
  ultimately show ?thesis by (cases "find_key j_id i (jobs db)") auto
qed

text \<open>
  What a timely cycle does to the rows: a claimed job is leased and reported, every other row stays.
\<close>

definition claimed_in :: "executor \<Rightarrow> time \<Rightarrow> cycle \<Rightarrow> database \<Rightarrow> job list" where
  "claimed_in ex start c db = (case claim_jobs (en_tx (cy_env c)) (cy_refused c) db (ex_owner ex) (ex_batch ex) start (ex_lease ex) of
     Inl e \<Rightarrow> [] | Inr (db1, claimed) \<Rightarrow> claimed)"

lemma timely_claim:
  assumes "timely_cycle (ex_lease ex) c"
  obtains db1 where "claim_jobs (en_tx (cy_env c)) (cy_refused c) db (ex_owner ex) (ex_batch ex) start (ex_lease ex)
    = Inr (db1, claimed_in ex start c db)"
proof -
  obtain r where "claim_jobs (en_tx (cy_env c)) (cy_refused c) db (ex_owner ex) (ex_batch ex) start (ex_lease ex) = Inr r"
    using assms by (simp add: timely_cycle_def claim_jobs_def)
  with that show thesis by (cases r) (simp add: claimed_in_def)
qed

lemma cycle_frame:
  assumes ok: "keys_ok db" and timely: "timely_cycle (ex_lease ex) c"
  shows "keys_ok (executor_cycle ex start c db)" "map j_id (jobs (executor_cycle ex start c db)) = map j_id (jobs db)"
    "i \<notin> j_id ` set (claimed_in ex start c db) \<Longrightarrow> find_key j_id i (jobs (executor_cycle ex start c db)) = find_key j_id i (jobs db)"
proof -
  obtain db1 where claim: "claim_jobs (en_tx (cy_env c)) (cy_refused c) db (ex_owner ex) (ex_batch ex) start (ex_lease ex)
    = Inr (db1, claimed_in ex start c db)" by (rule timely_claim [OF timely])
  have k1: "keys_ok db1" using claim_jobs_Inr(3) [OF ok claim] .
  have db': "executor_cycle ex start c db
      = fold (\<lambda>j. execute (cycle_env start c) ex (cy_gateway c j) (start + cy_delay c j) j) (cy_schedule c (claimed_in ex start c db)) db1"
    using claim timely by (simp add: executor_cycle_def process_once_def map_error_def timely_cycle_def)
  show "keys_ok (executor_cycle ex start c db)"
    using process_once_keys [OF ok surjective_pairing] timely by (simp add: executor_cycle_def timely_cycle_def)
  show "map j_id (jobs (executor_cycle ex start c db)) = map j_id (jobs db)"
    unfolding db' using execute_fold_ids [OF k1] claim_jobs_Inr(2) [OF ok claim] by (simp add: comp_def after_claim_id)
  have perm: "set (cy_schedule c (claimed_in ex start c db)) = set (claimed_in ex start c db)"
    using timely unfolding timely_cycle_def by (metis set_mset_mset)
  assume "i \<notin> j_id ` set (claimed_in ex start c db)"
  then show "find_key j_id i (jobs (executor_cycle ex start c db)) = find_key j_id i (jobs db)"
    unfolding db' using execute_fold_other [OF k1, of i] claim_other [OF ok claim] perm by simp
qed

lemma claimed_reported:
  assumes ok: "keys_ok db" and ex: "within_policy ex" and timely: "timely_cycle (ex_lease ex) c"
    and j: "j \<in> set (claimed_in ex start c db)"
  shows "\<exists>old k. old \<in> set (jobs db) \<and> job_due (start) old
    \<and> job_lease old (ex_owner ex) start (ex_lease ex) = Inr j
    \<and> job_report ex j (cy_gateway c j) (start + cy_delay c j) = Inr k
    \<and> find_key j_id (j_id j) (jobs (executor_cycle ex start c db)) = Some (assign_job k j)"
proof -
  obtain db1 where claim: "claim_jobs (en_tx (cy_env c)) (cy_refused c) db (ex_owner ex) (ex_batch ex) start (ex_lease ex)
    = Inr (db1, claimed_in ex start c db)" by (rule timely_claim [OF timely])
  from claimed_row(2) [OF ok claim j] obtain old where old: "old \<in> set (jobs db)" "job_due (start) old"
    "job_lease old (ex_owner ex) start (ex_lease ex) = Inr j" by blast
  then have "verify_lease j (ex_owner ex) (start + cy_delay c j) = Inr ()"
    using ex timely by (simp add: job_lease_Inr verify_lease_Inr within_policy_def timely_cycle_def)
  then obtain k where k: "job_report ex j (cy_gateway c j) (start + cy_delay c j) = Inr k"
    by (cases "cy_gateway c j") (auto simp: job_report_def job_succeed_def job_fail_def Let_def)
  have m: "mset (cy_schedule c (claimed_in ex start c db)) = mset (claimed_in ex start c db)"
    and q: "en_driver (cycle_env start c) ''sqlite.CompleteJob'' = None"
    using timely by (simp_all add: timely_cycle_def)
  have claim': "claim_jobs (en_tx (cycle_env start c)) (cy_refused c) db (ex_owner ex) (ex_batch ex) (en_now (cycle_env start c) 0)
    (ex_lease ex) = Inr (db1, claimed_in ex start c db)" using claim by simp
  from process_once_row [where gateway = "cy_gateway c" and clock = "\<lambda>j. start + cy_delay c j" and schedule = "cy_schedule c",
      OF ok claim' surjective_pairing m j k q]
  have "find_key j_id (j_id j) (jobs (executor_cycle ex start c db)) = Some (assign_job k j)"
    using timely by (simp add: executor_cycle_def timely_cycle_def)
  with old k show ?thesis by blast
qed

text \<open>A row after a timely cycle is the row before it, or that of a claimed job.\<close>

lemma cycle_rows:
  assumes "keys_ok db" "timely_cycle (ex_lease ex) c" "x \<in> set (jobs (executor_cycle ex start c db))"
  shows "find_key j_id (j_id x) (jobs (executor_cycle ex start c db)) = Some x"
    "x \<in> set (jobs db) \<or> j_id x \<in> j_id ` set (claimed_in ex start c db)"
proof -
  note f = cycle_frame [OF assms(1,2)]
  show x: "find_key j_id (j_id x) (jobs (executor_cycle ex start c db)) = Some x"
    using f(1) assms(3) by (intro find_key_in_set) (simp_all add: keys_ok_def)
  show "x \<in> set (jobs db) \<or> j_id x \<in> j_id ` set (claimed_in ex start c db)"
    using f(3) [of "j_id x"] x by (metis find_key_SomeD)
qed

text \<open>A job that was claimed in a calm cycle has succeeded after it.\<close>

lemma claimed_succeeds:
  assumes "keys_ok db" "within_policy ex" "calm_cycle (ex_lease ex) c" "j \<in> set (claimed_in ex start c db)"
  shows "\<exists>row. find_key j_id (j_id j) (jobs (executor_cycle ex start c db)) = Some row \<and> j_status row = JobSucceeded"
proof -
  from claimed_reported [OF assms(1,2) _ assms(4)] assms(3)
  obtain k where k: "job_report ex j (cy_gateway c j) (start + cy_delay c j) = Inr k"
    "find_key j_id (j_id j) (jobs (executor_cycle ex start c db)) = Some (assign_job k j)" by (auto simp: calm_cycle_def)
  moreover have "j_status k = JobSucceeded"
    using job_report_status [OF k(1)] assms(3) by (simp add: calm_cycle_def local_gateway_def)
  ultimately show ?thesis by (simp add: assign_job_def)
qed

lemma cycle_drains:
  assumes ok: "keys_ok db" and ex: "within_policy ex" and calm: "calm_cycle (ex_lease ex) c"
    and good: "\<forall>j \<in> set (jobs db). j_status j = JobSucceeded \<or> ready_job (start) j"
  defines "db' \<equiv> executor_cycle ex start c db"
  shows "keys_ok db' \<and> map j_id (jobs db') = map j_id (jobs db)
    \<and> (\<forall>j \<in> set (jobs db'). j_status j = JobSucceeded \<or> j \<in> set (jobs db))
    \<and> card (open_jobs db') = card (open_jobs db) - nat (ex_batch ex)"
proof -
  have timely: "timely_cycle (ex_lease ex) c" using calm by (simp add: calm_cycle_def)
  define claimed where "claimed = claimed_in ex start c db"
  from cycle_claims [OF ok ex calm good] have cl: "distinct (map j_id claimed)" "j_id ` set claimed \<subseteq> open_jobs db"
      "length claimed = min (nat (ex_batch ex)) (card (open_jobs db))" by (auto simp: claimed_def claimed_in_def)
  note frame = cycle_frame [where start = start, OF ok timely, folded db'_def claimed_def]
  note rows = cycle_rows [where start = start, OF ok timely, folded db'_def claimed_def]
  have done_rows: "j_status x = JobSucceeded" if x: "x \<in> set (jobs db')" "j_id x \<in> j_id ` set claimed" for x
  proof -
    from x(2) obtain j where j: "j \<in> set claimed" "j_id j = j_id x" by force
    then show ?thesis using claimed_succeeds [where start = start, OF ok ex calm, of j] rows(1) [OF x(1)] by (simp add: db'_def claimed_def)
  qed
  have "open_jobs db' = open_jobs db - j_id ` set claimed"
  proof
    show "open_jobs db' \<subseteq> open_jobs db - j_id ` set claimed" using done_rows rows(2) by (force simp: open_jobs_def)
    show "open_jobs db - j_id ` set claimed \<subseteq> open_jobs db'"
    proof
      fix i assume i: "i \<in> open_jobs db - j_id ` set claimed"
      then obtain x where x: "x \<in> set (jobs db)" "j_status x \<noteq> JobSucceeded" "j_id x = i" by (auto simp: open_jobs_def)
      have "find_key j_id i (jobs db) = Some x" using find_key_in_set [of j_id "jobs db" x] ok x by (simp add: keys_ok_def)
      then have "x \<in> set (jobs db')" using frame(3) [of i] i by (auto dest: find_key_SomeD)
      then show "i \<in> open_jobs db'" using x by (auto simp: open_jobs_def)
    qed
  qed
  moreover have "card (j_id ` set claimed) = length claimed" using distinct_card [OF cl(1)] by simp
  ultimately have "card (open_jobs db') = card (open_jobs db) - length claimed"
    using card_Diff_subset [OF _ cl(2)] by simp
  then have "card (open_jobs db') = card (open_jobs db) - nat (ex_batch ex)" using cl(3) by linarith
  then show ?thesis using frame(1,2) done_rows rows(2) by blast
qed

section \<open>The loop\<close>

text \<open>Enough cycles for the open jobs, a batch each, and every job has succeeded.\<close>

lemma cycles_drain:
  assumes "keys_ok db" "within_policy ex" "\<forall>(start, c) \<in> set tcs. calm_cycle (ex_lease ex) c"
    and "\<forall>(start, c) \<in> set tcs. \<forall>j \<in> set (jobs db). j_status j = JobSucceeded \<or> ready_job start j"
  defines "db' \<equiv> fold (\<lambda>(start, c). executor_cycle ex start c) tcs db"
  shows "map j_id (jobs db') = map j_id (jobs db)
    \<and> card (open_jobs db') = card (open_jobs db) - nat (ex_batch ex) * length tcs"
  using assms(1,3,4) unfolding db'_def
proof (induction tcs arbitrary: db)
  case (Cons tc tcs)
  obtain start c where tc: "tc = (start, c)" by (cases tc)
  let ?d = "executor_cycle ex start c db"
  have d: "keys_ok ?d" "map j_id (jobs ?d) = map j_id (jobs db)"
    "\<forall>j \<in> set (jobs ?d). j_status j = JobSucceeded \<or> j \<in> set (jobs db)"
    "card (open_jobs ?d) = card (open_jobs db) - nat (ex_batch ex)"
    using cycle_drains [OF Cons.prems(1) assms(2), of c start] Cons.prems(2,3) by (simp_all add: tc)
  have "\<forall>(start, c) \<in> set tcs. \<forall>j \<in> set (jobs ?d). j_status j = JobSucceeded \<or> ready_job start j"
    using Cons.prems(3) d(3) by (fastforce simp: tc)
  from Cons.IH [OF d(1) _ this] Cons.prems(2) show ?case using d(2,4) by (simp add: tc)
qed simp

lemma executor_run_drains:
  assumes "keys_ok db" "within_policy ex" "\<not> ex_running ex" "\<forall>c \<in> set (first # ticks). calm_cycle (ex_lease ex) c"
    and "\<forall>start \<in> set (cycle_starts ex created created (first # ticks)).
      \<forall>j \<in> set (jobs db). j_status j = JobSucceeded \<or> ready_job start j"
    and "executor_run ex created first ticks ended db = (ex', db', e)"
    and "card (open_jobs db) \<le> nat (ex_batch ex) * Suc (length ticks)"
  shows "map j_id (jobs db') = map j_id (jobs db) \<and> (\<forall>j \<in> set (jobs db'). j_status j = JobSucceeded)"
proof -
  let ?ex = "ex\<lparr>ex_running := True\<rparr>" and ?tcs = "timed_cycles ex created (first # ticks)"
  have len: "length (cycle_starts ex created start cs) = length cs" for start cs
    by (induction cs arbitrary: start) simp_all
  have db': "db' = fold (\<lambda>(start, c). executor_cycle ?ex start c) ?tcs db"
    using assms(3,6) by (simp add: executor_run_def run_begin_def timed_cycles_def del: cycle_starts.simps)
  have "within_policy ?ex" using assms(2) by (simp add: within_policy_def)
  moreover have "\<forall>(start, c) \<in> set ?tcs. calm_cycle (ex_lease ?ex) c" using assms(4) timed_cycles_mem by fastforce
  moreover have "\<forall>(start, c) \<in> set ?tcs. \<forall>j \<in> set (jobs db). j_status j = JobSucceeded \<or> ready_job start j"
    using assms(5) unfolding timed_cycles_def by (blast dest: set_zip_leftD)
  moreover have "length ?tcs = Suc (length ticks)" by (simp add: timed_cycles_def len del: cycle_starts.simps)
  ultimately have "map j_id (jobs db') = map j_id (jobs db) \<and> card (open_jobs db') = 0"
    using cycles_drain [OF assms(1), of ?ex ?tcs] assms(7) unfolding db' by simp
  moreover have "finite (open_jobs db')" by (simp add: open_jobs_def)
  ultimately show ?thesis by (auto simp: open_jobs_def)
qed

end
