(* ===== verification/Integrity.thy ===== *)
theory Integrity
  imports System
begin

text \<open>
  The integrity of the rows: in every state of every run each row satisfies the \<open>CHECK\<close> constraints of
  \<open>migrations/001_initial.sql\<close>, and each row it references exists.  Another interpretation of
  \<open>statement_laws\<close>.
\<close>

section \<open>Constraints and references\<close>

text \<open>
  What the schema asks of one row, given the identities of the users \<open>U\<close>, sites \<open>S\<close>, clusters \<open>C\<close>, plans \<open>P\<close>
  and periods \<open>D\<close>.  A blank reference to a user is stored as \<open>NULL\<close>.
\<close>

definition names_user :: "string set \<Rightarrow> string \<Rightarrow> bool" where
  "names_user U uid \<longleftrightarrow> blank uid \<or> uid \<in> U"

definition cluster_row_ok :: "string set \<Rightarrow> cluster \<Rightarrow> bool" where
  "cluster_row_ok S c \<longleftrightarrow> cluster_check c \<and> c_site_id c \<in> S"

definition plan_row_ok :: "string set \<Rightarrow> string set \<Rightarrow> plan \<Rightarrow> bool" where
  "plan_row_ok S U p \<longleftrightarrow> plan_check p \<and> p_site_id p \<in> S \<and> p_created_by p \<in> U \<and> names_user U (p_approved_by p)"

definition reservation_row_ok :: "string set \<Rightarrow> string set \<Rightarrow> reservation \<Rightarrow> bool" where
  "reservation_row_ok P C r \<longleftrightarrow> 0 < r_kw r \<and> r_plan_id r \<in> P \<and> r_cluster_id r \<in> C"

definition job_row_ok :: "string set \<Rightarrow> string set \<Rightarrow> job \<Rightarrow> bool" where
  "job_row_ok P C j \<longleftrightarrow> 0 \<le> j_attempts j \<and> 0 < j_max_attempts j \<and> j_plan_id j \<in> P \<and> j_cluster_id j \<in> C"

definition snapshot_row_ok :: "string set \<Rightarrow> snapshot \<Rightarrow> bool" where
  "snapshot_row_ok C t \<longleftrightarrow> 0 \<le> t_soc t \<and> t_soc t \<le> 100 \<and> t_cluster_id t \<in> C"

definition alarm_row_ok :: "string set \<Rightarrow> string set \<Rightarrow> string set \<Rightarrow> alarm \<Rightarrow> bool" where
  "alarm_row_ok S C U a \<longleftrightarrow> alarm_check a \<and> a_site_id a \<in> S \<and> a_cluster_id a \<in> C
     \<and> names_user U (a_acknowledged_by a) \<and> names_user U (a_resolved_by a)"

definition period_row_ok :: "string set \<Rightarrow> string set \<Rightarrow> period \<Rightarrow> bool" where
  "period_row_ok S U p \<longleftrightarrow> period_check p \<and> pd_site_id p \<in> S \<and> names_user U (pd_closed_by p)"

definition entry_row_ok :: "string set \<Rightarrow> string set \<Rightarrow> entry \<Rightarrow> bool" where
  "entry_row_ok D P e \<longleftrightarrow> e_period_id e \<in> D \<and> e_plan_id e \<in> P"

definition rows_ok :: "database \<Rightarrow> bool" where
  "rows_ok db \<longleftrightarrow>
     (let U = u_id ` set (users db); S = s_id ` set (sites db); C = c_id ` set (clusters db);
          P = p_id ` set (plans db); D = pd_id ` set (periods db)
      in (\<forall>u \<in> set (users db). role_valid (u_role u))
       \<and> (\<forall>x \<in> set (sessions db). ss_user_id x \<in> U)
       \<and> (\<forall>s \<in> set (sites db). site_check s)
       \<and> (\<forall>c \<in> set (clusters db). cluster_row_ok S c)
       \<and> (\<forall>p \<in> set (plans db). plan_row_ok S U p)
       \<and> (\<forall>r \<in> set (reservations db). reservation_row_ok P C r)
       \<and> (\<forall>j \<in> set (jobs db). job_row_ok P C j)
       \<and> (\<forall>t \<in> set (snapshots db). snapshot_row_ok C t)
       \<and> (\<forall>a \<in> set (alarms db). alarm_row_ok S C U a)
       \<and> (\<forall>p \<in> set (periods db). period_row_ok S U p)
       \<and> (\<forall>e \<in> set (entries db). entry_row_ok D P e)
       \<and> (\<forall>i \<in> set (idempotency_keys db). i_actor_id i \<in> U)
       \<and> (\<forall>e \<in> set (audit_events db). names_user U (ev_actor_id e)))"

lemmas row_defs = cluster_row_ok_def plan_row_ok_def reservation_row_ok_def job_row_ok_def snapshot_row_ok_def
  alarm_row_ok_def period_row_ok_def entry_row_ok_def

text \<open>More rows to name leave the rows of a table in order.\<close>

lemma rows_more:
  "\<forall>x \<in> A. key x \<in> U \<Longrightarrow> U \<subseteq> U' \<Longrightarrow> \<forall>x \<in> A. key x \<in> U'"
  "\<forall>e \<in> A. names_user U (actor e) \<Longrightarrow> U \<subseteq> U' \<Longrightarrow> \<forall>e \<in> A. names_user U' (actor e)"
  "\<forall>c \<in> As. cluster_row_ok S c \<Longrightarrow> S \<subseteq> S' \<Longrightarrow> \<forall>c \<in> As. cluster_row_ok S' c"
  "\<forall>p \<in> Ap. plan_row_ok S U p \<Longrightarrow> S \<subseteq> S' \<Longrightarrow> U \<subseteq> U' \<Longrightarrow> \<forall>p \<in> Ap. plan_row_ok S' U' p"
  "\<forall>r \<in> Ar. reservation_row_ok P C r \<Longrightarrow> P \<subseteq> P' \<Longrightarrow> C \<subseteq> C' \<Longrightarrow> \<forall>r \<in> Ar. reservation_row_ok P' C' r"
  "\<forall>j \<in> Aj. job_row_ok P C j \<Longrightarrow> P \<subseteq> P' \<Longrightarrow> C \<subseteq> C' \<Longrightarrow> \<forall>j \<in> Aj. job_row_ok P' C' j"
  "\<forall>t \<in> At. snapshot_row_ok C t \<Longrightarrow> C \<subseteq> C' \<Longrightarrow> \<forall>t \<in> At. snapshot_row_ok C' t"
  "\<forall>a \<in> Aa. alarm_row_ok S C U a \<Longrightarrow> S \<subseteq> S' \<Longrightarrow> C \<subseteq> C' \<Longrightarrow> U \<subseteq> U' \<Longrightarrow> \<forall>a \<in> Aa. alarm_row_ok S' C' U' a"
  "\<forall>d \<in> Ad. period_row_ok S U d \<Longrightarrow> S \<subseteq> S' \<Longrightarrow> U \<subseteq> U' \<Longrightarrow> \<forall>d \<in> Ad. period_row_ok S' U' d"
  "\<forall>e \<in> Ae. entry_row_ok D P e \<Longrightarrow> D \<subseteq> D' \<Longrightarrow> P \<subseteq> P' \<Longrightarrow> \<forall>e \<in> Ae. entry_row_ok D' P' e"
  by (auto simp: row_defs names_user_def)

lemma exists_iff:
  "user_exists db k \<longleftrightarrow> k \<in> u_id ` set (users db)" "site_exists db k \<longleftrightarrow> k \<in> s_id ` set (sites db)"
  "cluster_exists db k \<longleftrightarrow> k \<in> c_id ` set (clusters db)" "plan_exists db k \<longleftrightarrow> k \<in> p_id ` set (plans db)"
  "list_ex (\<lambda>p. pd_id p = k) (periods db) \<longleftrightarrow> k \<in> pd_id ` set (periods db)"
  "user_ref_ok db k \<longleftrightarrow> names_user (u_id ` set (users db)) k"
  by (auto simp: user_exists_def site_exists_def cluster_exists_def plan_exists_def user_ref_ok_def names_user_def list_ex_iff)

lemma names_nullable [simp]: "names_user U (nullable_string k) \<longleftrightarrow> names_user U k"
  by (simp add: names_user_def nullable_string_def)

lemma image_update_where: "(\<And>r. key (f r) = key r) \<Longrightarrow> key ` set (update_where P f rows) = key ` set rows"
  by (metis list.set_map map_update_where)

section \<open>Writing one table\<close>

lemma rows_okD:
  assumes "rows_ok db"
  shows "\<forall>u \<in> set (users db). role_valid (u_role u)"
    and "\<forall>x \<in> set (sessions db). ss_user_id x \<in> u_id ` set (users db)"
    and "\<forall>s \<in> set (sites db). site_check s"
    and "\<forall>c \<in> set (clusters db). cluster_row_ok (s_id ` set (sites db)) c"
    and "\<forall>p \<in> set (plans db). plan_row_ok (s_id ` set (sites db)) (u_id ` set (users db)) p"
    and "\<forall>r \<in> set (reservations db). reservation_row_ok (p_id ` set (plans db)) (c_id ` set (clusters db)) r"
    and "\<forall>j \<in> set (jobs db). job_row_ok (p_id ` set (plans db)) (c_id ` set (clusters db)) j"
    and "\<forall>t \<in> set (snapshots db). snapshot_row_ok (c_id ` set (clusters db)) t"
    and "\<forall>a \<in> set (alarms db). alarm_row_ok (s_id ` set (sites db)) (c_id ` set (clusters db)) (u_id ` set (users db)) a"
    and "\<forall>p \<in> set (periods db). period_row_ok (s_id ` set (sites db)) (u_id ` set (users db)) p"
    and "\<forall>e \<in> set (entries db). entry_row_ok (pd_id ` set (periods db)) (p_id ` set (plans db)) e"
    and "\<forall>i \<in> set (idempotency_keys db). i_actor_id i \<in> u_id ` set (users db)"
    and "\<forall>e \<in> set (audit_events db). names_user (u_id ` set (users db)) (ev_actor_id e)"
  using assms unfolding rows_ok_def Let_def by blast+

text \<open>A table that others reference loses no identity.\<close>

lemma rows_users: "rows_ok db \<Longrightarrow> u_id ` set (users db) \<subseteq> u_id ` set rows \<Longrightarrow> \<forall>u \<in> set rows. role_valid (u_role u)
    \<Longrightarrow> rows_ok (db\<lparr>users := rows\<rparr>)"
  unfolding rows_ok_def Let_def by simp (elim conjE, (assumption | rule conjI order_refl | erule rows_more)+)

lemma rows_sites: "rows_ok db \<Longrightarrow> s_id ` set (sites db) \<subseteq> s_id ` set rows \<Longrightarrow> \<forall>s \<in> set rows. site_check s
    \<Longrightarrow> rows_ok (db\<lparr>sites := rows\<rparr>)"
  unfolding rows_ok_def Let_def by simp (elim conjE, (assumption | rule conjI order_refl | erule rows_more)+)

lemma rows_clusters: "rows_ok db \<Longrightarrow> c_id ` set (clusters db) \<subseteq> c_id ` set rows
    \<Longrightarrow> \<forall>c \<in> set rows. cluster_row_ok (s_id ` set (sites db)) c \<Longrightarrow> rows_ok (db\<lparr>clusters := rows\<rparr>)"
  unfolding rows_ok_def Let_def by simp (elim conjE, (assumption | rule conjI order_refl | erule rows_more)+)

lemma rows_plans: "rows_ok db \<Longrightarrow> p_id ` set (plans db) \<subseteq> p_id ` set rows
    \<Longrightarrow> \<forall>p \<in> set rows. plan_row_ok (s_id ` set (sites db)) (u_id ` set (users db)) p \<Longrightarrow> rows_ok (db\<lparr>plans := rows\<rparr>)"
  unfolding rows_ok_def Let_def by simp (elim conjE, (assumption | rule conjI order_refl | erule rows_more)+)

lemma rows_periods: "rows_ok db \<Longrightarrow> pd_id ` set (periods db) \<subseteq> pd_id ` set rows
    \<Longrightarrow> \<forall>p \<in> set rows. period_row_ok (s_id ` set (sites db)) (u_id ` set (users db)) p \<Longrightarrow> rows_ok (db\<lparr>periods := rows\<rparr>)"
  unfolding rows_ok_def Let_def by simp (elim conjE, (assumption | rule conjI order_refl | erule rows_more)+)

text \<open>The other tables.\<close>

lemma rows_leaf:
  assumes "rows_ok db"
  shows "\<forall>x \<in> set xs. ss_user_id x \<in> u_id ` set (users db) \<Longrightarrow> rows_ok (db\<lparr>sessions := xs\<rparr>)"
    and "\<forall>r \<in> set rs. reservation_row_ok (p_id ` set (plans db)) (c_id ` set (clusters db)) r \<Longrightarrow> rows_ok (db\<lparr>reservations := rs\<rparr>)"
    and "\<forall>j \<in> set js. job_row_ok (p_id ` set (plans db)) (c_id ` set (clusters db)) j \<Longrightarrow> rows_ok (db\<lparr>jobs := js\<rparr>)"
    and "\<forall>t \<in> set ts. snapshot_row_ok (c_id ` set (clusters db)) t \<Longrightarrow> rows_ok (db\<lparr>snapshots := ts\<rparr>)"
    and "\<forall>a \<in> set as. alarm_row_ok (s_id ` set (sites db)) (c_id ` set (clusters db)) (u_id ` set (users db)) a
      \<Longrightarrow> rows_ok (db\<lparr>alarms := as\<rparr>)"
    and "\<forall>e \<in> set es. entry_row_ok (pd_id ` set (periods db)) (p_id ` set (plans db)) e \<Longrightarrow> rows_ok (db\<lparr>entries := es\<rparr>)"
    and "\<forall>i \<in> set ks. i_actor_id i \<in> u_id ` set (users db) \<Longrightarrow> rows_ok (db\<lparr>idempotency_keys := ks\<rparr>)"
    and "\<forall>e \<in> set vs. names_user (u_id ` set (users db)) (ev_actor_id e) \<Longrightarrow> rows_ok (db\<lparr>audit_events := vs\<rparr>)"
  using assms unfolding rows_ok_def Let_def by simp_all

text \<open>An update keeps what it and the constraints it satisfies keep of one row.\<close>

lemma rows_updated:
  assumes "expect_one op (exec_update P f violates rows) = Inr rows'" "\<forall>r \<in> set rows. Q r"
    "\<And>r. Q r \<Longrightarrow> violates (f r) = None \<Longrightarrow> Q (f r)"
  shows "\<forall>r \<in> set rows'. Q r"
  using assms by (auto simp: expect_one_Inr set_update_where)

lemma ids_updated: "expect_one op (exec_update P f violates rows) = Inr rows' \<Longrightarrow> (\<And>r. key (f r) = key r)
    \<Longrightarrow> key ` set rows \<subseteq> key ` set rows'"
  by (auto simp: expect_one_Inr image_update_where)

section \<open>The statements\<close>

lemmas violations = user_violation_def user_row_violation_def session_violation_def event_violation_def site_violation_def
  cluster_violation_def plan_violation_def reservation_violation_def job_violation_def job_row_violation_def
  snapshot_violation_def period_violation_def idem_violation_def exists_iff

lemma insert_user_rows: "rows_ok db \<Longrightarrow> insert_user db u = Inr db' \<Longrightarrow> rows_ok db'"
  using rows_okD(1) [of db] by (auto simp: insert_user_Inr violations role_valid_def split: if_splits intro!: rows_users)

lemma insert_session_rows: "rows_ok db \<Longrightarrow> insert_session db x = Inr db' \<Longrightarrow> rows_ok db'"
  using rows_okD(2) [of db] by (auto simp: insert_session_Inr violations row_defs split: if_splits intro!: rows_leaf(1))

lemma insert_audit_rows: "rows_ok db \<Longrightarrow> insert_audit e db = Inr db' \<Longrightarrow> rows_ok db'"
  using rows_okD(13) [of db] by (auto simp: insert_audit_Inr stored_event_def violations row_defs split: if_splits intro!: rows_leaf(8))

lemma insert_site_rows: "rows_ok db \<Longrightarrow> insert_site db s = Inr db' \<Longrightarrow> rows_ok db'"
  using rows_okD(3) [of db] by (auto simp: insert_site_Inr violations row_defs split: if_splits intro!: rows_sites)

lemma insert_cluster_rows: "rows_ok db \<Longrightarrow> insert_cluster db c = Inr db' \<Longrightarrow> rows_ok db'"
  using rows_okD(4) [of db] by (auto simp: insert_cluster_Inr violations row_defs split: if_splits intro!: rows_clusters)

lemma insert_plan_rows: "rows_ok db \<Longrightarrow> insert_plan db p = Inr db' \<Longrightarrow> rows_ok db'"
  using rows_okD(5) [of db] by (auto simp: insert_plan_Inr violations row_defs plan_check_def split: if_splits intro!: rows_plans)

lemma insert_reservation_rows: "rows_ok db \<Longrightarrow> insert_reservation db r = Inr db' \<Longrightarrow> rows_ok db'"
  using rows_okD(6) [of db] by (auto simp: insert_reservation_Inr violations row_defs split: if_splits intro!: rows_leaf(2))

lemma insert_job_rows: "rows_ok db \<Longrightarrow> insert_job j db = Inr db' \<Longrightarrow> rows_ok db'"
  using rows_okD(7) [of db] by (auto simp: insert_job_Inr violations row_defs split: if_splits intro!: rows_leaf(3))

lemma insert_snapshot_rows: "rows_ok db \<Longrightarrow> insert_snapshot t db = Inr db' \<Longrightarrow> rows_ok db'"
  using rows_okD(8) [of db] by (auto simp: insert_snapshot_Inr violations row_defs split: if_splits intro!: rows_leaf(4))

lemma insert_alarm_rows: "rows_ok db \<Longrightarrow> insert_alarm a db = Inr db' \<Longrightarrow> rows_ok db'"
  using rows_okD(9) [of db] by (auto simp: insert_alarm_def violations row_defs alarm_check_def names_user_def split: if_splits intro!: rows_leaf(5))

lemma insert_period_rows: "rows_ok db \<Longrightarrow> insert_period db pd = Inr db' \<Longrightarrow> rows_ok db'"
  using rows_okD(10) [of db] by (auto simp: insert_period_Inr violations row_defs period_check_def split: if_splits intro!: rows_periods)

lemma insert_entry_rows: "rows_ok db \<Longrightarrow> insert_entry en db = Inr db' \<Longrightarrow> rows_ok db'"
  using rows_okD(11) [of db] by (auto simp: insert_entry_def violations row_defs split: if_splits intro!: rows_leaf(6))

lemma insert_idempotency_rows: "rows_ok db \<Longrightarrow> insert_idempotency db i = Inr db' \<Longrightarrow> rows_ok db'"
  using rows_okD(12) [of db] by (auto simp: insert_idempotency_Inr violations row_defs split: if_splits intro!: rows_leaf(7))

lemma no_violation:
  "site_row_violation s = None \<longleftrightarrow> site_check s" "cluster_row_violation c = None \<longleftrightarrow> cluster_check c"
  "plan_row_violation db p = None \<longleftrightarrow> plan_check p \<and> names_user (u_id ` set (users db)) (p_approved_by p)"
  "plan_status_violation p = None \<longleftrightarrow> plan_check p"
  "job_row_violation j = None \<longleftrightarrow> 0 \<le> j_attempts j \<and> 0 < j_max_attempts j"
  "period_row_violation db d = None \<longleftrightarrow> period_check d \<and> names_user (u_id ` set (users db)) (pd_closed_by d)"
  "alarm_row_violation db a = None \<Longrightarrow> alarm_check a \<and> names_user (u_id ` set (users db)) (a_acknowledged_by a)
     \<and> names_user (u_id ` set (users db)) (a_resolved_by a)"
  by (auto simp: site_row_violation_def cluster_row_violation_def plan_row_violation_def plan_status_violation_def
      job_row_violation_def period_row_violation_def alarm_row_violation_def exists_iff split: if_splits)

lemma kept_sessions: "rows_ok db \<Longrightarrow> (\<And>s. ss_user_id (f s) = ss_user_id s) \<Longrightarrow>
    rows_ok (db\<lparr>sessions := update_where P f (sessions db)\<rparr>)"
  using rows_okD(2) [of db] by (auto simp: set_update_where intro!: rows_leaf(1))

lemma session_statements_rows:
  assumes "rows_ok db"
  shows "touch_session db sid at = Inr db' \<Longrightarrow> rows_ok db'" "revoke_session db sid at = Inr db' \<Longrightarrow> rows_ok db'"
    "delete_expired_sessions db at = Inr (db', n) \<Longrightarrow> rows_ok db'"
  using rows_okD(2) [OF assms]
  by (auto simp: touch_session_def revoke_session_Inr delete_expired_sessions_def
      intro: kept_sessions [OF assms] rows_leaf(1) [OF assms])

lemma update_sites:
  assumes "rows_ok db" "expect_one op (exec_update P f violates (sites db)) = Inr rows"
    "\<And>s. s_id (f s) = s_id s" "\<And>s. violates (f s) = None \<Longrightarrow> site_check (f s)"
  shows "rows_ok (db\<lparr>sites := rows\<rparr>)"
  using rows_updated [OF assms(2) rows_okD(3) [OF assms(1)] assms(4)] ids_updated [OF assms(2), of s_id] assms(3)
  by (intro rows_sites [OF assms(1)]) blast+

lemma update_clusters:
  assumes "rows_ok db" "expect_one op (exec_update P f cluster_row_violation (clusters db)) = Inr rows"
    "\<And>c. c_id (f c) = c_id c" "\<And>c. c_site_id (f c) = c_site_id c"
  shows "rows_ok (db\<lparr>clusters := rows\<rparr>)"
proof (rule rows_clusters [OF assms(1) ids_updated [OF assms(2)]])
  show "\<forall>c \<in> set rows. cluster_row_ok (s_id ` set (sites db)) c"
    by (rule rows_updated [OF assms(2) rows_okD(4) [OF assms(1)]]) (simp add: cluster_row_ok_def no_violation assms(4))
qed (rule assms(3))

lemma update_plans:
  assumes "rows_ok db" "expect_one op (exec_update P f violates (plans db)) = Inr rows"
    "\<And>p. p_id (f p) = p_id p"
    "\<And>p. plan_row_ok (s_id ` set (sites db)) (u_id ` set (users db)) p \<Longrightarrow> violates (f p) = None
      \<Longrightarrow> plan_row_ok (s_id ` set (sites db)) (u_id ` set (users db)) (f p)"
  shows "rows_ok (db\<lparr>plans := rows\<rparr>)"
  using rows_updated [OF assms(2) rows_okD(5) [OF assms(1)] assms(4)] ids_updated [OF assms(2), of p_id] assms(3)
  by (intro rows_plans [OF assms(1)]) blast+

lemma update_jobs:
  assumes "rows_ok db" "expect_one op (exec_update P f job_row_violation (jobs db)) = Inr rows"
    "\<And>j. j_plan_id (f j) = j_plan_id j" "\<And>j. j_cluster_id (f j) = j_cluster_id j"
  shows "rows_ok (db\<lparr>jobs := rows\<rparr>)"
proof (rule rows_leaf(3) [OF assms(1)])
  show "\<forall>j \<in> set rows. job_row_ok (p_id ` set (plans db)) (c_id ` set (clusters db)) j"
    by (rule rows_updated [OF assms(2) rows_okD(7) [OF assms(1)]]) (simp add: job_row_ok_def no_violation assms(3,4))
qed

text \<open>The conditional updates.\<close>

lemma site_statements_rows:
  assumes "rows_ok db"
  shows "update_site db s v = Inr db' \<Longrightarrow> rows_ok db'" "reserve_capacity op db sid kw v at = Inr db' \<Longrightarrow> rows_ok db'"
  by (auto simp: update_site_def reserve_capacity_def cas_rows_def no_violation add_reserved_def assign_site_def
      elim!: update_sites [OF assms])

lemma cluster_statements_rows:
  assumes "rows_ok db"
  shows "reserve_cluster_row at cid db = Inr db' \<Longrightarrow> rows_ok db'" "advance_telemetry t soc v db = Inr db' \<Longrightarrow> rows_ok db'"
  by (auto simp: reserve_cluster_row_def advance_telemetry_def elim!: update_clusters [OF assms])

lemma plan_statements_rows:
  assumes "rows_ok db"
  shows "update_plan db p v = Inr db' \<Longrightarrow> rows_ok db'" "update_plan_status op p v db = Inr db' \<Longrightarrow> rows_ok db'"
  by (auto simp: update_plan_def update_plan_status_def cas_rows_def no_violation plan_row_ok_def assign_plan_def
      assign_plan_status_def elim!: update_plans [OF assms])

lemma job_statements_rows:
  assumes "rows_ok db"
  shows "cas_rows j_id j_version assign_lease job_row_violation op (jobs db) j v = Inr js \<Longrightarrow> rows_ok (db\<lparr>jobs := js\<rparr>)"
    and "complete_job db j v = Inr db' \<Longrightarrow> rows_ok db'"
  by (auto simp: complete_job_def cas_rows_def elim!: update_jobs [OF assms])

lemma assign_rows:
  "alarm_row_ok S C U a \<Longrightarrow> alarm_check (assign_alarm b a) \<Longrightarrow> names_user U (a_acknowledged_by (assign_alarm b a))
     \<Longrightarrow> names_user U (a_resolved_by (assign_alarm b a)) \<Longrightarrow> alarm_row_ok S C U (assign_alarm b a)"
  "period_row_ok S U d \<Longrightarrow> period_check (assign_period q d) \<Longrightarrow> names_user U (pd_closed_by (assign_period q d))
     \<Longrightarrow> period_row_ok S U (assign_period q d)"
  by (simp_all add: alarm_row_ok_def period_row_ok_def assign_alarm_def assign_period_def)

lemma update_alarm_row_rows:
  assumes "rows_ok db" "update_alarm_row a v db = Inr db'"
  shows "rows_ok db'"
proof -
  obtain rows where u: "cas_rows a_id a_version assign_alarm (alarm_row_violation db) ''sqlite.updateAlarm'' (alarms db) a v
      = Inr rows" and db': "db' = db\<lparr>alarms := rows\<rparr>"
    using assms(2) by (auto simp: update_alarm_row_def)
  show ?thesis unfolding db'
    by (rule rows_leaf(5) [OF assms(1) rows_updated [OF u [unfolded cas_rows_def] rows_okD(9) [OF assms(1)]]])
      (blast intro: assign_rows(1) dest: no_violation(7))
qed

lemma update_period_row_rows:
  assumes "rows_ok db" "update_period_row pd v db = Inr db'"
  shows "rows_ok db'"
proof -
  obtain rows where u: "cas_rows pd_id pd_version assign_period (period_row_violation db) ''sqlite.updatePeriod'' (periods db)
      pd v = Inr rows" and db': "db' = db\<lparr>periods := rows\<rparr>"
    using assms(2) by (auto simp: update_period_row_def)
  note u = u [unfolded cas_rows_def]
  show ?thesis unfolding db'
    by (rule rows_periods [OF assms(1) ids_updated [OF u] rows_updated [OF u rows_okD(10) [OF assms(1)]]])
      (simp, blast intro: assign_rows(2) dest: no_violation(6) [THEN iffD1])
qed

lemma complete_idempotency_rows:
  assumes "rows_ok db" "complete_idempotency db i = Inr db'"
  shows "rows_ok db'"
proof -
  let ?f = "\<lambda>q. q\<lparr>i_response_status := i_response_status i, i_response_body := i_response_body i,
      i_state := i_state i, i_updated_at := i_updated_at i\<rparr>"
  obtain rows where u: "expect_one ''sqlite.CompleteIdempotency'' (exec_update (\<lambda>q. i_id q = i_id i \<and> i_state q = Started) ?f
      (\<lambda>_. None) (idempotency_keys db)) = Inr rows" and db': "db' = db\<lparr>idempotency_keys := rows\<rparr>"
    using assms(2) by (auto simp: complete_idempotency_def)
  show ?thesis unfolding db'
    by (rule rows_leaf(7) [OF assms(1) rows_updated [OF u rows_okD(12) [OF assms(1)]]]) simp
qed

lemma delete_expired_idempotency_rows: "rows_ok db \<Longrightarrow> delete_expired_idempotency db at = Inr (db', n) \<Longrightarrow> rows_ok db'"
  using rows_okD(12) [of db] by (auto simp: delete_expired_idempotency_def Let_def intro!: rows_leaf(7))

section \<open>Every run\<close>

lemma rows_ok_empty: "rows_ok empty_database"
  by (simp add: rows_ok_def empty_database_def)

interpretation row_laws: statement_laws rows_ok
proof (unfold_locales, goal_cases)
  case (18 db j v js)
  then show ?case by (rule job_statements_rows(1))
qed (rule rows_ok_empty
  | (erule (1) insert_user_rows insert_session_rows session_statements_rows insert_audit_rows insert_site_rows
      site_statements_rows insert_cluster_rows cluster_statements_rows insert_plan_rows plan_statements_rows
      insert_reservation_rows insert_job_rows job_statements_rows insert_snapshot_rows insert_alarm_rows
      update_alarm_row_rows insert_period_rows update_period_row_rows insert_entry_rows insert_idempotency_rows
      complete_idempotency_rows delete_expired_idempotency_rows))+
lemmas run_rows = row_laws.run_keeps

lemma run_roles: "run h \<Longrightarrow> db \<in> set h \<Longrightarrow> u \<in> set (users db) \<Longrightarrow> role_valid (u_role u)"
  using rows_okD(1) [OF run_rows] by blast

lemma run_alarms: "run h \<Longrightarrow> db \<in> set h \<Longrightarrow> a \<in> set (alarms db) \<Longrightarrow> alarm_check a"
  using rows_okD(9) [OF run_rows] unfolding alarm_row_ok_def by blast
end
