(* ===== verification/StartProperties.thy ===== *)
theory StartProperties
  imports App RowsMore Scenario Drain Integrity
begin

text \<open>
  Properties of the start of the process: the migrations, the first operator, the rows that a later
  process reads, and the worker that the configuration sets up.
\<close>

section \<open>Migrations\<close>

lemma take_two: "k \<le> 2 \<Longrightarrow> take k [a, b] \<in> {[], [a], [a, b]}"
  by (cases k; cases "k - 1") auto

text \<open>
  C28. The schema scripts run once each and in order, whatever interrupts the starts of the program:
  after any starts, each with its own faults of the driver, the scripts that ran are the first ones
  and the history names exactly them; a start whose \<open>Open\<close> succeeds leaves both applied; and without
  a fault \<open>Migrate\<close> succeeds.
\<close>

theorem migrations_once:
  assumes "s = starts (embedded initial indexes) attempts"
    and "open_database absolute mkdir sql_open pinged fails clock (Inr (embedded initial indexes)) path s = (s', out)"
  shows "(\<exists>k \<le> 2. sc_scripts s = take k [initial, indexes] \<and> map mr_version (applied s) = take k [1, 2]
      \<and> (\<exists>n \<ge> k. sc_scripts s' = take n [initial, indexes] \<and> map mr_version (applied s') = take n [1, 2]))
    \<and> (out = Inr full \<longrightarrow> sc_scripts s' = [initial, indexes] \<and> map mr_version (applied s') = [1, 2])
    \<and> ((\<forall>st f. fails st f = None) \<longrightarrow> snd (migrate fails clock (Inr (embedded initial indexes)) s) = Inr ())"
proof -
  let ?files = "embedded initial indexes"
  have shape: "sc_scripts x = take n [initial, indexes] \<and> map mr_version (applied x) = take n [1, 2] \<and> n \<le> 2"
    if "applied_first n (scripts ?files) x" for n x
  proof -
    have "map (Inr :: i64 \<Rightarrow> i64 res) (map mr_version (applied x)) = map Inr (take n [1, 2])"
      and "map (Inr :: string \<Rightarrow> string res) (sc_scripts x) = map Inr (take n [initial, indexes])" and "n \<le> 2"
      using that embedded_versions
      by (simp_all add: applied_first_def embedded_scripts take_map [symmetric])
        (simp_all add: embedded_def)
    then show ?thesis by (simp add: inj_map_eq_map inj_def del: map_map)
  qed
  obtain k where k: "applied_first k (scripts ?files) s" using starts_applied [OF embedded_ok] assms(1) by blast
  note m = migrate_applied [OF embedded_ok k, of fails clock]
  have len: "length (scripts ?files) = 2" by (simp add: embedded_scripts) (simp add: embedded_def)
  have s': "s' = s \<and> (\<exists>e. out = Inl e)
      \<or> s' = fst (migrate fails clock (Inr ?files) s) \<and> (\<forall>x. out = Inr x \<longrightarrow> snd (migrate fails clock (Inr ?files) s) = Inr ())"
  proof (cases "database_path absolute mkdir path")
    case (Inl e)
    then have "s' = s" "out = Inl e" using assms(2) by (simp_all add: open_database_def)
    then show ?thesis by blast
  next
    case (Inr at)
    then show ?thesis using assms(2) by (auto simp: open_database_def split: sum.splits option.splits prod.splits)
  qed
  have "\<exists>n \<ge> k. applied_first n (scripts ?files) s'" using s' m k by blast
  then have "\<exists>k \<le> 2. sc_scripts s = take k [initial, indexes] \<and> map mr_version (applied s) = take k [1, 2]
      \<and> (\<exists>n \<ge> k. sc_scripts s' = take n [initial, indexes] \<and> map mr_version (applied s') = take n [1, 2])"
    using shape k by blast
  moreover have "sc_scripts s' = [initial, indexes] \<and> map mr_version (applied s') = [1, 2]" if "out = Inr full"
  proof -
    have "applied_first 2 (scripts ?files) s'" using s' m len that by auto
    from shape [OF this] show ?thesis by simp
  qed
  moreover have "snd (migrate fails clock (Inr ?files) s) = Inr ()" if "\<forall>st f. fails st f = None"
    using m that by blast
  ultimately show ?thesis by blast
qed

theorem migrations_once_witness:
  "sc_scripts (starts (embedded ''tables'' ''indexes'')
      [(\<lambda>st file. if st = ''record'' \<and> file = ''002_operational_indexes.sql'' then Some err_eof else None, \<lambda>_. demo_now)])
    \<in> {[], [''tables''], [''tables'', ''indexes'']}
  \<and> sc_scripts (fst (open_database Inr (\<lambda>_. None) (\<lambda>_. None) None (\<lambda>_ _. None) (\<lambda>_. demo_now)
      (Inr (embedded ''tables'' ''indexes'')) ''/grid.db'' (starts (embedded ''tables'' ''indexes'')
      [(\<lambda>st file. if st = ''record'' \<and> file = ''002_operational_indexes.sql'' then Some err_eof else None, \<lambda>_. demo_now)])))
    = [''tables'', ''indexes'']"
proof -
  let ?s = "starts (embedded ''tables'' ''indexes'')
      [(\<lambda>st file. if st = ''record'' \<and> file = ''002_operational_indexes.sql'' then Some err_eof else None, \<lambda>_. demo_now)]"
  let ?open = "open_database Inr (\<lambda>_. None) (\<lambda>_. None) None (\<lambda>_ _. None) (\<lambda>_. demo_now)
      (Inr (embedded ''tables'' ''indexes'')) ''/grid.db''"
  note m = migrations_once [OF refl surjective_pairing, of "''tables''" "''indexes''"]
  from m have first: "sc_scripts ?s \<in> {[], [''tables''], [''tables'', ''indexes'']}"
    using take_two by metis
  have "snd (migrate (\<lambda>_ _. None) (\<lambda>_. demo_now) (Inr (embedded ''tables'' ''indexes'')) ?s) = Inr ()"
    by (rule m [THEN conjunct2, THEN conjunct2, rule_format]) simp
  moreover have "database_path Inr (\<lambda>_. None) ''/grid.db'' = Inr ''/grid.db''" by code_simp
  ultimately have "snd (?open ?s) = Inr ''/grid.db''"
    by (cases "migrate (\<lambda>_ _. None) (\<lambda>_. demo_now) (Inr (embedded ''tables'' ''indexes'')) ?s") (simp add: open_database_def)
  with m [THEN conjunct2, THEN conjunct1, rule_format, OF this] first show ?thesis by blast
qed

section \<open>The first operator\<close>

text \<open>
  C32. A fresh deployment can be used: if \<open>Load\<close> accepts the configuration, it names an operator, and
  the bootstrap on the empty database succeeds, then the configured address and password log in, as
  an operator, with a session for the configured time.
\<close>

theorem first_operator_admitted:
  assumes "config_load getenv parse = Inr cfg" "c_bootstrap_email cfg \<noteq> ''''"
    and "bootstrap_operator en lib cfg empty_database = (db, Inr ())"
    and "bcrypt_sound lib" "li_random lib = Inr bytes"
    and "\<not> blank (en_uuid en 0)" "trim_space (en_uuid en 0) = en_uuid en 0" "\<forall>op. en_driver en' op = None"
  shows "\<exists>db' r. login en' lib (new_auth_service (c_session_ttl cfg)) db db
      \<lparr>lg_email = c_bootstrap_email cfg, lg_password = c_bootstrap_password cfg, lg_request = rid\<rparr> = (db', Inr r)
    \<and> uv_role (lr_user r) = RoleOperator \<and> lr_expires_at r = en_now en' 0 + c_session_ttl cfg"
  using assms(8) by (intro first_operator_logs_in [OF assms(1-7)]) simp

definition demo_environ :: "string \<Rightarrow> string" where
  "demo_environ key = (if key = ''GRIDVAULT_BOOTSTRAP_EMAIL'' then ''ann@grid.test''
     else if key = ''GRIDVAULT_BOOTSTRAP_PASSWORD'' then ''Correct-Horse-1''
     else if key = ''GRIDVAULT_WORKER_LEASE'' then ''15m'' else '''')"

definition demo_durations :: "string \<Rightarrow> string + duration" where
  "demo_durations s = (if s = ''15m'' then Inr (15 * minute) else Inl ''invalid duration'')"

lemma demo_config:
  obtains cfg where "config_load demo_environ demo_durations = Inr cfg" "c_bootstrap_email cfg = ''ann@grid.test''"
    "c_bootstrap_password cfg = ''Correct-Horse-1''" "c_session_ttl cfg = 12 * hour" "c_worker_lease cfg = 15 * minute"
    "c_worker_batch_size cfg = 8"
proof -
  have "case config_load demo_environ demo_durations of Inl e \<Rightarrow> False
    | Inr cfg \<Rightarrow> c_bootstrap_email cfg = ''ann@grid.test'' \<and> c_bootstrap_password cfg = ''Correct-Horse-1''
        \<and> c_session_ttl cfg = 12 * hour \<and> c_worker_lease cfg = 15 * minute \<and> c_worker_batch_size cfg = 8" by code_simp
  with that show thesis by (auto split: sum.splits)
qed

theorem first_operator_admitted_witness:
  "\<exists>cfg db db' r. config_load demo_environ demo_durations = Inr cfg
    \<and> bootstrap_operator (demo_env ''ann'') demo_libs cfg empty_database = (db, Inr ())
    \<and> login (demo_env ''in'') demo_libs (new_auth_service (12 * hour)) db db
        \<lparr>lg_email = ''ann@grid.test'', lg_password = ''Correct-Horse-1'', lg_request = ''''\<rparr> = (db', Inr r)
    \<and> uv_role (lr_user r) = RoleOperator \<and> lr_expires_at r = demo_now + 12 * hour"
proof -
  obtain cfg where cfg: "config_load demo_environ demo_durations = Inr cfg" "c_bootstrap_email cfg = ''ann@grid.test''"
    "c_bootstrap_password cfg = ''Correct-Horse-1''" "c_session_ttl cfg = 12 * hour" by (rule demo_config)
  have e: "normalize_email (li_lower demo_libs) (li_address demo_libs) ''ann@grid.test'' = Inr ''ann@grid.test''" by code_simp
  have f: "user_by_email empty_database ''ann@grid.test'' = Inl (translate ''sqlite.scanUser'' err_no_rows)"
    by (simp add: user_by_email_def query_row_def empty_database_def)
  have k: "is_kind (translate ''sqlite.scanUser'' err_no_rows) NotFound" by (simp add: is_kind_def wrap_fault_def)
  let ?u = "demo_ann\<lparr>u_display_name := ''Bootstrap Operator'', u_role := RoleOperator\<rparr>"
  have u: "create_user (li_lower demo_libs) (li_address demo_libs) (li_bcrypt demo_libs) ''ann'' (bootstrap_input cfg) demo_now = Inr ?u"
    unfolding bootstrap_input_def cfg by code_simp
  have i: "insert_user empty_database ?u = Inr (empty_database\<lparr>users := [?u]\<rparr>)" by code_simp
  have "bootstrap_operator (demo_env ''ann'') demo_libs cfg empty_database = (empty_database\<lparr>users := [?u]\<rparr>, Inr ())"
    using u by (simp add: bootstrap_operator_def bootstrap_def bootstrap_input_def cfg e f k i del: translate_no_rows cong: checked_weak_cong)
  moreover have "bcrypt_sound demo_libs" "li_random demo_libs = Inr ''r''" by (simp_all add: bcrypt_sound_def demo_libs_def)
  moreover have "\<not> blank (en_uuid (demo_env ''ann'') 0)" "trim_space (en_uuid (demo_env ''ann'') 0) = en_uuid (demo_env ''ann'') 0"
    by code_simp+
  moreover have "\<forall>op. en_driver (demo_env ''in'') op = None" by (simp add: demo_env_def)
  moreover have "c_bootstrap_email cfg \<noteq> ''''" by (simp add: cfg)
  ultimately show ?thesis
    using cfg(1) first_operator_admitted [OF cfg(1), of "demo_env ''ann''" demo_libs _ "''r''" "demo_env ''in''" "''''"]
    unfolding cfg demo_env_simps by blast
qed
section \<open>Rows\<close>

text \<open>
  C29. Nothing is lost in the tables: in every state of every run the rows of all records that the
  program reads again, and whose times lie in the years 1 to 9999, are read back as the records that
  were written, to the nanosecond; only a blank name is read as none.
\<close>

theorem rows_read_back:
  assumes "run h" "int (length h) < 9223372036854775807" "db \<in> set h"
  shows "(\<forall>s \<in> set (sites db). writable (site_times s) \<longrightarrow> scan_site general (site_columns s) = Inr s)
    \<and> (\<forall>p \<in> set (plans db). writable (plan_times p) \<longrightarrow>
        scan_plan general (plan_columns p) = Some (p\<lparr>p_approved_by := nullable_string (p_approved_by p)\<rparr>))
    \<and> (\<forall>j \<in> set (jobs db). writable (job_times j) \<longrightarrow>
        scan_job general (job_columns j) = Some (j\<lparr>j_lease_owner := nullable_string (j_lease_owner j)\<rparr>))
    \<and> (\<forall>x \<in> set (sessions db). writable (session_times x) \<longrightarrow> scan_session general (session_columns x) = Inr x)
    \<and> (\<forall>r \<in> set (idempotency_keys db). writable (idem_times r) \<longrightarrow> scan_idempotency general (idem_columns r) = Some r)
    \<and> (\<forall>c \<in> set (clusters db). writable (cluster_times c) \<longrightarrow> scan_cluster general (cluster_columns c) = Some c)
    \<and> (\<forall>r \<in> set (reservations db). writable (reservation_times r) \<longrightarrow> scan_reservation general (reservation_columns r) = Some r)
    \<and> (\<forall>p \<in> set (periods db). writable (period_times p) \<longrightarrow>
        scan_period general (period_columns p) = Some (p\<lparr>pd_closed_by := nullable_string (pd_closed_by p)\<rparr>))
    \<and> (\<forall>e \<in> set (audit_events db). time_in_range (ev_occurred_at e) \<longrightarrow>
        scan_event general (event_columns e) = e\<lparr>ev_actor_id := nullable_string (ev_actor_id e)\<rparr>)
    \<and> (\<forall>u \<in> set (users db). writable (user_times u) \<longrightarrow> scan_user general (user_columns u) = Inr u)
    \<and> (\<forall>a \<in> set (alarms db). writable (alarm_times a) \<longrightarrow>
        scan_alarm general (alarm_columns a)
          = Some (a\<lparr>a_acknowledged_by := nullable_string (a_acknowledged_by a), a_resolved_by := nullable_string (a_resolved_by a)\<rparr>))"
proof (intro conjI ballI impI)
  fix s assume s: "s \<in> set (sites db)" "writable (site_times s)"
  have "\<And>t. s_status s \<noteq> StatusOther t" using run_site [OF assms s(1)] by (auto simp: site_ok_def)
  with s(2) show "scan_site general (site_columns s) = Inr s" by (rule site_read_back)
next
  fix p assume p: "p \<in> set (plans db)" "writable (plan_times p)"
  have "p_direction p \<in> {Charge, Discharge}" using run_plan [OF assms p(1)] unfolding live_plan_def plan_ok_def by blast
  then have "\<And>t. p_direction p \<noteq> DirectionOther t" by auto
  with p(2) show "scan_plan general (plan_columns p) = Some (p\<lparr>p_approved_by := nullable_string (p_approved_by p)\<rparr>)"
    by (rule plan_read_back)
next
  fix u assume u: "u \<in> set (users db)" "writable (user_times u)"
  then show "scan_user general (user_columns u) = Inr u"
    using run_roles [OF assms(1,3) u(1)] by (blast intro: user_read_back)
next
  fix a assume a: "a \<in> set (alarms db)" "writable (alarm_times a)"
  then show "scan_alarm general (alarm_columns a)
      = Some (a\<lparr>a_acknowledged_by := nullable_string (a_acknowledged_by a), a_resolved_by := nullable_string (a_resolved_by a)\<rparr>)"
    using run_alarms [OF assms(1,3) a(1)] unfolding alarm_check_def by (intro alarm_read_back) auto
qed (rule job_read_back session_read_back idempotency_read_back cluster_read_back reservation_read_back period_read_back
    event_read_back, assumption)+

theorem rows_read_back_witness:
  "scan_plan (\<lambda>_. Inr ''not a time'') (plan_columns (demo_plan PlanDispatched ''bob'' (Some demo_now) 4)) = Some (demo_plan PlanDispatched ''bob'' (Some demo_now) 4)
    \<and> scan_job (\<lambda>_. Inr ''not a time'') (job_columns demo_job) = Some demo_job"
proof -
  let ?p = "demo_plan PlanDispatched ''bob'' (Some demo_now) 4"
  have "?p \<in> set (plans demo9)" "demo_job \<in> set (jobs demo9)" by simp_all
  moreover have "writable (plan_times ?p)" "writable (job_times demo_job)"
    by (simp_all add: plan_times_def job_times_def writable_parts demo_plan_def demo_job_def demo_window_def demo_now_def time_in_range_def)
  moreover have "?p\<lparr>p_approved_by := nullable_string (p_approved_by ?p)\<rparr> = ?p" by (simp add: demo_plan_def demo_plan_ref)
  moreover have "nullable_string '''' = ''''" by code_simp
  moreover from this have "demo_job\<lparr>j_lease_owner := nullable_string (j_lease_owner demo_job)\<rparr> = demo_job" by (simp add: demo_job_def)
  ultimately show ?thesis
    using rows_read_back [OF demo_history_runs demo_history_length demo_history_last(1), of "\<lambda>_. Inr ''not a time''"] by metis
qed

section \<open>The configured worker\<close>

lemma worker_owner: "\<not> blank (''worker-'' @ uuid)"
  by (simp add: visible_def)

text \<open>
  C31. The worker that a loaded configuration sets up claims at most its batch, which is at most a
  hundred jobs.  With a configured lease between a second and ten minutes a cycle claims exactly the
  first due jobs that are ready; with any other lease that \<open>Load\<close> accepts, and it sets no upper bound,
  a cycle claims no job, changes nothing and reports no error.
\<close>

theorem configured_worker_claims:
  assumes "config_load getenv parse = Inr cfg" "ex = ap_executor (wire lib load_location ptime visit uuid cfg)"
    and "keys_ok db" "\<forall>j \<in> set (jobs db). 0 \<le> j_attempts j \<and> j_attempts j < 9223372036854775807 \<and> 0 < j_max_attempts j"
    and "claim_jobs (en_tx en) (\<lambda>_. False) db (ex_owner ex) (ex_batch ex) (en_now en 0) (ex_lease ex) = Inr (db1, claimed)"
    and "schedule [] = []"
  shows "length claimed \<le> 100
    \<and> (if second \<le> c_worker_lease cfg \<and> c_worker_lease cfg \<le> 10 * minute
       then map j_id claimed = map j_id (filter (\<lambda>j. job_claimable j (en_now en 0))
              (claim_candidates db (c_worker_batch_size cfg) (en_now en 0)))
       else claimed = [] \<and> process_once en ex (\<lambda>_. False) schedule gateway clock db = (db, Inr ()))"
proof -
  have ex: "ex_owner ex = ''worker-'' @ uuid" "ex_lease ex = c_worker_lease cfg" "ex_batch ex = c_worker_batch_size cfg"
    by (simp_all add: assms(2) wire_def new_executor_def)
  have batch: "0 \<le> c_worker_batch_size cfg" "c_worker_batch_size cfg \<le> 100"
    using config_load_ok [OF assms(1)] by (simp_all add: config_ok_def)
  have "length claimed \<le> length (claim_candidates db (ex_batch ex) (en_now en 0))"
    using claim_jobs_Inr(1) [OF assms(3,5)] by (simp add: List.map_filter_def)
  also have "\<dots> \<le> 100" using batch by (simp add: ex claim_candidates_def sql_limit_def)
  finally have "length claimed \<le> 100" .
  moreover have "claimed = [] \<and> process_once en ex (\<lambda>_. False) schedule gateway clock db = (db, Inr ())"
    if "\<not> (second \<le> c_worker_lease cfg \<and> c_worker_lease cfg \<le> 10 * minute)"
  proof -
    have "claimed = [] \<and> db1 = db" using that by (intro claims_nothing [OF assms(3,5)]) (auto simp: ex)
    then show ?thesis using assms(5,6) by (simp add: process_once_def map_error_def)
  qed
  moreover have "map j_id claimed = map j_id (filter (\<lambda>j. job_claimable j (en_now en 0))
      (claim_candidates db (c_worker_batch_size cfg) (en_now en 0)))"
    if "second \<le> c_worker_lease cfg \<and> c_worker_lease cfg \<le> 10 * minute"
    using that claims_ready [OF assms(3,5)] worker_owner [of uuid] assms(4) by (simp add: ex countable_attempts_def)
  ultimately show ?thesis by simp
qed

text \<open>The scenario with a lease of a quarter of an hour: the one due job is not executed.\<close>

theorem configured_worker_claims_witness:
  "\<exists>cfg. config_load demo_environ demo_durations = Inr cfg \<and> job_due demo_now demo_job \<and> demo_job \<in> set (jobs demo9)
    \<and> process_once (demo_env ''t'') (ap_executor (wire demo_libs (\<lambda>_. None) (\<lambda>_. Inr 0) (\<lambda>k rs. rs) ''u'' cfg))
        (\<lambda>_. False) (\<lambda>js. js) (\<lambda>_. None) (\<lambda>_. demo_now) demo9 = (demo9, Inr ())"
proof -
  obtain cfg where cfg: "config_load demo_environ demo_durations = Inr cfg" "c_worker_lease cfg = 15 * minute"
    by (rule demo_config)
  let ?ex = "ap_executor (wire demo_libs (\<lambda>_. None) (\<lambda>_. Inr 0) (\<lambda>k rs. rs) ''u'' cfg)"
  have "\<exists>db1 claimed. claim_jobs TxCommits (\<lambda>_. False) demo9 (ex_owner ?ex) (ex_batch ?ex) demo_now (ex_lease ?ex) = Inr (db1, claimed)"
    by (simp add: claim_jobs_def in_tx_def)
  then obtain db1 claimed where c: "claim_jobs (en_tx (demo_env ''t'')) (\<lambda>_. False) demo9 (ex_owner ?ex) (ex_batch ?ex)
      (en_now (demo_env ''t'') 0) (ex_lease ?ex) = Inr (db1, claimed)" by auto
  have "keys_ok demo9" by (rule run_keys [OF demo_history_runs demo_history_last(1)])
  moreover have "\<forall>j \<in> set (jobs demo9). 0 \<le> j_attempts j \<and> j_attempts j < 9223372036854775807 \<and> 0 < j_max_attempts j"
    by (simp add: demo_job_def)
  ultimately have "process_once (demo_env ''t'') ?ex (\<lambda>_. False) (\<lambda>js. js) (\<lambda>_. None) (\<lambda>_. demo_now) demo9 = (demo9, Inr ())"
    using configured_worker_claims [OF cfg(1) refl _ _ c, of "\<lambda>js. js" "\<lambda>_. None" "\<lambda>_. demo_now"] by (simp add: cfg(2))
  moreover have "job_due demo_now demo_job" by (simp add: job_due_def demo_job_def)
  ultimately show ?thesis using cfg(1) by auto
qed

text \<open>
  C30. The loop of the configured worker drains the queue: with a configured lease between a second
  and ten minutes, the gateway the program wires, a database that answers, and every job that has not
  succeeded due whenever a cycle starts, \<open>Run\<close> has brought every job to success after as many cycles as there
  are batches of such jobs, and lost none.
\<close>

theorem worker_drains_queue:
  assumes "config_load getenv parse = Inr cfg" "second \<le> c_worker_lease cfg" "c_worker_lease cfg \<le> 10 * minute"
    and "ex = ap_executor (wire lib load_location ptime visit uuid cfg)" "trim_space (ex_owner ex) = ex_owner ex"
    and "keys_ok db" "\<forall>c \<in> set (first # ticks). calm_cycle (ex_lease ex) c"
    and "\<forall>start \<in> set (cycle_starts ex created created (first # ticks)).
      \<forall>j \<in> set (jobs db). j_status j = JobSucceeded \<or> ready_job start j"
    and "card (open_jobs db) \<le> nat (c_worker_batch_size cfg) * Suc (length ticks)"
    and "executor_run ex created first ticks ended db = (ex', db', e)"
  shows "map j_id (jobs db') = map j_id (jobs db) \<and> (\<forall>j \<in> set (jobs db'). j_status j = JobSucceeded)"
proof -
  have ex: "ex_owner ex = ''worker-'' @ uuid" "ex_lease ex = c_worker_lease cfg" "ex_batch ex = c_worker_batch_size cfg"
    "\<not> ex_running ex" by (simp_all add: assms(4) wire_def new_executor_def)
  have "within_policy ex"
    using config_load_ok [OF assms(1)] assms(2,3,5) worker_owner [of uuid] by (simp add: within_policy_def ex config_ok_def)
  from executor_run_drains [OF assms(6) this ex(4) assms(7,8,10)] show ?thesis using assms(9) by (simp add: ex)
qed

definition demo_cycle :: cycle where
  "demo_cycle = \<lparr>cy_env = demo_env ''t'', cy_refused = (\<lambda>_. False), cy_schedule = (\<lambda>js. js),
     cy_gateway = local_gateway None, cy_delay = (\<lambda>_. 5 * millisecond), cy_took = 6 * millisecond, cy_late = 0, cy_meanwhile = (\<lambda>db. db)\<rparr>"

theorem worker_drains_queue_witness:
  "\<exists>cfg. config_load (\<lambda>_. '''') demo_durations = Inr cfg
    \<and> (\<forall>j \<in> set (jobs (fst (snd (executor_run (ap_executor (wire demo_libs (\<lambda>_. None) (\<lambda>_. Inr 0) (\<lambda>k rs. rs) ''u'' cfg))
          demo_now demo_cycle [] err_canceled demo9)))). j_status j = JobSucceeded)
    \<and> map j_id (jobs (fst (snd (executor_run (ap_executor (wire demo_libs (\<lambda>_. None) (\<lambda>_. Inr 0) (\<lambda>k rs. rs) ''u'' cfg))
          demo_now demo_cycle [] err_canceled demo9)))) = [''send'']"
proof -
  have "case config_load (\<lambda>_. '''') demo_durations of Inl e \<Rightarrow> False
    | Inr cfg \<Rightarrow> c_worker_lease cfg = 20 * second \<and> c_worker_batch_size cfg = 8" by code_simp
  then obtain cfg where cfg: "config_load (\<lambda>_. '''') demo_durations = Inr cfg" "c_worker_lease cfg = 20 * second"
    "c_worker_batch_size cfg = 8" by (auto split: sum.splits)
  let ?ex = "ap_executor (wire demo_libs (\<lambda>_. None) (\<lambda>_. Inr 0) (\<lambda>k rs. rs) ''u'' cfg)"
  obtain ex' db' e where run: "executor_run ?ex demo_now demo_cycle [] err_canceled demo9 = (ex', db', e)" by (metis surj_pair)
  have "trim_space (''worker-'' @ ''u'') = ''worker-'' @ ''u''" by code_simp
  then have owner: "trim_space (ex_owner ?ex) = ex_owner ?ex" by (simp add: wire_def new_executor_def)
  have "ex_lease ?ex = 20 * second" by (simp add: wire_def new_executor_def cfg(2))
  then have calm: "\<forall>c \<in> set [demo_cycle]. calm_cycle (ex_lease ?ex) c"
    by (simp add: cycle_defs demo_cycle_def) (simp add: demo_env_def)
  have "ready_job demo_now demo_job"
    by (simp add: ready_job_def job_due_def job_claimable_iff countable_attempts_def demo_job_def)
  then have ready: "\<forall>start \<in> set (cycle_starts ?ex demo_now demo_now [demo_cycle]).
      \<forall>j \<in> set (jobs demo9). j_status j = JobSucceeded \<or> ready_job start j"
    by simp
  have "open_jobs demo9 \<subseteq> {j_id demo_job}" by (auto simp: open_jobs_def)
  then have "card (open_jobs demo9) \<le> 1" using card_mono [of "{j_id demo_job}"] by fastforce
  then have "card (open_jobs demo9) \<le> nat (c_worker_batch_size cfg) * Suc (length ([] :: cycle list))" by (simp add: cfg(3))
  from worker_drains_queue [OF cfg(1) _ _ refl owner run_keys [OF demo_history_runs demo_history_last(1)] calm ready this run]
  have "map j_id (jobs db') = map j_id (jobs demo9) \<and> (\<forall>j \<in> set (jobs db'). j_status j = JobSucceeded)" by (simp add: cfg(2))
  moreover have "map j_id (jobs demo9) = [''send'']" by (simp add: demo_job_def)
  ultimately show ?thesis using cfg(1) run by auto
qed
end
