(* ===== verification/Process.thy ===== *)
theory Process
  imports App SystemInv
begin

text \<open>
  The process as a whole: what \<open>internal/app\<close> wired, at work.  Requests arrive, are authenticated and
  then handled, the executor claims jobs and its goroutines report one by one, maintenance ticks; the
  process stops and another one starts on the database it left.

  The state of a process carries the history of the database, the newest state first.  A request is an
  event for its authentication and one for its handler, a batch one for each of its identifiers, and a
  cycle of the executor one for the claim and one for each report, so that these interleave in any
  order.  A call answers its queries from a glimpse of the history, which may be older than the state
  its statement or transaction writes to: in between other events may have happened.  The event in the
  audit log that a call outside a transaction writes after its statement may be an event of its own.
  Every event is at most one call of \<open>System\<close>: what processes leave in the database is a state of a run.
\<close>

section \<open>The state of a process\<close>

record handled_request =
  hr_ens :: "nat \<Rightarrow> env"
  hr_request :: http_request
  hr_request_id :: string
  hr_principal :: principal
  hr_next :: nat

record process =
  pc_history :: "database list"
  pc_waiting :: "handled_request list"
  pc_open :: "job list"

definition process_start :: "database \<Rightarrow> process" where
  "process_start db = \<lparr>pc_history = [db], pc_waiting = [], pc_open = []\<rparr>"

definition pc_db :: "process \<Rightarrow> database" where
  "pc_db s = hd (pc_history s)"

definition written :: "database \<Rightarrow> process \<Rightarrow> process" where
  "written db s = (if db = pc_db s then s else s\<lparr>pc_history := db # pc_history s\<rparr>)"

text \<open>What the queries of a call see is chosen from the history: a glimpse of it.\<close>

definition seen_in :: "(database list \<Rightarrow> database) \<Rightarrow> process \<Rightarrow> database" where
  "seen_in see s = (if glimpse (pc_history s) (see (pc_history s)) then see (pc_history s) else pc_db s)"

section \<open>Events\<close>

text \<open>
  A request arrives.  One to a protected route is authenticated, and then waits for its handler; any
  other is answered.
\<close>

definition arrive ::
    "http_server \<Rightarrow> (nat \<Rightarrow> env) \<Rightarrow> go_error option \<Rightarrow> string res \<Rightarrow> http_request \<Rightarrow> database \<Rightarrow> process \<Rightarrow> process" where
  "arrive sv ens failed random rq rd s =
     (let rid = request_id_from random (rq_request_id rq) in
      if protected_route rq then
        (case authenticate (ens 0) (sv_libs sv) (sv_auth sv) rd (pc_db s) (bearer_token (rq_authorization rq)) of
           (db, Inl e) \<Rightarrow> written db s
         | (db, Inr p) \<Rightarrow> (written db s)\<lparr>pc_waiting := pc_waiting s @
             [\<lparr>hr_ens = ens, hr_request = rq, hr_request_id = rid, hr_principal = p, hr_next = 0\<rparr>]\<rparr>)
      else written (fst (serve_public sv (ens 0) failed rq rid rd (pc_db s))) s)"

definition drop_nth :: "nat \<Rightarrow> 'a list \<Rightarrow> 'a list" where
  "drop_nth k xs = take k xs @ drop (Suc k) xs"

definition batch_request :: "http_request \<Rightarrow> bool" where
  "batch_request rq \<longleftrightarrow> is_post rq \<and> (case route_path rq of
      [_, a, b] \<Rightarrow> a = ''alarms'' \<and> b = ''batch-acknowledge'' | _ \<Rightarrow> False)"

text \<open>
  The handler of a batch takes the identifiers in their order, each with a query and a transaction of
  its own, and skips those it has seen.
\<close>

definition batch_next :: "handled_request \<Rightarrow> database \<Rightarrow> database \<Rightarrow> database" where
  "batch_next w rd db =
     (case body_of (hr_request w) js_batch of
        Inl e \<Rightarrow> db
      | Inr b \<Rightarrow> (let k = hr_next w; aid = bb_ids b ! k in
          if aid \<in> set (take k (bb_ids b)) then db
          else fst (acknowledge_alarm (hr_ens w (Suc k)) rd db (hr_principal w) aid (version_of (bb_versions b) aid) (hr_request_id w))))"

definition batch_more :: "handled_request \<Rightarrow> bool" where
  "batch_more w \<longleftrightarrow>
     (case body_of (hr_request w) js_batch of Inl e \<Rightarrow> False | Inr b \<Rightarrow> hr_next w < length (bb_ids b))"

text \<open>The handler of one of the requests that wait, or the next identifier of its batch.\<close>

definition handle_waiting :: "http_server \<Rightarrow> nat \<Rightarrow> database \<Rightarrow> process \<Rightarrow> process" where
  "handle_waiting sv k rd s =
     (if k < length (pc_waiting s) then
        (let w = pc_waiting s ! k in
         if batch_request (hr_request w) then
           (if batch_more w
            then (written (batch_next w rd (pc_db s)) s)\<lparr>pc_waiting := (pc_waiting s)[k := w\<lparr>hr_next := Suc (hr_next w)\<rparr>]\<rparr>
            else s\<lparr>pc_waiting := drop_nth k (pc_waiting s)\<rparr>)
         else (written (fst (serve_protected sv (hr_ens w) (hr_request w) (hr_request_id w) (Some (hr_principal w)) rd (pc_db s))) s)
           \<lparr>pc_waiting := drop_nth k (pc_waiting s)\<rparr>)
      else s)"

text \<open>The audit log gets an event whose statement follows that of its call at some distance.\<close>

definition write_audit :: "event \<Rightarrow> process \<Rightarrow> process" where
  "write_audit e s = (case insert_audit e (pc_db s) of Inl _ \<Rightarrow> s | Inr db \<Rightarrow> written db s)"

text \<open>
  The first half of \<open>ProcessOnce\<close>, which waits for the goroutines of the cycle before: the claimed jobs
  are open until their goroutines report.
\<close>

definition claim_due :: "executor \<Rightarrow> env \<Rightarrow> (string \<Rightarrow> bool) \<Rightarrow> process \<Rightarrow> process" where
  "claim_due ex en refused s =
     (if pc_open s = [] then
        (case claim_jobs (en_tx en) refused (pc_db s) (ex_owner ex) (ex_batch ex) (en_now en 0) (ex_lease ex) of
           Inl e \<Rightarrow> s
         | Inr (db, claimed) \<Rightarrow> (written db s)\<lparr>pc_open := claimed\<rparr>)
      else s)"

definition report_open :: "executor \<Rightarrow> env \<Rightarrow> go_error option \<Rightarrow> time \<Rightarrow> nat \<Rightarrow> process \<Rightarrow> process" where
  "report_open ex en outcome now k s =
     (if k < length (pc_open s) then
        (written (execute en ex outcome now (pc_open s ! k) (pc_db s)) s)\<lparr>pc_open := drop_nth k (pc_open s)\<rparr>
      else s)"

datatype process_event =
    Arrive "nat \<Rightarrow> env" "go_error option" "string res" http_request "database list \<Rightarrow> database"
  | Handle nat "database list \<Rightarrow> database"
  | WriteAudit event
  | ClaimDue env "string \<Rightarrow> bool"
  | ReportOpen env "go_error option" time nat
  | MaintenanceTick env

fun happen :: "application \<Rightarrow> process_event \<Rightarrow> process \<Rightarrow> process" where
  "happen ap (Arrive ens failed random rq see) s = arrive (ap_server ap) ens failed random rq (seen_in see s) s"
| "happen ap (Handle k see) s = handle_waiting (ap_server ap) k (seen_in see s) s"
| "happen ap (WriteAudit e) s = write_audit e s"
| "happen ap (ClaimDue en refused) s = claim_due (ap_executor ap) en refused s"
| "happen ap (ReportOpen en outcome now k) s = report_open (ap_executor ap) en outcome now k s"
| "happen ap (MaintenanceTick en) s = written (maintenance_tick en (pc_db s)) s"

definition serving :: "process_event list \<Rightarrow> application \<Rightarrow> database \<Rightarrow> database" where
  "serving events ap db = pc_db (fold (happen ap) events (process_start db))"

section \<open>Processes one after the other\<close>

text \<open>The process of \<open>cmd/server\<close> from its start to its end; requests and goroutines it leaves open are lost with it.\<close>

record lifetime =
  lt_open :: "schema \<Rightarrow> schema \<times> string res"
  lt_env :: env
  lt_libs :: auth_libs
  lt_load_location :: "string \<Rightarrow> go_error option"
  lt_parse_time :: "string \<Rightarrow> time res"
  lt_visit :: "nat \<Rightarrow> ratings \<Rightarrow> ratings"
  lt_config :: config
  lt_events :: "process_event list"
  lt_stop :: stop
  lt_shutdown :: "go_error option"
  lt_waited :: "go_error option"

definition live :: "lifetime \<Rightarrow> schema \<times> database \<Rightarrow> schema \<times> database" where
  "live lt sd = fst (app_run (lt_open lt) (lt_env lt) (lt_libs lt) (lt_load_location lt) (lt_parse_time lt) (lt_visit lt)
     (lt_config lt) (serving (lt_events lt)) (lt_stop lt) (lt_shutdown lt) (lt_waited lt) sd)"

section \<open>What the events rely on\<close>

text \<open>
  UUIDs are not blank; a body within the limit of \<open>http.MaxBytesReader\<close> names no more clusters than
  it has bytes; and Go visits every entry of a map.
\<close>

definition body_fits :: "i64 \<Rightarrow> http_request \<Rightarrow> bool" where
  "body_fits limit rq \<longleftrightarrow>
     (case js_submit (rq_json rq) of Inl e \<Rightarrow> True | Inr b \<Rightarrow> int (length (sb_cluster_ids b)) \<le> limit)"

definition request_ok :: "i64 \<Rightarrow> (nat \<Rightarrow> env) \<Rightarrow> http_request \<Rightarrow> bool" where
  "request_ok limit ens rq \<longleftrightarrow> (\<forall>k. env_ok (ens k)) \<and> body_fits limit rq"

fun event_ok :: "i64 \<Rightarrow> process_event \<Rightarrow> bool" where
  "event_ok limit (Arrive ens failed random rq see) = request_ok limit ens rq"
| "event_ok limit ev = True"

definition lifetime_ok :: "lifetime \<Rightarrow> bool" where
  "lifetime_ok lt \<longleftrightarrow> config_ok (lt_config lt) \<and> visits_all (lt_visit lt)
     \<and> (\<forall>ev \<in> set (lt_events lt). event_ok (c_max_request_bytes (lt_config lt)) ev)"

section \<open>Every handler is at most one call\<close>

definition one_call :: "database \<Rightarrow> database \<Rightarrow> database \<Rightarrow> bool" where
  "one_call rd db db' \<longleftrightarrow> db' = db \<or> action rd db db'"

lemma one_call_same [simp]: "one_call rd db db"
  by (simp add: one_call_def)

lemma one_call_checked: "(\<And>x. r = Inr x \<Longrightarrow> one_call rd db (fst (k x))) \<Longrightarrow> one_call rd db (fst (checked r db k))"
  by (cases r) auto

lemma decoded_body: "body_of rq field = Inr b \<Longrightarrow> field (rq_json rq) = Inr b"
  by (auto simp: body_of_def decode_json_def split: sum.splits if_splits)

lemma service_calls:
  "one_call rd db (fst (login en lib s rd db li))" "one_call rd db (fst (logout en db p req))"
  "one_call rd db (fst (authenticate en lib s rd db token))" "one_call rd db (fst (bootstrap en lib rd db nu))"
  "one_call rd db (fst (create_site en ll db p ns req))" "one_call rd db (fst (transition_site en rd db p sid st v req))"
  "one_call rd db (fst (create_plan en rd db p np req))"
  "one_call rd db (fst (approve_plan en rd db p sid v req))" "one_call rd db (fst (dispatch_plan en rd db p sid v req))"
  "one_call rd db (fst (record_telemetry en th rd db p rd' req))"
  "one_call rd db (fst (acknowledge_alarm en rd db p sid v req))" "one_call rd db (fst (resolve_alarm en th rd db p sid v req))"
  "one_call rd db (fst (cleanup en db))"
  unfolding one_call_def
  by (rule disjI2, rule a_login a_logout a_authenticate a_bootstrap a_create_site a_transition_site
      a_create_plan a_approve_plan a_dispatch_plan a_record_telemetry a_acknowledge a_resolve a_cleanup, rule surjective_pairing)+

lemma cluster_call: "env_ok en \<Longrightarrow> one_call rd db (fst (create_cluster en rd db p nc req))"
  unfolding one_call_def by (intro disjI2 a_create_cluster) (auto intro: surjective_pairing)

lemma submit_call: "visits_all visit \<Longrightarrow> length (sp_cluster_ids sp) \<le> 4000000000000 \<Longrightarrow>
    one_call rd db (fst (submit_plan en visit rd db p sp req))"
  unfolding one_call_def by (intro disjI2 a_submit_plan) (auto intro: surjective_pairing)

lemma handler_calls:
  assumes ens: "\<And>k. env_ok (ens k)" and body: "body_fits limit rq" and limit: "limit \<le> 4000000000000"
    and visit: "visits_all (sv_visit sv)"
  shows "one_call rd db (fst (handle_login sv en rq rid rd db))" "one_call rd db (fst (handle_logout en rq rid p db))"
    "one_call rd db (fst (handle_create_site sv en rq rid p db))" "one_call rd db (fst (handle_list_sites en rq rid p rd db))"
    "one_call rd db (fst (handle_transition_site en rq rid b p rd db))"
    "one_call rd db (fst (handle_create_cluster (ens i) rq rid b p rd db))"
    "one_call rd db (fst (handle_create_plan sv en rq rid p rd db))" "one_call rd db (fst (handle_get_plan en rq rid b p rd db))"
    "one_call rd db (fst (handle_list_plans en rq rid p rd db))" "one_call rd db (fst (handle_submit_plan sv en rq rid b p rd db))"
    "one_call rd db (fst (handle_approve_plan en rq rid b p rd db))" "one_call rd db (fst (handle_dispatch_plan en rq rid b p rd db))"
    "one_call rd db (fst (handle_record_telemetry sv en rq rid p rd db))"
    "one_call rd db (fst (handle_acknowledge_alarm en rq rid b p rd db))"
    "one_call rd db (fst (handle_resolve_alarm sv en rq rid b p rd db))"
    "one_call rd db (fst (handle_health now rid db))" "one_call rd db (fst (handle_readiness failed rq rid db))"
    "one_call rd db (fst (mux_reply st rid db))"
proof -
  have "length (sb_cluster_ids x) \<le> 4000000000000" if "body_of rq js_submit = Inr x" for x
    using decoded_body [OF that] body limit by (simp add: body_fits_def)
  then show "one_call rd db (fst (handle_submit_plan sv en rq rid b p rd db))"
    by (auto simp: handle_submit_plan_def intro!: one_call_checked submit_call [OF visit])
qed (auto simp: handler_defs intro!: one_call_checked service_calls cluster_call ens)

lemma route_list_eq: "(xs = [] \<Longrightarrow> Q (fst x)) \<Longrightarrow> (\<And>a as. xs = a # as \<Longrightarrow> Q (fst (f a as)))
    \<Longrightarrow> Q (fst (case xs of [] \<Rightarrow> x | a # as \<Rightarrow> f a as))"
  by (cases xs) auto

lemma serve_calls:
  assumes "request_ok limit ens rq" "limit \<le> 4000000000000" "visits_all (sv_visit sv)"
  shows "\<not> batch_request rq \<Longrightarrow> one_call rd db (fst (serve_protected sv ens rq rid p rd db))"
    "one_call rd db (fst (serve_public sv (ens 0) failed rq rid rd db))"
proof -
  have ens: "\<And>k. env_ok (ens k)" and body: "body_fits limit rq" using assms(1) by (simp_all add: request_ok_def)
  note handlers = handler_calls [OF ens body assms(2,3)]
  show "one_call rd db (fst (serve_public sv (ens 0) failed rq rid rd db))"
    unfolding serve_public_def
    by (intro route_if [where Q = "one_call rd db"] route_list [where Q = "one_call rd db"] handlers)
  assume "\<not> batch_request rq"
  then show "one_call rd db (fst (serve_protected sv ens rq rid p rd db))"
    unfolding serve_protected_def Let_def
    by (intro route_if [where Q = "one_call rd db"] route_list_eq [where Q = "one_call rd db"] handlers)
      (auto simp: batch_request_def)
qed

lemma batch_call: "one_call rd db (batch_next w rd db)"
  by (auto simp: batch_next_def Let_def intro: service_calls split: sum.split)

section \<open>The history of a process\<close>

text \<open>The states of the process follow those that were there before it, and the whole is a run.\<close>

definition history_of :: "i64 \<Rightarrow> database list \<Rightarrow> process \<Rightarrow> bool" where
  "history_of limit older s \<longleftrightarrow> pc_history s \<noteq> [] \<and> run (pc_history s @ older)
     \<and> (\<forall>j \<in> set (pc_open s). \<exists>d \<in> set (pc_history s @ older). j \<in> set (jobs d))
     \<and> (\<forall>w \<in> set (pc_waiting s). request_ok limit (hr_ens w) (hr_request w))"

lemma set_drop_nth: "set (drop_nth k xs) \<subseteq> set xs"
  by (auto simp: drop_nth_def dest: in_set_takeD in_set_dropD)

lemma glimpse_older: "glimpse h rd \<Longrightarrow> glimpse (h @ older) rd"
  unfolding glimpse_def seen_rows_def by (auto 0 4)

lemma pc_db_mem: "pc_history s \<noteq> [] \<Longrightarrow> pc_db s \<in> set (pc_history s)"
  by (simp add: pc_db_def)

lemma seen_in_glimpse: "pc_history s \<noteq> [] \<Longrightarrow> glimpse (pc_history s) (seen_in see s)"
  by (simp add: seen_in_def glimpse_state pc_db_mem)

lemma written_frame [simp]: "pc_waiting (written db s) = pc_waiting s" "pc_open (written db s) = pc_open s"
  "pc_history s \<noteq> [] \<Longrightarrow> pc_history (written db s) \<noteq> []"
  by (simp_all add: written_def)

definition grown_by :: "nat \<Rightarrow> process \<Rightarrow> process \<Rightarrow> bool" where
  "grown_by n s s' \<longleftrightarrow> (\<exists>es. pc_history s' = es @ pc_history s \<and> length es \<le> n)"

lemma grown_by_refl [simp]: "grown_by n s s"
  by (simp add: grown_by_def)

lemma grown_by_trans: "grown_by m s s1 \<Longrightarrow> grown_by n s1 s2 \<Longrightarrow> grown_by (m + n) s s2"
  unfolding grown_by_def by (metis append.assoc add.commute add_mono length_append)

lemma written_history: "pc_db (written db s) = db" "grown_by 1 s (written db s)"
  "set (pc_history s) \<subseteq> set (pc_history (written db s))"
  by (auto simp: written_def pc_db_def grown_by_def)

text \<open>A call extends the history by one state at most.\<close>

lemma history_write:
  assumes hist: "history_of limit older s" and rd: "glimpse (pc_history s @ older) rd" and call: "one_call rd (pc_db s) db"
    and s': "pc_history s' = pc_history (written db s)"
      "\<forall>j \<in> set (pc_open s'). \<exists>d \<in> set (pc_history s' @ older). j \<in> set (jobs d)"
      "\<forall>w \<in> set (pc_waiting s'). request_ok limit (hr_ens w) (hr_request w)"
  shows "history_of limit older s' \<and> grown_by 1 s s'"
proof -
  have "run (pc_history s' @ older)"
  proof (cases "db = pc_db s")
    case True
    then show ?thesis using hist by (simp add: s'(1) written_def history_of_def)
  next
    case False
    from hist obtain h where h: "pc_history s = pc_db s # h" by (cases "pc_history s") (auto simp: pc_db_def history_of_def)
    have "action rd (pc_db s) db" using call False by (simp add: one_call_def)
    then show ?thesis
      using run_step [of "pc_db s" "h @ older" rd db] hist rd False by (simp add: s'(1) written_def h history_of_def)
  qed
  then show ?thesis using hist s' written_history(2) [of s db] by (simp add: history_of_def grown_by_def)
qed

text \<open>The events that open no job and let no request wait are such calls.\<close>

lemma history_keep:
  assumes hist: "history_of limit older s" and rd: "glimpse (pc_history s) rd" and call: "one_call rd (pc_db s) db"
    and s': "pc_history s' = pc_history (written db s)" "set (pc_open s') \<subseteq> set (pc_open s)"
      "\<forall>w \<in> set (pc_waiting s'). w \<in> set (pc_waiting s) \<or> request_ok limit (hr_ens w) (hr_request w)"
  shows "history_of limit older s' \<and> grown_by 1 s s'"
proof (rule history_write [OF hist glimpse_older [OF rd] call s'(1)])
  show "\<forall>j \<in> set (pc_open s'). \<exists>d \<in> set (pc_history s' @ older). j \<in> set (jobs d)"
    using hist s'(1,2) written_history(3) [of s db] unfolding history_of_def by auto blast
  show "\<forall>w \<in> set (pc_waiting s'). request_ok limit (hr_ens w) (hr_request w)"
    using hist s'(3) by (auto simp: history_of_def)
qed

text \<open>The jobs a claim opens are in the state it leaves, and stay in the history for their reports.\<close>

lemma history_claim:
  fixes ex :: executor and en :: env and refused :: "string \<Rightarrow> bool"
  assumes hist: "history_of limit older s"
  defines "s' \<equiv> claim_due ex en refused s"
  shows "history_of limit older s' \<and> grown_by 1 s s'"
proof (cases "pc_open s = [] \<and> (\<exists>db claimed. claim_jobs (en_tx en) refused (pc_db s) (ex_owner ex) (ex_batch ex)
    (en_now en 0) (ex_lease ex) = Inr (db, claimed))")
  case True
  then obtain db claimed where claim: "claim_jobs (en_tx en) refused (pc_db s) (ex_owner ex) (ex_batch ex)
      (en_now en 0) (ex_lease ex) = Inr (db, claimed)" and none: "pc_open s = []" by blast
  have s': "s' = (written db s)\<lparr>pc_open := claimed\<rparr>" using claim none by (simp add: s'_def claim_due_def)
  have ne: "pc_history s \<noteq> []" using hist by (simp add: history_of_def)
  have "keys_ok (pc_db s)" using hist ne by (auto simp: history_of_def pc_db_def intro!: run_keys)
  then have "\<forall>j \<in> set claimed. j \<in> set (jobs (pc_db (written db s)))"
    using claimed_row(1) [OF _ claim] written_history(1) by auto
  moreover have "one_call (pc_db s) (pc_db s) db" using a_claim [OF claim] by (simp add: one_call_def)
  ultimately show ?thesis
    using hist pc_db_mem [of "written db s"] ne
    by (intro history_write [OF hist glimpse_state]) (auto simp: s' history_of_def pc_db_mem)
next
  case False
  then have "s' = s" by (auto simp: s'_def claim_due_def split: sum.split)
  with hist show ?thesis by simp
qed

lemma history_report:
  fixes ex :: executor and en :: env and outcome :: "go_error option" and now :: time and k :: nat
  assumes hist: "history_of limit older s"
  defines "s' \<equiv> report_open ex en outcome now k s"
  shows "history_of limit older s' \<and> grown_by 1 s s'"
proof (cases "k < length (pc_open s)")
  case True
  let ?j = "pc_open s ! k"
  have s': "s' = (written (execute en ex outcome now ?j (pc_db s)) s)\<lparr>pc_open := drop_nth k (pc_open s)\<rparr>"
    using True by (simp add: s'_def report_open_def)
  have "?j \<in> set (pc_open s)" using True by simp
  then obtain d where d: "d \<in> set (pc_history s @ older)" "?j \<in> set (jobs d)" using hist unfolding history_of_def by blast
  have call: "one_call d (pc_db s) (execute en ex outcome now ?j (pc_db s))" using a_report [OF d(2) refl] by (simp add: one_call_def)
  show ?thesis
  proof (rule history_write [OF hist glimpse_state [OF d(1)] call])
    show "\<forall>j \<in> set (pc_open s'). \<exists>d \<in> set (pc_history s' @ older). j \<in> set (jobs d)"
      using hist set_drop_nth [of k "pc_open s"] written_history(3) [of s] unfolding s' history_of_def by simp blast
  qed (use hist in \<open>simp_all add: s' history_of_def\<close>)
next
  case False
  with hist show ?thesis by (simp add: s'_def report_open_def)
qed

lemma history_arrive:
  fixes failed :: "go_error option" and random :: "string res"
  assumes hist: "history_of limit older s" and rq: "request_ok limit ens rq" and rd: "glimpse (pc_history s) rd"
    and limit: "limit \<le> 4000000000000" and visit: "visits_all (sv_visit sv)"
  defines "s' \<equiv> arrive sv ens failed random rq rd s"
  shows "history_of limit older s' \<and> grown_by 1 s s'"
proof (cases "protected_route rq")
  case True
  note call = service_calls(3) [of rd "pc_db s" "ens 0" "sv_libs sv" "sv_auth sv" "bearer_token (rq_authorization rq)"]
  show ?thesis
    using True rq by (intro history_keep [OF hist rd call]) (auto simp: s'_def arrive_def Let_def split: prod.split sum.split)
next
  case False
  then show ?thesis
    by (intro history_keep [OF hist rd serve_calls(2) [OF rq limit visit]]) (auto simp: s'_def arrive_def Let_def)
qed

lemma history_handle:
  fixes k :: nat
  assumes hist: "history_of limit older s" and rd: "glimpse (pc_history s) rd"
    and limit: "limit \<le> 4000000000000" and visit: "visits_all (sv_visit sv)"
  defines "s' \<equiv> handle_waiting sv k rd s"
  shows "history_of limit older s' \<and> grown_by 1 s s'"
proof (cases "k < length (pc_waiting s)")
  case True
  let ?w = "pc_waiting s ! k"
  have rq: "request_ok limit (hr_ens ?w) (hr_request ?w)" using hist True by (simp add: history_of_def)
  have rest: "\<forall>w \<in> set (drop_nth k (pc_waiting s)). w \<in> set (pc_waiting s) \<or> request_ok limit (hr_ens w) (hr_request w)"
    using set_drop_nth by fastforce
  consider "\<not> batch_request (hr_request ?w)" | "batch_request (hr_request ?w)" "batch_more ?w"
    | "batch_request (hr_request ?w)" "\<not> batch_more ?w" by blast
  then show ?thesis
  proof cases
    case 1
    show ?thesis
      using True 1 rest by (intro history_keep [OF hist rd serve_calls(1) [OF rq limit visit 1]])
        (auto simp: s'_def handle_waiting_def Let_def)
  next
    case 2
    have "\<forall>w \<in> set ((pc_waiting s)[k := ?w\<lparr>hr_next := Suc (hr_next ?w)\<rparr>]). w \<in> set (pc_waiting s) \<or> request_ok limit (hr_ens w) (hr_request w)"
      using rq by (auto dest!: set_update_subset_insert [THEN subsetD])
    then show ?thesis
      using True 2 by (intro history_keep [OF hist rd batch_call]) (auto simp: s'_def handle_waiting_def Let_def)
  next
    case 3
    show ?thesis
      using True 3 rest by (intro history_keep [OF hist rd one_call_same])
        (auto simp: s'_def handle_waiting_def Let_def written_def)
  qed
next
  case False
  with hist show ?thesis by (simp add: s'_def handle_waiting_def)
qed

lemma history_event:
  assumes hist: "history_of limit older s" and ok: "event_ok limit ev"
    and limit: "limit \<le> 4000000000000" and visit: "visits_all (sv_visit (ap_server ap))"
  defines "s' \<equiv> happen ap ev s"
  shows "history_of limit older s' \<and> grown_by 1 s s'"
proof -
  have ne: "pc_history s \<noteq> []" using hist by (simp add: history_of_def)
  note rd = seen_in_glimpse [OF ne] and now = glimpse_state [OF pc_db_mem [OF ne]]
  show ?thesis
  proof (cases ev)
    case (Arrive ens failed random rq see)
    with ok show ?thesis using history_arrive [OF hist _ rd limit visit] by (simp add: s'_def)
  next
    case (Handle k see)
    show ?thesis using history_handle [OF hist rd limit visit] by (simp add: s'_def Handle)
  next
    case (WriteAudit e)
    show ?thesis
    proof (cases "insert_audit e (pc_db s)")
      case (Inr db)
      then have "one_call (pc_db s) (pc_db s) db" by (auto simp: one_call_def intro: a_audit)
      then show ?thesis
        using Inr by (intro history_keep [OF hist now, of db]) (auto simp: s'_def WriteAudit write_audit_def)
    qed (use hist in \<open>simp add: s'_def WriteAudit write_audit_def\<close>)
  next
    case (ClaimDue en refused)
    show ?thesis using history_claim [OF hist] by (simp add: s'_def ClaimDue)
  next
    case (ReportOpen en outcome t k)
    show ?thesis using history_report [OF hist] by (simp add: s'_def ReportOpen)
  next
    case (MaintenanceTick en)
    show ?thesis
      using service_calls(13) by (intro history_keep [OF hist now]) (auto simp: s'_def MaintenanceTick maintenance_tick_def)
  qed
qed

text \<open>A process that serves any events, and processes that follow each other.\<close>

lemma history_events:
  assumes "history_of limit older s" "\<forall>ev \<in> set events. event_ok limit ev"
    and "limit \<le> 4000000000000" "visits_all (sv_visit (ap_server ap))"
  shows "history_of limit older (fold (happen ap) events s) \<and> grown_by (length events) s (fold (happen ap) events s)"
  using assms(1,2)
proof (induction events arbitrary: s)
  case (Cons ev events)
  from history_event [OF Cons.prems(1) _ assms(3,4)] Cons.prems(2)
  have ev: "history_of limit older (happen ap ev s)" "grown_by 1 s (happen ap ev s)" by auto
  from Cons.IH [OF ev(1)] Cons.prems(2) grown_by_trans [OF ev(2)] show ?case by fastforce
qed simp

text \<open>The first operator, and one call at most for each event.\<close>

definition life_calls :: "lifetime \<Rightarrow> nat" where
  "life_calls lt = 1 + length (lt_events lt)"

lemma bootstrap_operator_call: "one_call db db (fst (bootstrap_operator en lib cfg db))"
  using service_calls(4) [of db db en lib "bootstrap_input cfg"]
  by (auto simp: bootstrap_operator_def split: prod.split sum.split)

lemma live_cases:
  obtains "snd (live lt (s, db)) = db"
  | "snd (live lt (s, db)) = fst (bootstrap_operator (lt_env lt) (lt_libs lt) (lt_config lt) db)"
  | "snd (live lt (s, db)) = serving (lt_events lt)
      (wire (lt_libs lt) (lt_load_location lt) (lt_parse_time lt) (lt_visit lt) (en_uuid (lt_env lt) 1) (lt_config lt))
      (fst (bootstrap_operator (lt_env lt) (lt_libs lt) (lt_config lt) db))"
proof -
  obtain s1 opened where open_db: "lt_open lt s = (s1, opened)" by force
  obtain db1 booted where boot: "bootstrap_operator (lt_env lt) (lt_libs lt) (lt_config lt) db = (db1, booted)" by force
  show thesis using that by (cases opened; cases booted) (simp_all add: live_def app_run_def open_db boot)
qed

lemma live_leads:
  assumes h: "run h" "hd h = db" and lt: "lifetime_ok lt"
  shows "\<exists>ds. length ds \<le> life_calls lt \<and> run (ds @ h) \<and> hd (ds @ h) = snd (live lt (s, db))"
proof -
  let ?limit = "c_max_request_bytes (lt_config lt)"
  let ?boot = "fst (bootstrap_operator (lt_env lt) (lt_libs lt) (lt_config lt) db)"
  let ?ap = "wire (lt_libs lt) (lt_load_location lt) (lt_parse_time lt) (lt_visit lt) (en_uuid (lt_env lt) 1) (lt_config lt)"
  have limit: "?limit \<le> 4000000000000" using lt by (auto simp: lifetime_ok_def config_ok_def)
  obtain t where t: "h = db # t" using h run_nonempty by (cases h) auto
  obtain ds where ds: "length ds \<le> 1" "run (ds @ h)" "hd (ds @ h) = ?boot"
  proof (cases "?boot = db")
    case False
    then have "action db db ?boot" using bootstrap_operator_call by (auto simp: one_call_def)
    from run_next [OF h(1) [unfolded t] this] show thesis by (intro that [of "[?boot]"]) (simp_all add: t)
  qed (use h that [of "[]"] in simp)
  obtain u where u: "ds @ h = ?boot # u" using ds(2,3) run_nonempty by (cases "ds @ h") auto
  have zero: "history_of ?limit u (process_start ?boot)" using ds(2) by (simp add: history_of_def process_start_def u)
  have "\<forall>ev \<in> set (lt_events lt). event_ok ?limit ev" "visits_all (sv_visit (ap_server ?ap))"
    using lt by (simp_all add: lifetime_ok_def wire_def)
  from history_events [OF zero this(1) limit this(2)]
  obtain es where es: "pc_history (fold (happen ?ap) (lt_events lt) (process_start ?boot)) = es @ [?boot]" "length es \<le> length (lt_events lt)"
    "run (es @ ds @ h)" by (auto simp: grown_by_def process_start_def history_of_def u)
  show ?thesis
  proof (cases rule: live_cases [of lt s db])
    case 1
    then show ?thesis using h by (intro exI [of _ "[]"]) simp
  next
    case 2
    then show ?thesis using ds by (intro exI [of _ ds]) (auto simp: life_calls_def)
  next
    case 3
    have "snd (live lt (s, db)) = hd (es @ ds @ h)" unfolding 3 serving_def pc_db_def es(1) u by (cases es) simp_all
    then show ?thesis using es(2,3) ds(1) by (intro exI [of _ "es @ ds"]) (simp add: life_calls_def)
  qed
qed

lemma lives_lead:
  assumes "run h" "hd h = db" "\<forall>lt \<in> set lts. lifetime_ok lt"
  shows "\<exists>ds. length ds \<le> sum_list (map life_calls lts) \<and> run (ds @ h) \<and> hd (ds @ h) = snd (fold live lts (s, db))"
  using assms
proof (induction lts arbitrary: h s db)
  case (Cons lt lts)
  from live_leads [OF Cons.prems(1,2), of lt s] Cons.prems(3)
  obtain ds where ds: "length ds \<le> life_calls lt" "run (ds @ h)" "hd (ds @ h) = snd (live lt (s, db))" by auto
  obtain s1 db1 where live: "live lt (s, db) = (s1, db1)" by force
  from Cons.IH [OF ds(2), of db1 s1] ds(3) live Cons.prems(3)
  obtain es where es: "length es \<le> sum_list (map life_calls lts)" "run (es @ ds @ h)"
    "hd (es @ ds @ h) = snd (fold live lts (s1, db1))" by auto
  have "length (es @ ds) \<le> sum_list (map life_calls (lt # lts))" using ds(1) es(1) by simp
  moreover have "run ((es @ ds) @ h)" "hd ((es @ ds) @ h) = snd (fold live (lt # lts) (s, db))"
    using es(2,3) live by simp_all
  ultimately show ?case by blast
qed (auto intro: exI [of _ "[]"])

text \<open>What every call keeps, processes keep that follow each other.\<close>

lemma run_extends: "run (ds @ h) \<Longrightarrow> h \<noteq> [] \<Longrightarrow> keeps_rows (hd h) (hd (ds @ h))"
proof (induction ds)
  case (Cons d ds)
  obtain t where t: "ds @ h = hd (ds @ h) # t" using Cons.prems(2) by (cases "ds @ h") auto
  have "run (d # hd (ds @ h) # t)" using Cons.prems(1) by (simp flip: t)
  then obtain rd where "run (ds @ h)" "action rd (hd (ds @ h)) d" by (elim run_step_elim) (simp flip: t)
  then show ?case using Cons.IH Cons.prems(2) row_keeping.action_keeps by auto
qed simp

end
