(* ===== verification/Retry.thy ===== *)
theory Retry
  imports Drain
begin

text \<open>
  What becomes of a job when the device gateway answers as it likes: every job ends after a bounded
  number of cycles, with success or for good with a failure, and is never tried more often than its
  limit allows.
\<close>

section \<open>Jobs that wait and jobs that ended\<close>

definition settled_job :: "job \<Rightarrow> bool" where
  "settled_job j \<longleftrightarrow> j_status j \<in> {JobSucceeded, JobPermanentFailure, JobCancelled}"

text \<open>A job that has not ended is tried at least once more, even when a lost lease used up its last attempt.\<close>

definition attempts_left :: "job \<Rightarrow> nat" where
  "attempts_left j = (if settled_job j then 0 else nat (max 1 (j_max_attempts j - j_attempts j)))"

definition work_left :: "database \<Rightarrow> nat" where
  "work_left db = sum_list (map attempts_left (jobs db))"

text \<open>The next attempt of the job is due by then, or the lease that holds it has ended.\<close>

definition due_by :: "time \<Rightarrow> job \<Rightarrow> bool" where
  "due_by t j \<longleftrightarrow> countable_attempts j \<and> j_max_attempts j \<le> 9223372036854775807
     \<and> (case j_status j of
          JobPending \<Rightarrow> time_in_range (j_next_attempt_at j) \<and> j_next_attempt_at j \<le> t
        | JobRetryable \<Rightarrow> time_in_range (j_next_attempt_at j) \<and> j_next_attempt_at j \<le> t
        | JobLeased \<Rightarrow> (case j_lease_until j of None \<Rightarrow> False | Some u \<Rightarrow> time_in_range u \<and> u \<le> t)
        | _ \<Rightarrow> False)"

lemma due_by_mono: "due_by t j \<Longrightarrow> t \<le> t' \<Longrightarrow> due_by t' j"
  by (auto simp: due_by_def split: job_status.splits option.splits)

lemma second_later:
  assumes "time_in_range u" "time_in_range t" "u + second \<le> t"
  shows "encode_time u \<le> encode_time t"
proof -
  have "u div second < t div second" using assms(3) by simp
  then show ?thesis using encode_time_less_second [of u t] assms(1,2) by (simp add: less_imp_le)
qed

lemma due_by_ready:
  assumes "due_by u j" "u + second \<le> t" "time_in_range t"
  shows "ready_job t j"
proof -
  have p: "0 < second" by simp
  have "encode_time v \<le> encode_time t \<and> v \<le> t" if "time_in_range v" "v \<le> u" for v
    using second_later [OF that(1) assms(3)] that(2) assms(2) p by linarith
  then show ?thesis using assms(1)
    by (auto simp: due_by_def ready_job_def job_due_def job_claimable_iff split: job_status.splits option.splits)
qed

lemma settled_idle: "settled_job j \<Longrightarrow> \<not> job_due now j"
  by (auto simp: settled_job_def job_due_def)

section \<open>One attempt\<close>

text \<open>The row of a job after further attempts at it: not more of them than its limit, or else just one.\<close>

definition tried :: "job \<Rightarrow> job \<Rightarrow> bool" where
  "tried old row \<longleftrightarrow> j_id row = j_id old \<and> \<not> settled_job old \<and> j_max_attempts row = j_max_attempts old
     \<and> j_attempts old < j_attempts row \<and> j_attempts row \<le> max (j_max_attempts old) (j_attempts old + 1)
     \<and> (settled_job row \<or> j_attempts row < j_max_attempts row)"

lemma tried_trans: "tried a b \<Longrightarrow> tried b c \<Longrightarrow> tried a c"
  by (auto simp: tried_def)

lemma tried_less: "tried old row \<Longrightarrow> attempts_left row < attempts_left old"
  by (auto simp: tried_def attempts_left_def)

text \<open>
  The report on a claimed job: the job ended, or it waits for its next attempt, which is due a quarter
  of an hour later at most.
\<close>

lemma attempt_result:
  assumes old: "due_by t old" "job_due now old" and lease: "job_lease old owner now d = Inr j"
    and report: "job_report ex j outcome at = Inr k" and base: "ex_backoff ex = second"
    and range: "time_in_range at" "time_in_range (at + 15 * minute)"
  defines "row \<equiv> assign_job k j"
  shows "tried old row" "settled_job row \<or> due_by (at + 15 * minute) row"
proof -
  have j: "j_attempts j = j_attempts old + 1" "j_max_attempts j = j_max_attempts old" "j_id j = j_id old"
    "0 \<le> j_attempts old" "0 < j_max_attempts old" "j_max_attempts old \<le> 9223372036854775807"
    using lease old by (auto simp: job_lease_Inr due_by_def countable_attempts_def incr64_def wrap64_def)
  note f = job_report_frame [OF report]
  have row: "j_attempts row = j_attempts old + 1" "j_max_attempts row = j_max_attempts old" "j_id row = j_id old"
    "j_status row = j_status k" "j_next_attempt_at row = j_next_attempt_at k"
    using f j by (simp_all add: row_def assign_job_def)
  have ended: "settled_job row" if "\<not> j_attempts row < j_max_attempts row"
    using that row j report unfolding settled_job_def row(4)
    by (auto simp: job_report_def job_succeed_Inr job_fail_Inr Let_def split: option.splits)
  have "\<not> settled_job old" using settled_idle old(2) by blast
  then show "tried old row" using row ended by (auto simp: tried_def)
  show "settled_job row \<or> due_by (at + 15 * minute) row"
  proof (cases "settled_job row")
    case False
    then have again: "j_status k = JobRetryable" "j_attempts j < j_max_attempts j"
      "j_next_attempt_at k = at + backoff second (j_attempts j)"
      using report base unfolding settled_job_def row(4)
      by (auto simp: job_report_def job_succeed_Inr job_fail_Inr Let_def split: option.splits)
    have b: "second \<le> backoff second (j_attempts j)" "backoff second (j_attempts j) \<le> 15 * minute"
      using backoff_bounds [of second "j_attempts j"] j again(2) by (simp_all add: in_i64_def)
    then have "time_in_range (at + backoff second (j_attempts j))" using range by (auto simp: time_in_range_def)
    then show ?thesis using row again j b by (simp add: due_by_def countable_attempts_def)
  qed simp
qed

section \<open>One cycle\<close>

lemma work_left_rows:
  assumes "keys_ok db"
  shows "work_left db = (\<Sum>i \<in> j_id ` set (jobs db). attempts_left (the (find_key j_id i (jobs db))))"
proof -
  have dist: "distinct (map j_id (jobs db))" using assms by (simp add: keys_ok_def)
  then have inj: "distinct (jobs db)" "inj_on j_id (set (jobs db))" by (simp_all add: distinct_map)
  have "(\<Sum>i \<in> j_id ` set (jobs db). attempts_left (the (find_key j_id i (jobs db))))
      = (\<Sum>j \<in> set (jobs db). attempts_left (the (find_key j_id (j_id j) (jobs db))))"
    using inj(2) by (simp add: sum.reindex)
  also have "\<dots> = (\<Sum>j \<in> set (jobs db). attempts_left j)"
    using find_key_in_set [OF dist] by (intro sum.cong) auto
  finally show ?thesis using inj(1) by (simp add: work_left_def sum_list_distinct_conv_sum_set)
qed

text \<open>Every job that has not ended is due by the given time; once that has passed, some such job is claimed.\<close>

definition all_due_by :: "time \<Rightarrow> database \<Rightarrow> bool" where
  "all_due_by t db \<longleftrightarrow> (\<forall>j \<in> set (jobs db). settled_job j \<or> due_by t j)"

lemma waiting_claimed:
  assumes ok: "keys_ok db" and ex: "within_policy ex" and timely: "timely_cycle (ex_lease ex) c"
    and good: "all_due_by t db" "t + second \<le> start" "time_in_range start"
    and j: "j \<in> set (jobs db)" "\<not> settled_job j"
  shows "claimed_in ex start c db \<noteq> []"
proof -
  let ?cand = "claim_candidates db (ex_batch ex) start"
  obtain db1 where claim: "claim_jobs (en_tx (cy_env c)) (cy_refused c) db (ex_owner ex) (ex_batch ex) start (ex_lease ex)
    = Inr (db1, claimed_in ex start c db)" by (rule timely_claim [OF timely])
  have due: "\<forall>j \<in> set (jobs db). job_due start j \<longrightarrow> ready_job start j" and ready: "ready_job start j"
    using good due_by_ready settled_idle j by (auto simp: all_due_by_def)
  then have "map j_id (claimed_in ex start c db) = map j_id (filter (\<lambda>j. job_claimable j start) ?cand)"
    using claims_ready [OF ok _ _ _ _] claim timely ex by (simp add: timely_cycle_def within_policy_def ready_job_def)
  moreover have "filter (\<lambda>j. job_claimable j start) ?cand = ?cand"
    using due claim_candidates_sub(1) [OF ok, of "ex_batch ex" start] by (auto simp: filter_id_conv ready_job_def)
  moreover have "?cand \<noteq> []"
  proof -
    have "j \<in> set (filter (job_due start) (jobs db))" using j ready by (simp add: ready_job_def)
    then have "filter (job_due start) (jobs db) \<noteq> []" by (metis empty_iff empty_set)
    then have "sort_key (\<lambda>j. (encode_time (j_next_attempt_at j), j_id j)) (filter (job_due start) (jobs db)) \<noteq> []"
      by (metis set_sort set_empty)
    then show ?thesis using ex by (simp add: claim_candidates_def sql_limit_def within_policy_def)
  qed
  ultimately show ?thesis by auto
qed

text \<open>The times of a cycle, to a quarter of an hour after its end, have a text of the usual length.\<close>

definition cycle_in_range :: "time \<Rightarrow> cycle \<Rightarrow> bool" where
  "cycle_in_range start c \<longleftrightarrow> time_in_range start \<and> time_in_range (start + cy_took c + 15 * minute)"

lemma cycle_attempts:
  assumes ok: "keys_ok db" and ex: "within_policy ex" "ex_backoff ex = second" and timely: "timely_cycle (ex_lease ex) c"
    and good: "all_due_by t db" "cycle_in_range start c" and j: "j \<in> set (claimed_in ex start c db)"
  shows "\<exists>old row. old \<in> set (jobs db) \<and> j_id old = j_id j \<and> tried old row
    \<and> find_key j_id (j_id j) (jobs (executor_cycle ex start c db)) = Some row
    \<and> (settled_job row \<or> due_by (start + cy_took c + 15 * minute) row)"
proof -
  from claimed_reported [OF ok ex(1) timely j] obtain old k where old: "old \<in> set (jobs db)" "job_due start old"
    "job_lease old (ex_owner ex) start (ex_lease ex) = Inr j"
    "job_report ex j (cy_gateway c j) (start + cy_delay c j) = Inr k"
    "find_key j_id (j_id j) (jobs (executor_cycle ex start c db)) = Some (assign_job k j)" by blast
  then have w: "due_by t old" using good settled_idle by (auto simp: all_due_by_def)
  have d: "0 \<le> cy_delay c j" "cy_delay c j \<le> cy_took c" using timely by (simp_all add: timely_cycle_def)
  then have at: "time_in_range (start + cy_delay c j)" "time_in_range (start + cy_delay c j + 15 * minute)"
    using good(2) by (auto simp: cycle_in_range_def time_in_range_def)
  note r = attempt_result [OF w old(2-4) ex(2) at]
  have "settled_job (assign_job k j) \<or> due_by (start + cy_took c + 15 * minute) (assign_job k j)"
    using r(2) due_by_mono d(2) by auto
  moreover have "j_id old = j_id j" using job_lease_frame [OF old(3)] by simp
  ultimately show ?thesis using old(1,5) r(1) by blast
qed

lemma cycle_retries:
  assumes ok: "keys_ok db" and ex: "within_policy ex" "ex_backoff ex = second" and timely: "timely_cycle (ex_lease ex) c"
    and good: "all_due_by t db" "cycle_in_range start c"
  defines "db' \<equiv> executor_cycle ex start c db"
  shows "work_left db' \<le> work_left db"
    "claimed_in ex start c db \<noteq> [] \<Longrightarrow> work_left db' < work_left db"
    "\<forall>x \<in> set (jobs db'). x \<in> set (jobs db) \<or> (\<exists>old \<in> set (jobs db). tried old x)
       \<and> (settled_job x \<or> due_by (start + cy_took c + 15 * minute) x)"
    "claimed_in ex start c db = [] \<Longrightarrow> set (jobs db') \<subseteq> set (jobs db)"
proof -
  note frame = cycle_frame [where start = start, OF ok timely, folded db'_def]
  note rows = cycle_rows [where start = start, OF ok timely, folded db'_def]
  note attempt = cycle_attempts [OF ok ex timely good, folded db'_def]
  let ?I = "j_id ` set (jobs db)"
  let ?f = "\<lambda>i. attempts_left (the (find_key j_id i (jobs db)))" and ?g = "\<lambda>i. attempts_left (the (find_key j_id i (jobs db')))"
  have dist: "distinct (map j_id (jobs db))" using ok by (simp add: keys_ok_def)
  have "j_id ` set (jobs db') = ?I" using frame(2) by (metis list.set_map)
  then have sums: "work_left db' = (\<Sum>i \<in> ?I. ?g i)" "work_left db = (\<Sum>i \<in> ?I. ?f i)"
    using work_left_rows [OF ok] work_left_rows [OF frame(1)] by simp_all
  have less: "?g (j_id j) < ?f (j_id j) \<and> j_id j \<in> ?I" if j: "j \<in> set (claimed_in ex start c db)" for j
  proof -
    from attempt [OF j] obtain old row where "old \<in> set (jobs db)" "j_id old = j_id j" "tried old row"
      "find_key j_id (j_id j) (jobs db') = Some row" by blast
    then show ?thesis using find_key_in_set [OF dist, of old] tried_less [of old row] by (auto intro: rev_image_eqI)
  qed
  have le: "?g i \<le> ?f i" for i
    using less frame(3) [of i] by (cases "i \<in> j_id ` set (claimed_in ex start c db)") (auto simp: less_imp_le)
  then show "work_left db' \<le> work_left db" unfolding sums by (intro sum_mono)
  show "work_left db' < work_left db" if c: "claimed_in ex start c db \<noteq> []"
  proof -
    obtain j where "j \<in> set (claimed_in ex start c db)" using c by (cases "claimed_in ex start c db") auto
    from less [OF this] show ?thesis unfolding sums using le by (intro sum_strict_mono_ex1) auto
  qed
  show "\<forall>x \<in> set (jobs db'). x \<in> set (jobs db) \<or> (\<exists>old \<in> set (jobs db). tried old x)
       \<and> (settled_job x \<or> due_by (start + cy_took c + 15 * minute) x)"
  proof
    fix x assume x: "x \<in> set (jobs db')"
    show "x \<in> set (jobs db) \<or> (\<exists>old \<in> set (jobs db). tried old x) \<and> (settled_job x \<or> due_by (start + cy_took c + 15 * minute) x)"
    proof (cases "x \<in> set (jobs db)")
      case False
      with rows(2) [OF x] obtain j where j: "j \<in> set (claimed_in ex start c db)" "j_id x = j_id j" by blast
      with attempt [OF j(1)] rows(1) [OF x] show ?thesis by auto
    qed simp
  qed
  show "set (jobs db') \<subseteq> set (jobs db)" if "claimed_in ex start c db = []" using that rows(2) by auto
qed

section \<open>The loop\<close>

text \<open>
  A cycle starts in a later interval of the ticker than the one before it, so that a bounded number
  of cycles passes until every attempt has become due.
\<close>

definition tick_of :: "time \<Rightarrow> duration \<Rightarrow> time \<Rightarrow> int" where
  "tick_of created interval t = (t - created) div interval"

lemma next_start_later:
  assumes "0 < ex_interval ex" "0 \<le> cy_late c"
  shows "tick_of created (ex_interval ex) start < tick_of created (ex_interval ex) (next_start ex created start c)"
    "start + cy_took c \<le> next_start ex created start c"
proof -
  let ?i = "ex_interval ex" and ?s' = "next_start ex created start c"
  show "start + cy_took c \<le> ?s'" using assms(2) by (simp add: next_start_def)
  have "((start - created) div ?i + 1) * ?i \<le> ?s' - created"
    using assms(2) by (simp add: next_start_def next_tick_def)
  then have "(start - created) div ?i + 1 \<le> (?s' - created) div ?i"
    using assms(1) by (metis mult.commute nonzero_mult_div_cancel_left less_irrefl zdiv_mono1)
  then show "tick_of created ?i start < tick_of created ?i ?s'" by (simp add: tick_of_def)
qed

lemma tick_of_reached:
  assumes "0 < interval" "tick_of created interval t < tick_of created interval s"
  shows "t \<le> s"
proof (rule ccontr)
  assume "\<not> t \<le> s"
  then have "(s - created) div interval \<le> (t - created) div interval" using assms(1) by (intro zdiv_mono1) simp_all
  then show False using assms(2) by (simp add: tick_of_def)
qed

text \<open>The intervals of the ticker in the longest wait between two attempts, and how many of them a database needs.\<close>

definition wait_ticks :: "duration \<Rightarrow> nat" where
  "wait_ticks interval = nat ((15 * minute + second) div interval + 2)"

lemma wait_ticks_reach:
  assumes "0 < interval" "s \<le> s'"
  shows "nat (tick_of created interval (s + 15 * minute + second) + 1 - tick_of created interval s') \<le> wait_ticks interval"
proof -
  let ?w = "15 * minute + second"
  have "(s - created + ?w) div interval \<le> (s - created) div interval + ?w div interval + 1"
  proof -
    let ?r = "(s - created) mod interval + ?w mod interval"
    have "?r < 2 * interval" using pos_mod_bound [OF assms(1)] by (metis add_strict_mono mult_2)
    moreover have "?r div interval * interval \<le> ?r" using assms(1) by (simp flip: minus_mod_eq_div_mult)
    ultimately have "?r div interval * interval < 2 * interval" by (rule le_less_trans [rotated])
    then have "?r div interval < 2" using assms(1) by (simp only: mult_less_cancel_right_pos)
    moreover have "(s - created + ?w) div interval = (s - created) div interval + ?w div interval + ?r div interval"
      by (rule div_add1_eq)
    ultimately show ?thesis by linarith
  qed
  moreover have "(s - created) div interval \<le> (s' - created) div interval" using assms by (intro zdiv_mono1) simp_all
  ultimately show ?thesis by (simp add: wait_ticks_def tick_of_def algebra_simps)
qed

lemma work_left_open: "work_left db \<noteq> 0 \<longleftrightarrow> (\<exists>j \<in> set (jobs db). \<not> settled_job j)"
proof -
  have "attempts_left j = 0 \<longleftrightarrow> settled_job j" for j by (simp add: attempts_left_def)
  then show ?thesis by (simp only: work_left_def sum_list_eq_0_iff) auto
qed

lemma cycles_settle:
  assumes ex: "within_policy ex" "ex_backoff ex = second" "0 < ex_interval ex"
    and "keys_ok db" "all_due_by t db" "\<forall>c \<in> set cs. timely_cycle (ex_lease ex) c"
    and "\<forall>(start, c) \<in> set (zip (cycle_starts ex created start cs) cs). cycle_in_range start c"
    and "nat (tick_of created (ex_interval ex) (t + second) + 1 - tick_of created (ex_interval ex) start) \<le> f"
    and "f \<le> wait_ticks (ex_interval ex)"
    and "work_left db = 0 \<or> f + 1 + (work_left db - 1) * (wait_ticks (ex_interval ex) + 1) \<le> length cs"
  defines "db' \<equiv> fold (\<lambda>(start, c). executor_cycle ex start c) (zip (cycle_starts ex created start cs) cs) db"
  shows "map j_id (jobs db') = map j_id (jobs db) \<and> work_left db' = 0
    \<and> (\<forall>x \<in> set (jobs db'). x \<in> set (jobs db) \<or> (\<exists>old \<in> set (jobs db). tried old x))"
  using assms(4-10) unfolding db'_def
proof (induction cs arbitrary: db start t f)
  case (Cons c cs)
  let ?R = "wait_ticks (ex_interval ex)" and ?q = "tick_of created (ex_interval ex)"
  let ?d = "executor_cycle ex start c db" and ?s = "next_start ex created start c" and ?t = "start + cy_took c + 15 * minute"
  have timely: "timely_cycle (ex_lease ex) c" and range: "cycle_in_range start c" using Cons.prems(3,4) by simp_all
  then have late: "0 \<le> cy_late c" by (simp add: timely_cycle_def)
  note later = next_start_later [where created = created and start = start, OF ex(3) late]
  note frame = cycle_frame [where start = start, OF Cons.prems(1) timely]
  note step = cycle_retries [OF Cons.prems(1) ex(1,2) timely Cons.prems(2) range]
  have rest: "\<forall>c \<in> set cs. timely_cycle (ex_lease ex) c"
    "\<forall>(start, c) \<in> set (zip (cycle_starts ex created ?s cs) cs). cycle_in_range start c" using Cons.prems(3,4) by simp_all
  have "\<exists>u g. all_due_by u ?d \<and> nat (?q (u + second) + 1 - ?q ?s) \<le> g \<and> g \<le> ?R
      \<and> (work_left ?d = 0 \<or> g + 1 + (work_left ?d - 1) * (?R + 1) \<le> length cs)"
  proof (cases "claimed_in ex start c db = []")
    case True
    have due: "all_due_by t ?d" using step(4) [OF True] Cons.prems(2) by (auto simp: all_due_by_def)
    have "f \<noteq> 0" if "work_left db \<noteq> 0"
    proof
      assume "f = 0"
      then have "t + second \<le> start" using Cons.prems(5) tick_of_reached [OF ex(3), of created "t + second" start] by simp
      then show False using waiting_claimed [OF Cons.prems(1) ex(1) timely Cons.prems(2), of start] True that range
        unfolding work_left_open cycle_in_range_def by blast
    qed
    moreover have room: "f - 1 + 1 + n \<le> l" if "f + 1 + m \<le> Suc l" "n \<le> m" "f \<noteq> 0" for l m n using that by linarith
    moreover have "(work_left ?d - 1) * (?R + 1) \<le> (work_left db - 1) * (?R + 1)"
      using step(1) by (intro mult_le_mono1 diff_le_mono)
    ultimately have "work_left ?d = 0 \<or> f - 1 + 1 + (work_left ?d - 1) * (?R + 1) \<le> length cs"
      using Cons.prems(7) step(1) room [of "(work_left db - 1) * (?R + 1)"] by (cases "work_left db = 0") (simp, metis length_Cons)
    moreover have "nat (?q (t + second) + 1 - ?q ?s) \<le> f - 1" using Cons.prems(5) later(1) by linarith
    ultimately show ?thesis using due Cons.prems(6) by (intro exI [of _ t] exI [of _ "f - 1"]) simp
  next
    case False
    have due: "all_due_by (max t ?t) ?d"
      using step(3) Cons.prems(2) due_by_mono [of t _ "max t ?t"] due_by_mono [of ?t _ "max t ?t"]
      unfolding all_due_by_def by (metis max.cobounded1 max.cobounded2)
    have "nat (?q (?t + second) + 1 - ?q ?s) \<le> ?R"
      using wait_ticks_reach [OF ex(3) later(2)] by (simp add: algebra_simps)
    moreover have "nat (?q (t + second) + 1 - ?q ?s) \<le> ?R" using Cons.prems(5,6) later(1) by linarith
    ultimately have "nat (?q (max t ?t + second) + 1 - ?q ?s) \<le> ?R" by (simp add: max_def)
    moreover have "work_left ?d = 0 \<or> ?R + 1 + (work_left ?d - 1) * (?R + 1) \<le> length cs"
    proof (cases "work_left ?d")
      case (Suc n)
      then have "Suc n \<le> work_left db - 1" using step(2) [OF False] by linarith
      then have "n * (?R + 1) + (?R + 1) \<le> (work_left db - 1) * (?R + 1)"
        using mult_le_mono1 [of "Suc n" "work_left db - 1" "?R + 1"] by simp
      then show ?thesis using Cons.prems(7) step(2) [OF False] Suc by simp
    qed simp
    ultimately show ?thesis using due by blast
  qed
  then obtain u g where "all_due_by u ?d" "nat (?q (u + second) + 1 - ?q ?s) \<le> g" "g \<le> ?R"
    "work_left ?d = 0 \<or> g + 1 + (work_left ?d - 1) * (?R + 1) \<le> length cs" by blast
  from Cons.IH [OF frame(1) this(1) rest this(2-4)] show ?case using frame(2) step(3) tried_trans by simp blast
qed simp

text \<open>
  Each attempt that is left takes at most one wait and one more cycle: with that many cycles every
  job has ended, a job that had ended before keeps its row, and the others were not tried more often than
  their limits allow.
\<close>

lemma executor_run_settles:
  assumes "keys_ok db" "within_policy ex" "ex_backoff ex = second" "0 < ex_interval ex" "\<not> ex_running ex"
    and "\<forall>c \<in> set (first # ticks). timely_cycle (ex_lease ex) c"
    and "\<forall>(start, c) \<in> set (timed_cycles ex created (first # ticks)). cycle_in_range start c"
    and "all_due_by (created + 15 * minute) db"
    and "executor_run ex created first ticks ended db = (ex', db', e)"
    and "work_left db * (wait_ticks (ex_interval ex) + 1) \<le> Suc (length ticks)"
  shows "map j_id (jobs db') = map j_id (jobs db)
    \<and> (\<forall>j \<in> set (jobs db'). settled_job j \<and> (j \<in> set (jobs db) \<or> (\<exists>old \<in> set (jobs db). tried old j)))"
proof -
  let ?ex = "ex\<lparr>ex_running := True\<rparr>" and ?cs = "first # ticks" and ?R = "wait_ticks (ex_interval ex)"
  have db': "db' = fold (\<lambda>(start, c). executor_cycle ?ex start c) (zip (cycle_starts ?ex created created ?cs) ?cs) db"
    using assms(5,9) by (simp add: executor_run_def run_begin_def timed_cycles_def del: cycle_starts.simps)
  have ex: "within_policy ?ex" "ex_backoff ?ex = second" "ex_lease ?ex = ex_lease ex" "ex_interval ?ex = ex_interval ex"
    using assms(2,3) by (simp_all add: within_policy_def)
  have "work_left db = 0 \<or> ?R + 1 + (work_left db - 1) * (?R + 1) \<le> length ?cs"
    using assms(10) by (cases "work_left db") simp_all
  moreover have "nat (tick_of created (ex_interval ex) (created + 15 * minute + second) + 1 - tick_of created (ex_interval ex) created) \<le> ?R"
    using wait_ticks_reach [OF assms(4)] by blast
  ultimately have "map j_id (jobs db') = map j_id (jobs db) \<and> work_left db' = 0
    \<and> (\<forall>x \<in> set (jobs db'). x \<in> set (jobs db) \<or> (\<exists>old \<in> set (jobs db). tried old x))"
    using cycles_settle [where ex = ?ex and cs = ?cs and f = ?R and created = created and start = created, OF ex(1,2) _ assms(1,8)]
      assms(4,6,7) unfolding db' ex(3,4) timed_cycles_def cycle_starts_running by blast
  then show ?thesis using work_left_open by blast
qed

end
