(* ===== verification/ProcessProperties.thy ===== *)
theory ProcessProperties
  imports Process Retry ServiceProperties StartProperties
begin

text \<open>
  Properties of whole processes: what any processes that follow each other leave in the database, and
  what becomes of a job that the device gateway answers as it likes.
\<close>

section \<open>Processes and restarts\<close>

text \<open>
  C7. Restarts are safe.  Processes that follow each other on one database, each with a configuration
  within the limits of \<open>Load\<close> and each stopped at any moment, continue the run: in each of them requests
  are authenticated and handled, jobs claimed and reported and sessions cleaned up in any interleaving,
  each call with queries that may have seen older states than the one it writes to.  After them the
  reserved power of every site is still the sum of its plans that left the draft status and within
  the grid limit; no dispatched or approved plan was approved by its creator; every user, snapshot,
  reservation, entry and event of the audit log is there unchanged; every site, cluster, plan, job,
  alarm and period is there under its identifier, the plans with the request and the reservations they
  had and a status not earlier than before.  Only sessions and idempotency records may be gone.
\<close>

theorem restarts_keep_accounts:
  assumes "run h" "\<forall>lt \<in> set lts. lifetime_ok lt" "fold live lts (s, hd h) = (s', db)"
    and "int (length h) + int (sum_list (map life_calls lts)) < 9223372036854775807"
  shows "(\<exists>ds. run (ds @ h) \<and> hd (ds @ h) = db \<and> length ds \<le> sum_list (map life_calls lts))
    \<and> (\<forall>x \<in> set (sites db). s_reserved x = booked (plans db) (s_id x) \<and> s_reserved x \<le> s_grid_limit x)
    \<and> (\<forall>p \<in> set (plans db). p_status p \<in> {PlanApproved, PlanDispatched} \<longrightarrow> p_approved_by p \<noteq> p_created_by p)
    \<and> grows (hd h) db \<and> keeps_rows (hd h) db"
proof -
  from lives_lead [OF assms(1) refl assms(2), of s] assms(3)
  obtain ds where ds: "length ds \<le> sum_list (map life_calls lts)" "run (ds @ h)" "hd (ds @ h) = db" by auto
  have len: "int (length (ds @ h)) < 9223372036854775807" using ds(1) assms(4) by simp
  have "h \<noteq> []" "ds @ h \<noteq> []" using run_nonempty assms(1) by auto
  then have db: "db \<in> set (ds @ h)" using ds(3) hd_in_set by metis
  have "s_reserved x = booked (plans db) (s_id x) \<and> s_reserved x \<le> s_grid_limit x" if "x \<in> set (sites db)" for x
    using run_site [OF ds(2) len db that] by (auto simp: site_ok_def)
  moreover have "p_approved_by p \<noteq> p_created_by p" if p: "p \<in> set (plans db)" "p_status p \<in> {PlanApproved, PlanDispatched}" for p
  proof -
    have "plan_ok p" using run_plan [OF ds(2) len db p(1)] unfolding live_plan_def by blast
    then show ?thesis using p(2) unfolding plan_ok_def by blast
  qed
  moreover have "grows (hd h) db"
  proof (cases ds)
    case Nil
    with ds(3) show ?thesis by simp
  next
    case (Cons d es)
    have "sorted_wrt (\<lambda>new old. grows old new) (ds @ h)" using run_invariant [OF ds(2) len] by blast
    moreover have "hd h \<in> set h" using \<open>h \<noteq> []\<close> by simp
    ultimately show ?thesis using ds(3) Cons by (simp add: sorted_wrt_append)
  qed
  moreover have "keeps_rows (hd h) db" using run_extends [OF ds(2) \<open>h \<noteq> []\<close>] ds(3) by simp
  ultimately show ?thesis using ds by blast
qed

text \<open>
  The scenario, and after it two processes: in each of them an operator logs in and sends a request
  whose handler runs while a worker executes the open job.
\<close>

definition demo_no_body :: json_body where
  "demo_no_body = \<lparr>js_login = Inl err_eof, js_site = Inl err_eof, js_transition = Inl err_eof, js_cluster = Inl err_eof,
     js_plan = Inl err_eof, js_submit = Inl err_eof, js_version = Inl err_eof, js_telemetry = Inl err_eof,
     js_batch = Inl err_eof, js_extra = Inl err_eof\<rparr>"

definition demo_life :: "config \<Rightarrow> lifetime" where
  "demo_life cfg = \<lparr>lt_open = (\<lambda>s. (s, Inr ''db'')), lt_env = demo_env ''pack'', lt_libs = demo_libs, lt_load_location = (\<lambda>_. None),
     lt_parse_time = (\<lambda>_. Inr 0), lt_visit = (\<lambda>k rs. rs), lt_config = cfg,
     lt_events =
       [Arrive (\<lambda>_. demo_env ''pack'') None (Inr ''r'') (demo_request_to ''POST'' [''v1'', ''auth'', ''login''] ''''
          (demo_no_body\<lparr>js_login := Inr \<lparr>lb_email = ''bob@grid.test'', lb_password = ''Correct-Horse-2''\<rparr>\<rparr>)) hd,
        Arrive (\<lambda>_. demo_env ''pack'') None (Inr ''r'') (demo_request_to ''POST'' [''v1'', ''sites''] (''Bearer '' @ base64_url ''r'')
          (demo_no_body\<lparr>js_site := Inr \<lparr>ns_code = ''SOUTH-1'', ns_name = ''South'', ns_timezone = ''UTC'', ns_grid_limit = 500\<rparr>\<rparr>)) hd,
        ClaimDue (demo_env ''pack'') (\<lambda>_. False), Handle 0 hd, ReportOpen (demo_env ''pack'') None demo_now 0,
        MaintenanceTick (demo_env ''pack'')],
     lt_stop = StopRequested, lt_shutdown = None, lt_waited = None\<rparr>"

lemma demo_life_ok: "config_ok cfg \<Longrightarrow> lifetime_ok (demo_life cfg)"
  by (simp add: lifetime_ok_def demo_life_def visits_all_def request_ok_def demo_env_ok body_fits_def demo_request_to_def
      demo_no_body_def)

lemma demo_users9: "users demo9 = [demo_ann, demo_bob]"
  by (simp add: demo9_def)

theorem restarts_keep_accounts_witness:
  "\<exists>cfg s' db x p. config_load (\<lambda>_. '''') demo_durations = Inr cfg
    \<and> fold live [demo_life cfg, demo_life cfg] (no_schema, demo9) = (s', db)
    \<and> x \<in> set (sites db) \<and> s_id x = ''site'' \<and> s_reserved x = booked (plans db) ''site''
    \<and> p \<in> set (plans db) \<and> p_id p = ''plan'' \<and> p_requested_kw p = 400
    \<and> demo_ann \<in> set (users db) \<and> demo_reservation \<in> set (reservations db)"
proof -
  have "case config_load (\<lambda>_. '''') demo_durations of Inl e \<Rightarrow> False | Inr cfg \<Rightarrow> True" by code_simp
  then obtain cfg where cfg: "config_load (\<lambda>_. '''') demo_durations = Inr cfg" by (auto split: sum.splits)
  let ?lts = "[demo_life cfg, demo_life cfg]"
  obtain s' db where live: "fold live ?lts (no_schema, hd demo_history) = (s', db)" by force
  have ok: "\<forall>lt \<in> set ?lts. lifetime_ok lt" using demo_life_ok config_load_ok [OF cfg] by simp
  have "int (length demo_history) + int (sum_list (map life_calls ?lts)) < 9223372036854775807"
    by (simp add: demo_history_def life_calls_def demo_life_def)
  from restarts_keep_accounts [OF demo_history_runs ok live this]
  have acc: "\<forall>x \<in> set (sites db). s_reserved x = booked (plans db) (s_id x)" and grown: "grows demo9 db"
    and kept: "keeps_rows demo9 db"
    by (auto simp: demo_history_last(3))
  obtain x where x: "x \<in> set (sites db)" "site_grows (demo_site 400 StatusActive 3) x" using grows_site [OF grown] by auto
  obtain p where p: "p \<in> set (plans db)" "plan_grows (demo_plan PlanDispatched ''bob'' (Some demo_now) 4) p"
    using grows_plan [OF grown] by auto
  have "s_id x = ''site''" "p_id p = ''plan''" "p_requested_kw p = 400"
    using x(2) p(2) by (auto simp: site_grows_def plan_grows_def)
  moreover from this have "s_reserved x = booked (plans db) ''site''" using acc x(1) by metis
  moreover have "demo_ann \<in> set (users db)" "demo_reservation \<in> set (reservations db)"
    using kept by (auto simp: keeps_rows_def demo_users9)
  ultimately show ?thesis using cfg live x(1) p(1) unfolding demo_history_last(3) by blast
qed

section \<open>Jobs whose commands fail\<close>

text \<open>
  C11. Every job ends.  Whatever the device gateway answers, as long as it answers before the lease
  ends and the database answers and nobody else writes the jobs, the configured worker brings every
  job that has not ended, also one that waits for a retry or whose worker died with its lease, to
  success or to a permanent failure.  Each attempt that is left costs at most as many cycles of the
  ticker as the longest wait between two attempts takes, and one more.  The worker loses no job,
  leaves the jobs alone that had ended or were cancelled, and tries the others not more often than
  their limits allow, or once when a lost lease had used up the last attempt.
\<close>

theorem retries_end:
  assumes "config_load getenv parse = Inr cfg" "second \<le> c_worker_lease cfg" "c_worker_lease cfg \<le> 10 * minute"
    and "ex = ap_executor (wire lib load_location ptime visit uuid cfg)" "trim_space (ex_owner ex) = ex_owner ex"
    and "keys_ok db" "\<forall>c \<in> set (first # ticks). timely_cycle (ex_lease ex) c"
    and "\<forall>(start, c) \<in> set (timed_cycles ex created (first # ticks)). cycle_in_range start c"
    and "\<forall>j \<in> set (jobs db). settled_job j \<or> due_by (created + 15 * minute) j"
    and "work_left db * (wait_ticks (c_worker_interval cfg) + 1) \<le> Suc (length ticks)"
    and "executor_run ex created first ticks ended db = (ex', db', e)"
  shows "map j_id (jobs db') = map j_id (jobs db)
    \<and> (\<forall>j \<in> set (jobs db'). j_status j \<in> {JobSucceeded, JobPermanentFailure, JobCancelled}
         \<and> (j \<in> set (jobs db) \<or> (\<exists>old \<in> set (jobs db). j_id old = j_id j \<and> \<not> settled_job old
              \<and> j_attempts j \<le> max (j_max_attempts old) (j_attempts old + 1))))"
proof -
  have ex: "ex_owner ex = ''worker-'' @ uuid" "ex_lease ex = c_worker_lease cfg" "ex_batch ex = c_worker_batch_size cfg"
    "ex_backoff ex = second" "\<not> ex_running ex" "ex_interval ex = c_worker_interval cfg"
    by (simp_all add: assms(4) wire_def new_executor_def)
  note cfg = config_load_ok [OF assms(1)]
  have "within_policy ex" using cfg assms(2,3,5) worker_owner [of uuid] by (simp add: within_policy_def ex config_ok_def)
  moreover have "0 < ex_interval ex" using cfg unfolding ex(6) config_ok_def by linarith
  ultimately have "map j_id (jobs db') = map j_id (jobs db)
    \<and> (\<forall>j \<in> set (jobs db'). settled_job j \<and> (j \<in> set (jobs db) \<or> (\<exists>old \<in> set (jobs db). tried old j)))"
    using executor_run_settles [OF assms(6) _ ex(4) _ ex(5) assms(7,8) _ assms(11)] assms(9,10)
    by (simp add: all_due_by_def ex(6))
  then show ?thesis by (fastforce simp: settled_job_def tried_def)
qed

text \<open>
  A device that is always busy: with a tick every two seconds, 2265 cycles, an hour and a quarter, are enough
  for the five attempts at the job of the scenario.
\<close>

definition demo_busy_cycle :: cycle where
  "demo_busy_cycle = \<lparr>cy_env = demo_env ''t'', cy_refused = (\<lambda>_. False), cy_schedule = (\<lambda>js. js),
     cy_gateway = (\<lambda>_. Some (Plain ''device busy'')), cy_delay = (\<lambda>_. 5 * millisecond), cy_took = 6 * millisecond,
     cy_late = 0, cy_meanwhile = (\<lambda>db. db)\<rparr>"

lemma demo_busy_starts:
  assumes "ex_interval ex = 2 * second"
  shows "t \<in> set (cycle_starts ex created start (replicate n demo_busy_cycle)) \<Longrightarrow> start \<le> t \<and> t \<le> start + int n * (2 * second)"
proof (induction n arbitrary: start)
  case (Suc n)
  have "(start - created) div (2 * second) * (2 * second) \<le> start - created"
    "start - created < (start - created) div (2 * second) * (2 * second) + 2 * second"
    using pos_mod_sign [of "2 * second" "start - created"] pos_mod_bound [of "2 * second" "start - created"]
    by (simp_all flip: minus_mod_eq_div_mult)
  then have s: "start \<le> next_start ex created start demo_busy_cycle" "next_start ex created start demo_busy_cycle \<le> start + 2 * second"
    by (simp_all add: next_start_def next_tick_def demo_busy_cycle_def assms algebra_simps)
  from Suc.prems consider "t = start" | "t \<in> set (cycle_starts ex created (next_start ex created start demo_busy_cycle) (replicate n demo_busy_cycle))"
    by auto
  then show ?case
  proof cases
    case 2
    from Suc.IH [OF this] s show ?thesis by (simp add: algebra_simps)
  qed simp
qed simp

theorem retries_end_witness:
  "\<exists>cfg. config_load (\<lambda>_. '''') demo_durations = Inr cfg
    \<and> (\<forall>j \<in> set (jobs (fst (snd (executor_run (ap_executor (wire demo_libs (\<lambda>_. None) (\<lambda>_. Inr 0) (\<lambda>k rs. rs) ''u'' cfg))
          demo_now demo_busy_cycle (replicate 2264 demo_busy_cycle) err_canceled demo9)))).
        j_status j \<in> {JobSucceeded, JobPermanentFailure, JobCancelled})
    \<and> map j_id (jobs (fst (snd (executor_run (ap_executor (wire demo_libs (\<lambda>_. None) (\<lambda>_. Inr 0) (\<lambda>k rs. rs) ''u'' cfg))
          demo_now demo_busy_cycle (replicate 2264 demo_busy_cycle) err_canceled demo9)))) = [''send'']"
proof -
  have "case config_load (\<lambda>_. '''') demo_durations of Inl e \<Rightarrow> False
    | Inr cfg \<Rightarrow> c_worker_lease cfg = 20 * second \<and> c_worker_interval cfg = 2 * second" by code_simp
  then obtain cfg where cfg: "config_load (\<lambda>_. '''') demo_durations = Inr cfg" "c_worker_lease cfg = 20 * second"
    "c_worker_interval cfg = 2 * second" by (auto split: sum.splits)
  let ?ex = "ap_executor (wire demo_libs (\<lambda>_. None) (\<lambda>_. Inr 0) (\<lambda>k rs. rs) ''u'' cfg)"
    and ?ticks = "replicate 2264 demo_busy_cycle"
  obtain ex' db' e where run: "executor_run ?ex demo_now demo_busy_cycle ?ticks err_canceled demo9 = (ex', db', e)"
    by (metis surj_pair)
  have "trim_space (''worker-'' @ ''u'') = ''worker-'' @ ''u''" by code_simp
  then have owner: "trim_space (ex_owner ?ex) = ex_owner ?ex" by (simp add: wire_def new_executor_def)
  have lease: "ex_lease ?ex = 20 * second" "ex_interval ?ex = 2 * second" by (simp_all add: wire_def new_executor_def cfg(2,3))
  have "timely_cycle (ex_lease ?ex) demo_busy_cycle"
    unfolding lease timely_cycle_def by (simp add: demo_busy_cycle_def) (simp add: demo_env_def)
  then have timely: "\<forall>c \<in> set (demo_busy_cycle # ?ticks). timely_cycle (ex_lease ?ex) c" by simp
  have cs: "demo_busy_cycle # ?ticks = replicate 2265 demo_busy_cycle" by (simp flip: replicate_Suc)
  have "cycle_in_range start c" if "(start, c) \<in> set (timed_cycles ?ex demo_now (replicate 2265 demo_busy_cycle))" for start c
  proof -
    have "c = demo_busy_cycle" "start \<in> set (cycle_starts ?ex demo_now demo_now (replicate 2265 demo_busy_cycle))"
      using that unfolding timed_cycles_def by (auto dest: set_zip_rightD set_zip_leftD)
    from this(1) demo_busy_starts [OF lease(2) this(2)] show ?thesis
      by (simp add: cycle_in_range_def time_in_range_def demo_busy_cycle_def demo_now_def)
  qed
  then have range: "\<forall>(start, c) \<in> set (timed_cycles ?ex demo_now (demo_busy_cycle # ?ticks)). cycle_in_range start c"
    unfolding cs by blast
  have due: "\<forall>j \<in> set (jobs demo9). settled_job j \<or> due_by (demo_now + 15 * minute) j"
    by (simp add: due_by_def countable_attempts_def demo_job_def time_in_range_def demo_now_def)
  have work: "work_left demo9 * (wait_ticks (c_worker_interval cfg) + 1) \<le> Suc (length ?ticks)"
    by (simp add: work_left_def attempts_left_def settled_job_def demo_job_def wait_ticks_def cfg(3))
  from retries_end [OF cfg(1) _ _ refl owner run_keys [OF demo_history_runs demo_history_last(1)] timely range due work run]
  have "map j_id (jobs db') = map j_id (jobs demo9)
    \<and> (\<forall>j \<in> set (jobs db'). j_status j \<in> {JobSucceeded, JobPermanentFailure, JobCancelled})" by (simp add: cfg(2))
  moreover have "map j_id (jobs demo9) = [''send'']" by (simp add: demo_job_def)
  ultimately show ?thesis using cfg(1) run by auto
qed

end
