(* ===== verification/FourEyes.thy ===== *)
theory FourEyes
  imports SystemInv
begin

text \<open>
  Where the approval of a plan comes from: a plan that is approved or dispatched got its approver and the
  time of its approval from an earlier call of \<open>Approve\<close> of the run, by a principal that may approve.
\<close>

section \<open>Calls that leave the plans alone\<close>

lemma core_plans: "core db' = core db \<Longrightarrow> plans db' = plans db"
  by (simp add: core_def)

lemma update_site_plans: "update_site db s v = Inr db' \<Longrightarrow> plans db' = plans db"
  by (auto simp: update_site_def)

lemma telemetry_plans: "store_telemetry_atomic tx db t soc v as e = Inr db' \<Longrightarrow> plans db' = plans db"
  by (auto simp: store_telemetry_atomic_def store_telemetry_body_def insert_snapshot_Inr advance_telemetry_def insert_audit_Inr
      dest!: insert_alarms_frame)

lemma calls_keep_plans:
  "create_site en ll db p ns req = (db', sout) \<Longrightarrow> plans db' = plans db"
  "transition_site en rd db p sid st v req = (db', sout) \<Longrightarrow> plans db' = plans db"
  "create_cluster en rd db p nc req = (db', cout) \<Longrightarrow> plans db' = plans db"
  "record_telemetry en th rd db p input req = (db', tout) \<Longrightarrow> plans db' = plans db"
  by (auto simp: create_site_def transition_site_def create_cluster_def record_telemetry_def checked_def Let_def audit_insert_Inr
      insert_site_Inr insert_cluster_Inr insert_audit_Inr split: sum.splits if_splits dest!: update_site_plans telemetry_plans)

lemma claim_keeps_plans: "keys_ok db \<Longrightarrow> claim_jobs tx refused db owner limit now d = Inr (db', js) \<Longrightarrow> plans db' = plans db"
  by (drule (1) claim_jobs_Inr(2)) simp

lemma complete_job_plans: "complete_job db j v = Inr db' \<Longrightarrow> plans db' = plans db"
  by (auto simp: complete_job_def)

lemma report_keeps_plans: "plans (execute en ex outcome now j db) = plans db"
  by (rule execute_cases [of en ex outcome now j db]) (simp, erule complete_job_plans)

section \<open>Where a call may take an approval from\<close>

definition in_force :: "plan \<Rightarrow> bool" where
  "in_force p \<longleftrightarrow> p_status p \<in> {PlanApproved, PlanDispatched}"

definition same_approval :: "plan \<Rightarrow> plan \<Rightarrow> bool" where
  "same_approval q p \<longleftrightarrow> p_id q = p_id p \<and> p_approved_by q = p_approved_by p \<and> p_approved_at q = p_approved_at p"

definition approval :: "database \<Rightarrow> database \<Rightarrow> database \<Rightarrow> plan \<Rightarrow> bool" where
  "approval rd db db' p \<longleftrightarrow> (\<exists>en pr v req out. approve_plan en rd db pr (p_id p) v req = (db', out)
     \<and> u_active (pr_user pr) \<and> role_allows (u_role (pr_user pr)) PermissionPlanApprove
     \<and> p_approved_by p = nullable_string (u_id (pr_user pr)) \<and> p_approved_at p = Some (en_now en 0))"

text \<open>The row of an earlier approval, at the latest the one the dispatch read.\<close>

definition carried :: "database \<Rightarrow> database \<Rightarrow> plan \<Rightarrow> bool" where
  "carried rd db p \<longleftrightarrow> (\<exists>q \<in> set (plans db). same_approval q p
     \<and> (in_force q \<or> (\<exists>seen \<in> set (plans rd). p_id seen = p_id p \<and> p_status seen = PlanApproved)))"

lemma carried_same: "p \<in> set (plans db) \<Longrightarrow> in_force p \<Longrightarrow> carried rd db p"
  by (auto simp: carried_def same_approval_def)

lemma update_other: "p \<in> set (update_where P f xs) \<Longrightarrow> p \<in> set xs \<or> (\<exists>q \<in> set xs. P q \<and> p = f q)"
  by (auto simp: update_where_def)

lemma create_plan_approval:
  assumes "create_plan en rd db pr np req = (db', out)" "p \<in> set (plans db')" "in_force p"
  shows "carried rd db p"
proof -
  from assms(1) consider "db' = db" | input q db1 where "plan_create (en_uuid en 0) input (en_now en 0) = Inr q"
      "insert_plan db q = Inr db1" "core db' = core db1"
    by (auto simp: create_plan_def checked_def Let_def split: sum.splits dest!: audit_insert_core; metis)
  then show ?thesis
  proof cases
    case 2
    then have "p \<in> set (plans db)"
      using assms(2,3) plan_create_fields [OF 2(1)] by (auto simp: insert_plan_Inr core_def in_force_def)
    then show ?thesis using carried_same assms(3) by blast
  qed (use carried_same assms(2,3) in blast)
qed

lemma submit_plan_approval:
  assumes "keys_ok db" "submit_plan en visit rd db pr sp req = (db', out)" "p \<in> set (plans db')" "in_force p"
  shows "carried rd db p"
proof (cases out)
  case (Inl e)
  then show ?thesis using submit_plan_atomic_failure assms(2-4) carried_same by blast
next
  case (Inr q)
  with assms(2) have s: "submit_plan en visit rd db pr sp req = (db', Inr q)" by simp
  obtain plan :: plan and owner :: site and rs e now where
    q: "q = set_plan_status PlanSubmitted plan now"
    and body: "submit_body q (p_version plan) rs (p_site_id plan) (p_requested_kw plan) (s_version owner)
        (Some (insert_audit e)) db = Inr db'"
    by (rule submit_plan_Inr [OF assms(1) s]) (blast intro: that)
  have "insert_audit e (submitted_db q rs (p_site_id plan) (p_requested_kw plan) db) = Inr db'"
    using submit_body_Inr [OF assms(1) body] by blast
  then have "plans db' = update_where (\<lambda>r. p_id r = p_id q) (assign_plan_status q) (plans db)"
    by (auto simp: insert_audit_Inr submitted_db_def)
  then have "p \<in> set (plans db)" using assms(3,4) by (auto simp: q in_force_def assign_plan_status_def set_plan_status_def dest!: update_other)
  then show ?thesis using carried_same assms(4) by blast
qed

lemma dispatch_plan_approval:
  assumes "keys_ok db" "dispatch_plan en rd db pr pid v req = (db', out)" "p \<in> set (plans db')" "in_force p"
  shows "carried rd db p"
proof (cases out)
  case (Inl e)
  then show ?thesis using dispatch_plan_atomic_failure assms(2-4) carried_same by blast
next
  case (Inr q)
  with assms(2) have d: "dispatch_plan en rd db pr pid v req = (db', Inr q)" by simp
  obtain plan :: plan and js e dbs where
    plan: "find_key p_id pid (plans rd) = Some plan" "p_status plan = PlanApproved"
    and aud: "insert_audit e dbs = Inr db'"
    and dbs: "dbs = db\<lparr>jobs := jobs db @ js, plans := update_where (\<lambda>r. p_id r = pid) (assign_plan_status q) (plans db)\<rparr>"
    by (rule dispatch_plan_Inr [OF assms(1) d]) (blast intro: that)
  have "plans db' = update_where (\<lambda>r. p_id r = pid) (assign_plan_status q) (plans db)"
    using aud by (auto simp: insert_audit_Inr dbs)
  then have "p \<in> set (update_where (\<lambda>r. p_id r = pid) (assign_plan_status q) (plans db))" using assms(3) by (simp only:)
  from update_other [OF this] consider "p \<in> set (plans db)" | r where "r \<in> set (plans db)" "p_id r = pid" "p = assign_plan_status q r"
    by blast
  then show ?thesis
  proof cases
    case 1
    then show ?thesis using carried_same assms(4) by blast
  next
    case 2
    then have "same_approval r p" by (simp add: same_approval_def assign_plan_status_def)
    moreover have "plan \<in> set (plans rd)" "p_id plan = p_id p"
      using find_key_SomeD [OF plan(1)] 2(2,3) by (simp_all add: assign_plan_status_def)
    ultimately show ?thesis using 2(1) plan(2) unfolding carried_def by blast
  qed
qed

lemma approve_plan_approval:
  assumes ok: "keys_ok db" and call: "approve_plan en rd db pr pid v req = (db', out)" and p: "p \<in> set (plans db')" "in_force p"
  shows "carried rd db p \<or> approval rd db db' p"
proof -
  from call consider "db' = db" | seen changed db1 where "u_active (pr_user pr)" "role_allows (u_role (pr_user pr)) PermissionPlanApprove"
      "find_key p_id pid (plans rd) = Some seen" "plan_approve seen (u_id (pr_user pr)) v (en_now en 0) = Inr changed"
      "update_plan db changed v = Inr db1" "core db' = core db1"
    by (auto simp: approve_plan_def plan_by_id_def checked_def split: sum.splits dest!: audit_insert_core; metis)
  then show ?thesis
  proof cases
    case 2
    note rights = 2(1,2)
    have c: "p_id changed = pid" "p_approved_by changed = u_id (pr_user pr)" "p_approved_at changed = Some (en_now en 0)"
      using 2(3,4) by (auto simp: plan_approve_Inr dest: find_key_SomeD)
    have "plans db' = update_where (\<lambda>q. p_id q = pid) (assign_plan changed) (plans db)"
      using 2(5,6) by (auto simp: update_plan_Inr [OF ok] c(1) core_def)
    then have "p \<in> set (update_where (\<lambda>q. p_id q = pid) (assign_plan changed) (plans db))" using p(1) by (simp only:)
    from update_other [OF this] consider "p \<in> set (plans db)" | r where "p_id r = pid" "p = assign_plan changed r" by blast
    then show ?thesis
    proof cases
      case 1
      then show ?thesis using carried_same p(2) by blast
    next
      case 2
      then have "p_id p = pid" "p_approved_by p = nullable_string (u_id (pr_user pr))" "p_approved_at p = Some (en_now en 0)"
        by (simp_all add: assign_plan_def c)
      then show ?thesis using call rights unfolding approval_def by blast
    qed
  qed (use carried_same p in blast)
qed

lemma action_approval:
  assumes "action rd db db'" "keys_ok db" "p \<in> set (plans db')" "in_force p"
  shows "carried rd db p \<or> approval rd db db' p"
proof -
  have kept: "carried rd db p" if "plans db' = plans db" using that assms(3,4) carried_same by simp
  from assms(1) show ?thesis
  proof (cases rule: action.cases)
    case (a_report j en ex outcome now)
    then show ?thesis using kept report_keeps_plans by simp
  next
    case (a_claim tx refused owner limit now d claimed)
    then show ?thesis using kept claim_keeps_plans assms(2) by blast
  next
    case (a_create_plan en p np req out)
    then show ?thesis using create_plan_approval assms(3,4) by blast
  next
    case (a_submit_plan visit sp en p req out)
    then show ?thesis using submit_plan_approval assms(2-4) by blast
  next
    case (a_dispatch_plan en p pid v req out)
    then show ?thesis using dispatch_plan_approval assms(2-4) by blast
  next
    case (a_approve_plan en p pid v req out)
    then show ?thesis using approve_plan_approval assms(2-4) by blast
  qed (rule disjI1, rule kept, erule calls_keep_plans
    | rule disjI1, rule kept, rule core_plans, erule insert_audit_core bootstrap_core auth_core operations_core idempotency_core)+
qed

section \<open>Runs\<close>

lemma run_approval:
  assumes "run h" "int (length h) < 9223372036854775807" "db \<in> set h" "p \<in> set (plans db)" "in_force p"
  shows "\<exists>later db2 db1 earlier rd. h = later @ db2 # db1 # earlier \<and> glimpse (db1 # earlier) rd \<and> approval rd db1 db2 p"
  using assms
proof (induction arbitrary: db p rule: run.induct)
  case run_start
  then show ?case by (simp add: empty_database_def)
next
  case (run_step db1 h rd db2)
  have older: "\<exists>later db2' db1' earlier rd. db2 # db1 # h = later @ db2' # db1' # earlier \<and> glimpse (db1' # earlier) rd
      \<and> approval rd db1' db2' q" if "d \<in> set (db1 # h)" "q \<in> set (plans d)" "in_force q" for d q
  proof -
    have "int (length (db1 # h)) < 9223372036854775807" using run_step.prems(1) by simp
    from run_step.IH [OF this that] obtain later db2' db1' earlier rd' where
      "db1 # h = later @ db2' # db1' # earlier" "glimpse (db1' # earlier) rd'" "approval rd' db1' db2' q" by blast
    then show ?thesis by (intro exI [of _ "db2 # later"]) auto
  qed
  show ?case
  proof (cases "db = db2")
    case False
    then show ?thesis using older run_step.prems by auto
  next
    case True
    have ok: "keys_ok db1" using run_keys [OF run_step.hyps(1)] by simp
    from action_approval [OF run_step.hyps(3) ok _ run_step.prems(4)] True run_step.prems(3)
    consider "approval rd db1 db2 p" | "carried rd db1 p" by blast
    then show ?thesis
    proof cases
      case 1
      then show ?thesis using run_step.hyps(2) by (intro exI [of _ "[]"]) auto
    next
      case 2
      then obtain q where q: "q \<in> set (plans db1)" "same_approval q p"
        "in_force q \<or> (\<exists>seen \<in> set (plans rd). p_id seen = p_id p \<and> p_status seen = PlanApproved)" unfolding carried_def by blast
      have "in_force q"
      proof (rule ccontr)
        assume not: "\<not> in_force q"
        with q(3) obtain seen where seen: "seen \<in> set (plans rd)" "p_id seen = p_id p" "p_status seen = PlanApproved" by blast
        with run_step.hyps(2) obtain d where d: "d \<in> set (db1 # h)" "seen \<in> set (plans d)"
          unfolding glimpse_def seen_rows_def by blast
        have len: "int (length (db1 # h)) < 9223372036854775807" using run_step.prems(1) by simp
        have "grows d db1" using run_invariant [OF run_step.hyps(1) len] d(1) by auto
        from grows_plan [OF this d(2)] obtain r where r: "r \<in> set (plans db1)" "plan_grows seen r" by blast
        then have "p_id r = p_id q" using seen(2) q(2) by (auto simp: plan_grows_def same_approval_def)
        then have "r = q" using ok r(1) q(1) by (auto simp: keys_ok_def distinct_map dest: inj_onD)
        then have "2 \<le> plan_rank (p_status q)" using r(2) seen(3) by (auto simp: plan_grows_def)
        moreover have "live_plan q" using run_plan [OF run_step.hyps(1) len _ q(1)] by simp
        ultimately show False using not by (auto simp: live_plan_def in_force_def)
      qed
      then show ?thesis using older [of db1 q] q(1,2) by (auto simp: approval_def same_approval_def)
    qed
  qed
qed

end
