(* ===== verification/Spec2Isabelle.thy ===== *)
theory Spec2Isabelle
  imports DomainProperties ServiceProperties StartProperties ProcessProperties FourEyes Integrity
begin

text \<open>
  A verification of GridVault ESS, a service that plans the charging and discharging of battery
  clusters at grid-connected sites, dispatches the plans to devices, records telemetry, raises
  alarms and settles energy.

  \<^bold>\<open>The program.\<close>  An HTTP server (\<open>internal/httpapi\<close>) authenticates requests and calls services
  (\<open>internal/service\<close>); a worker (\<open>internal/worker\<close>) executes jobs and removes old sessions.  Services
  read rows, apply the pure operations of the domain packages (\<open>internal/site\<close>, \<open>dispatch\<close>,
  \<open>telemetry\<close>, \<open>alarm\<close>, \<open>settlement\<close>, \<open>identity\<close>, \<open>idempotency\<close>, \<open>audit\<close>) and write back with
  statements of \<open>internal/storage/sqlite\<close> that check the version they read.  \<open>internal/app\<close> and
  \<open>cmd/server\<close> start all of it from the settings of \<open>internal/config\<close>.

  \<^bold>\<open>Foundations.\<close>
    \<^item> \<open>Prelude\<close>: 64-bit integers (an \<open>int\<close> whose arithmetic is followed by \<open>wrap64\<close>), division as Go
      divides, times in nanoseconds from the start of the year 1, results \<open>go_error + 'a\<close>, tables as
      lists of rows.  \<open>GoText\<close>: trimming, case, runes, patterns, \<open>%q\<close>.  \<open>Fault\<close>: \<open>internal/fault\<close>.
      \<open>Clock\<close>: windows and the manual clock.
    \<^item> \<open>Interfaces\<close>: the contracts as locales.  \<open>machine\<close> and \<open>lifecycle\<close> (invariant, versions, final
      states) are interpreted for sites, clusters, plans, jobs, alarms and periods; \<open>versioned_store\<close>
      (an update that names the version it read replaces that row and no other, so of two updates
      that read the same version the second fails) for every table with versions.

  \<^bold>\<open>Domain packages\<close>, one theory each: \<open>Site\<close> (\<open>site.go\<close>, \<open>cluster.go\<close>, \<open>query.go\<close>), \<open>Plan\<close>, \<open>Reservation\<close>
  with \<open>AllocatePower\<close>, \<open>Job\<close>, \<open>Telemetry\<close>, \<open>Alarm\<close>, \<open>Settlement\<close>, \<open>Identity\<close>, \<open>Idempotency\<close>, \<open>AuditLog\<close>,
  \<open>Config\<close>.  A struct is a record with a prefix of its own for the fields, a method a definition
  named after it, an error return the left summand.  Each has the exact condition under which an
  operation succeeds and what it returns then (lemmas named \<open>_Inr\<close>), its invariant, and its step
  relation.

  \<^bold>\<open>Database.\<close>  \<open>Store\<close> holds the record of all tables, the constraints of the schema in \<open>migrations/\<close>
  and the errors of the driver; \<open>StoreSites\<close>, \<open>StoreDispatch\<close>, \<open>StoreIdentity\<close>, \<open>StoreOperations\<close> the
  statements and transactions.  A transaction commits or leaves the database as it was (\<open>in_tx\<close>).
  \<open>Timestamp\<close> and \<open>StoredTime\<close> have the texts of stored times, written and read back: SQL compares
  the texts, and so does the model.  \<open>Rows\<close> and \<open>RowsMore\<close> show that the columns of a record are read
  back as the record.  \<open>Migration\<close> models \<open>Open\<close> and \<open>Migrate\<close>.  \<open>StatementLaws\<close> is the
  contract between statements and calls, locales whose laws say that each statement keeps a property of
  the database and whose lemmas, here and in the theories of the services, lift it to transactions,
  calls, requests and runs.  They are interpreted there for the keys, for the rows that are never
  deleted and for the idempotency records, and for constraints and references in \<open>Integrity\<close>.

  \<^bold>\<open>Services, worker, HTTP, start.\<close>  \<open>ServiceAuth\<close>, \<open>ServiceSites\<close>, \<open>ServiceDispatch\<close> and
  \<open>ServiceOperations\<close> have every call.  A call takes the database \<open>rd\<close> its queries saw and the database
  \<open>db\<close> its statements meet, so any other call may write between them.  \<open>Worker\<close> has the cycles, the
  reports of the goroutines in any order, and the loops, whose cycles start when the ticker of the
  configured interval lets them; \<open>Drain\<close> shows that they drain the queue when
  the gateway executes, and \<open>Retry\<close> that every job ends when it answers anything.  \<open>HttpCore\<close>, \<open>HttpContext\<close>
  and \<open>HttpServer\<close> have the middleware, the routes, with the redirection of paths that are not clean, and
  the handlers; \<open>App\<close> the start and the end of the
  process.

  \<^bold>\<open>The running program.\<close>  \<open>System\<close> defines \<open>action\<close>, one call of any kind, and \<open>run\<close>, a history in which
  the queries of every call saw rows of earlier states, each possibly of another one: all
  interleavings of requests, workers and maintenance.
  \<open>SystemCore\<close> gives an abstract specification of the tables of sites, clusters, plans, reservations
  and jobs, with nine steps, and shows that every action is one of them or leaves these tables alone.
  \<open>SystemInv\<close> proves the invariant of all runs from the specification.  \<open>FourEyes\<close> traces the approver of
  a plan back to the call that approved it.  \<open>Process\<close> is the process that \<open>Run\<close> wired, as a machine
  that carries the history of its database: its events are a request that arrives and is authenticated,
  its handler, which answers its queries from any glimpse of that history and so may have been overtaken
  by other events, each identifier of a batch on its own, an event of the audit log that follows its
  call at some distance, a claim, the report of one goroutine and a tick of maintenance.  A list of
  processes starts and stops one after the other; the theory shows that their calls form a run.
  \<open>Scenario\<close> evaluates a run up
  to a dispatched plan; the properties are applied to its states.

  \<^bold>\<open>The properties\<close> are numbered C1 to C40.  This theory holds those of every run and of the power
  allocation; \<open>ServiceProperties\<close> those of single calls (submissions, workers, errors, sessions,
  telemetry, alarms, idempotency keys, pages); \<open>DomainProperties\<close> those of the domain packages;
  \<open>StartProperties\<close> those of migrations, rows, the first operator and the configured worker;
  \<open>ProcessProperties\<close> those of whole processes, restarts and retries.

  \<^bold>\<open>Bounds and fuel.\<close>  Runs have fewer than 9223372036854775807 steps, so that version counters do not wrap; a
  submission names at most 4000000000000 clusters, so that the sum of ratings fits 64 bits; a process
  accepts bodies of at most 16777216 bytes, the largest limit that \<open>Load\<close> accepts.  A process makes one
  call at its start and at most one for each of its events.  Between two attempts at a job pass at most
  \<open>wait_ticks\<close> ticks of the worker.
  \<open>begin_request\<close> recurses on fuel: for methods, paths and keys in their stored form two rounds are
  enough (\<open>begin_returns\<close>), for others no fuel is (\<open>begin_never_returns\<close>).  A walk over the audit pages
  takes at most one page more than there are events.  All other recursions are structural or have
  a measure.

  \<^bold>\<open>Arguments of the model.\<close>  Code outside the repository is an argument of the definitions that use
  it: bcrypt, SHA-256, random bytes and UUIDs, the address parser, \<open>strings.ToLower\<close> on addresses,
  \<open>strings.ToUpper\<close> on texts outside ASCII,
  the time-zone database, \<open>time.ParseDuration\<close>, the general case of \<open>time.Parse\<close>, the JSON decoder, what
  the SQLite driver and the file system answer (\<open>en_driver\<close>, \<open>tx_outcome\<close>, \<open>fails\<close>), the device
  gateway, the clock at each reading, and the order in which Go visits a map in each of its loops.

  \<^bold>\<open>Not modelled.\<close>  Sockets, signals, the log, deadlines and cancellation of contexts inside the
  driver, the JSON encoder, the limits of the connection pool, and the data races that Go would
  forbid.  \<open>WaitUntilStart\<close>, \<open>updatePlan\<close> and \<open>ReservationInput\<close> are not used by the program.  The
  constructors of services only store their arguments, which are arguments of the calls here.
\<close>

section \<open>Properties of every run\<close>

text \<open>
  C1. Capacity is accounted for exactly and never exceeded.  In every state of every run, however
  the calls of requests, workers and maintenance overlap, the reserved power of a site is the sum of
  the requested power of its plans that left the draft status, and lies between zero and the grid
  limit of the site.
\<close>

theorem capacity_accounted:
  assumes "run h" "int (length h) < 9223372036854775807" "db \<in> set h" "s \<in> set (sites db)"
  shows "s_reserved s = booked (plans db) (s_id s) \<and> 0 \<le> s_reserved s \<and> s_reserved s \<le> s_grid_limit s"
  using run_site [OF assms] by (auto simp: site_ok_def)

theorem capacity_accounted_witness:
  "s_reserved (demo_site 400 StatusActive 3) = booked (plans demo9) ''site'' \<and> booked (plans demo9) ''site'' = 400
    \<and> s_reserved (demo_site 400 StatusActive 3) \<le> s_grid_limit (demo_site 400 StatusActive 3)"
  using capacity_accounted [OF demo_history_runs demo_history_length demo_history_last(1), of "demo_site 400 StatusActive 3"]
  by (simp add: booked_def)

text \<open>
  C2. A plan that left the draft status holds its requested power in full: it has reservations, each
  of them for the window of the plan on a cluster of its site and within the rating of the cluster,
  and their powers add up to the requested power of the plan.
\<close>

theorem plans_reserved_in_full:
  assumes "run h" "int (length h) < 9223372036854775807" "db \<in> set h"
    and "p \<in> set (plans db)" "p_status p \<noteq> PlanDraft"
  shows "held_by db (p_id p) \<noteq> [] \<and> sum_list (map r_kw (held_by db (p_id p))) = p_requested_kw p
    \<and> (\<forall>r \<in> set (held_by db (p_id p)). r_window r = p_window p \<and> 0 < r_kw r
        \<and> (\<exists>c \<in> set (clusters db). c_id c = r_cluster_id r \<and> c_site_id c = p_site_id p \<and> r_kw r \<le> c_rated_kw c))"
proof -
  have dist: "distinct (map p_id (plans db))" using run_keys [OF assms(1,3)] by (simp add: keys_ok_def)
  have "r_window r = p_window p \<and> 0 < r_kw r
      \<and> (\<exists>c \<in> set (clusters db). c_id c = r_cluster_id r \<and> c_site_id c = p_site_id p \<and> r_kw r \<le> c_rated_kw c)"
    if r: "r \<in> set (held_by db (p_id p))" for r
  proof -
    from r have rin: "r \<in> set (reservations db)" "r_plan_id r = p_id p" by (auto simp: held_by_def)
    from run_reservation [OF assms(1-3) rin(1)] rin(2) obtain q c where
      h: "holds db r q c" "0 < r_kw r" "r_plan_id r = p_id p" by blast
    then have "q = p" using row_unique [OF dist _ assms(4)] by (simp add: holds_def)
    with h show ?thesis by (auto simp: holds_def)
  qed
  then show ?thesis using run_plan [OF assms(1-4)] assms(5) by blast
qed

theorem plans_reserved_in_full_witness:
  "held_by demo9 ''plan'' = [demo_reservation] \<and> sum_list (map r_kw (held_by demo9 ''plan'')) = 400
    \<and> (\<exists>c \<in> set (clusters demo9). c_id c = ''pack'' \<and> r_kw demo_reservation \<le> c_rated_kw c)"
  using plans_reserved_in_full [OF demo_history_runs demo_history_length demo_history_last(1),
      of "demo_plan PlanDispatched ''bob'' (Some demo_now) 4"]
  by (simp add: held_by_def)

text \<open>
  C4. Clusters are exclusive: in every state of every run at most one reservation names a given
  cluster, so no two plans ever share one, at whatever times, and a cluster that is named by a
  reservation is not available.
\<close>

theorem clusters_exclusive:
  assumes "run h" "int (length h) < 9223372036854775807" "db \<in> set h"
  shows "count_where (\<lambda>r. r_cluster_id r = cid) (reservations db) \<le> 1
    \<and> (\<forall>c \<in> set (clusters db). c_id c \<in> r_cluster_id ` set (reservations db) \<longrightarrow> c_status c \<noteq> ClusterAvailable)"
proof -
  have inv: "reservations_inv db" using run_core_inv [OF assms] by (simp add: core_inv_def)
  have dist: "distinct (map c_id (clusters db))" using run_keys [OF assms(1,3)] by (simp add: keys_ok_def)
  have "c_status c \<noteq> ClusterAvailable" if c: "c \<in> set (clusters db)" "c_id c = r_cluster_id r" "r \<in> set (reservations db)" for c r
  proof -
    from inv c(3) obtain p d where "holds db r p d" by (auto simp: reservations_inv_def)
    moreover from this have "d = c" using row_unique [OF dist _ c(1)] c(2) by (simp add: holds_def)
    ultimately show ?thesis by (simp add: holds_def)
  qed
  then have "\<forall>c \<in> set (clusters db). c_id c \<in> r_cluster_id ` set (reservations db) \<longrightarrow> c_status c \<noteq> ClusterAvailable"
    by blast
  moreover have "count_where (\<lambda>r. r_cluster_id r = cid) (reservations db) \<le> 1"
    using inv by (intro count_where_distinct) (simp add: reservations_inv_def)
  ultimately show ?thesis by (rule conjI [rotated])
qed

theorem clusters_exclusive_witness:
  "count_where (\<lambda>r. r_cluster_id r = ''pack'') (reservations demo9) = 1
    \<and> c_status (demo_cluster ClusterReserved 2) \<noteq> ClusterAvailable"
  using clusters_exclusive [OF demo_history_runs demo_history_length demo_history_last(1), of "''pack''"] by simp

text \<open>
  C3. Four eyes: in every state of every run a plan that is approved or dispatched carries an approval
  time and the approver that an earlier call of \<open>Approve\<close> of the run gave it: its principal, who is
  active and has the permission to approve, and is never the one who created the plan.
\<close>

theorem four_eyes:
  assumes "run h" "int (length h) < 9223372036854775807" "db \<in> set h"
    and "p \<in> set (plans db)" "p_status p \<in> {PlanApproved, PlanDispatched}"
  shows "p_approved_at p \<noteq> None \<and> p_approved_by p \<noteq> p_created_by p \<and> \<not> blank (p_created_by p)
    \<and> (\<exists>later db2 db1 earlier rd en pr v req out. h = later @ db2 # db1 # earlier \<and> glimpse (db1 # earlier) rd
        \<and> approve_plan en rd db1 pr (p_id p) v req = (db2, out)
        \<and> u_active (pr_user pr) \<and> role_allows (u_role (pr_user pr)) PermissionPlanApprove
        \<and> p_approved_by p = nullable_string (u_id (pr_user pr)) \<and> p_approved_at p = Some (en_now en 0)
        \<and> u_id (pr_user pr) \<noteq> p_created_by p)"
proof -
  have ok: "plan_ok p" "\<not> blank (p_created_by p)" using run_plan [OF assms(1-4)] unfolding live_plan_def by blast+
  then have set: "p_approved_at p \<noteq> None" "p_approved_by p \<noteq> p_created_by p" using assms(5) unfolding plan_ok_def by blast+
  have "u \<noteq> p_created_by p" if "p_approved_by p = nullable_string u" for u
    using that set(2) ok(2) by (auto simp: nullable_string_def)
  moreover have "in_force p" using assms(5) by (simp add: in_force_def)
  ultimately show ?thesis using run_approval [OF assms(1-4)] ok(2) set unfolding approval_def by blast
qed

theorem four_eyes_witness:
  "p_approved_by (demo_plan PlanDispatched ''bob'' (Some demo_now) 4) = ''bob'' \<and> (\<exists>later db2 db1 earlier rd en pr v req out.
      demo_history = later @ db2 # db1 # earlier \<and> approve_plan en rd db1 pr ''plan'' v req = (db2, out)
      \<and> role_allows (u_role (pr_user pr)) PermissionPlanApprove \<and> nullable_string (u_id (pr_user pr)) = ''bob'')"
  using four_eyes [OF demo_history_runs demo_history_length demo_history_last(1),
      of "demo_plan PlanDispatched ''bob'' (Some demo_now) 4"]
  by simp metis

text \<open>
  C5. A dispatched plan has exactly one execution job for each of its reservations, and no job is
  ever lost: every later cycle of the workers finds the job under the same plan and cluster.
\<close>

theorem one_job_per_reservation:
  assumes "run h" "int (length h) < 9223372036854775807" "db \<in> set h"
    and "p \<in> set (plans db)" "p_status p = PlanDispatched" "r \<in> set (held_by db (p_id p))"
  shows "count_where (\<lambda>j. job_pair j = (p_id p, r_cluster_id r)) (jobs db) = 1"
proof -
  have "(p_id p, r_cluster_id r) \<in> job_pair ` set (jobs db)"
    using run_plan [OF assms(1-4)] assms(5,6) by blast
  moreover have "distinct (map job_pair (jobs db))"
    using run_keys [OF assms(1,3)] by (simp add: keys_ok_def job_pair_def [abs_def])
  ultimately have "count_where (\<lambda>j. job_pair j = (p_id p, r_cluster_id r)) (jobs db) \<le> 1"
    and "\<not> count_where (\<lambda>j. job_pair j = (p_id p, r_cluster_id r)) (jobs db) = 0"
    using count_where_distinct [of job_pair "jobs db"] by (auto simp: image_iff)
  then show ?thesis by linarith
qed

theorem one_job_per_reservation_witness:
  "count_where (\<lambda>j. job_pair j = (''plan'', ''pack'')) (jobs demo9) = 1"
  using one_job_per_reservation [OF demo_history_runs demo_history_length demo_history_last(1),
      of "demo_plan PlanDispatched ''bob'' (Some demo_now) 4" demo_reservation]
  by (simp add: held_by_def)

text \<open>
  C17. Plans only move forward.  Between an earlier and a later state of a run a plan keeps its site,
  creator, power and window, its status never falls back in the order draft, submitted, approved,
  dispatched, and once it left the draft status its reservations are untouched.
\<close>

theorem plans_move_forward:
  assumes "run h" "int (length h) < 9223372036854775807" "i \<le> j" "j < length h" "p \<in> set (plans (h ! j))"
  shows "\<exists>q \<in> set (plans (h ! i)). p_id q = p_id p \<and> p_site_id q = p_site_id p \<and> p_created_by q = p_created_by p
    \<and> p_requested_kw q = p_requested_kw p \<and> p_window q = p_window p
    \<and> plan_rank (p_status p) \<le> plan_rank (p_status q)
    \<and> (p_status p \<noteq> PlanDraft \<longrightarrow> held_by (h ! i) (p_id p) = held_by (h ! j) (p_id p))"
proof -
  have "sorted_wrt (\<lambda>new old. grows old new) h" using run_invariant [OF assms(1,2)] by blast
  then have "grows (h ! j) (h ! i)"
    using assms(3,4) by (cases "i = j") (auto simp: sorted_wrt_iff_nth_less)
  from grows_plan [OF this assms(5)] show ?thesis by (auto simp: plan_grows_def)
qed

theorem plans_move_forward_witness:
  "\<exists>q \<in> set (plans demo9). p_id q = ''plan'' \<and> p_created_by q = ''ann''
    \<and> plan_rank PlanSubmitted \<le> plan_rank (p_status q) \<and> held_by demo9 ''plan'' = held_by demo7 ''plan''"
  using plans_move_forward [OF demo_history_runs demo_history_length, of 0 2 "demo_plan PlanSubmitted '''' None 2"]
  by (simp add: demo_history_def)

text \<open>
  C6. Every call is a step of the specification: whatever other calls wrote between its queries and
  its statements, a call of the program changes sites, plans, clusters, reservations and jobs in one
  of nine ways, or not at all.
\<close>

theorem calls_refine_specification:
  assumes "action rd db db'" "keys_ok db" "seen_ok rd"
  shows "core_step rd db db'"
  using assms by (rule action_refines)

theorem calls_refine_specification_witness:
  "core_step demo8 demo8 demo9 \<and> core demo9 \<noteq> core demo8"
proof -
  have "action demo8 demo8 demo9"
    unfolding demo_run9 [symmetric] by (rule a_dispatch_plan [OF surjective_pairing])
  moreover have "keys_ok demo8" "core_inv demo8"
    using run_keys [OF demo_history_runs demo_history_last(2)]
      run_core_inv [OF demo_history_runs demo_history_length demo_history_last(2)] by auto
  moreover have "core demo9 \<noteq> core demo8" by (simp add: core_def)
  ultimately show ?thesis using calls_refine_specification [of demo8 demo8 demo9] core_inv_seen by blast
qed

text \<open>
  C33. No call completes a plan, so no settlement period is ever closed: whatever principal, period
  and price, \<open>CalculateAndClose\<close> on any glimpse of any run ends with an error.
\<close>

theorem settlement_never_closes:
  assumes "run h" "int (length h) < 9223372036854775807" "glimpse h rd" "keys_ok rd"
  shows "calculate_and_close en rd db p pid v price req \<noteq> (db', Inr out)"
proof
  assume close: "calculate_and_close en rd db p pid v price req = (db', Inr out)"
  obtain closed sm where "out = (closed, sm)" by force
  from calculate_and_close_Inr [OF assms(4) close [unfolded this]]
  obtain period qs where "set qs = set (filter (completed_in period) (plans rd))" "qs \<noteq> []" by blast
  then obtain q where "q \<in> set (plans rd)" "completed_in period q" by (cases qs) auto
  then have "q \<in> set (plans rd)" "p_status q = PlanCompleted" by (simp_all add: completed_in_def)
  moreover from this obtain d where "d \<in> set h" "q \<in> set (plans d)"
    using assms(3) unfolding glimpse_def seen_rows_def by blast
  then have "live_plan q" using run_plan [OF assms(1,2)] by blast
  ultimately show False by (simp add: live_plan_def)
qed

theorem settlement_never_closes_witness:
  "\<forall>out. snd (calculate_and_close (demo_env ''t'') demo9 demo9 (demo_signed_in demo_bob) ''period'' 1 50 '''') \<noteq> Inr out"
  using settlement_never_closes [OF demo_history_runs demo_history_length glimpse_state [OF demo_history_last(1)]
      run_keys [OF demo_history_runs demo_history_last(1)]]
  by (metis surjective_pairing)

section \<open>Power allocation\<close>

text \<open>
  C8. \<open>AllocatePower\<close>, for the ratings and requests the program admits and whatever the order in
  which Go visits the map in each of its loops, splits a request within the total rating exactly:
  every selected cluster has a share between zero and its rating and the shares add up to the
  request; in particular the division by the remaining rating never panics and the error
  \<open>power_allocation_failed\<close> is never returned.
\<close>

theorem allocation_exact:
  assumes "ratings_ok order1" "mset order2 = mset order1"
    and "0 < kw" "kw \<le> 10000000" "kw \<le> sum_list (map snd order1)"
  shows "\<exists>result. allocate_power kw order1 order2 order3 = Inr result
    \<and> dom result = fst ` set order1
    \<and> (\<forall>(c, r) \<in> set order1. 0 \<le> share_of result c \<and> share_of result c \<le> r)
    \<and> sum_list (map (share_of result \<circ> fst) order1) = kw"
  using assms by (rule allocate_power_exact)

theorem allocation_exact_witness:
  "\<exists>result. allocate_power 700 [(''a'', 600), (''b'', 400)] [(''b'', 400), (''a'', 600)] [] = Inr result
    \<and> dom result = {''a'', ''b''} \<and> share_of result ''a'' + share_of result ''b'' = 700"
  using allocation_exact [of "[(''a'', 600), (''b'', 400)]" "[(''b'', 400), (''a'', 600)]" 700 "[]"]
  by (auto simp: ratings_ok_def in_i64_def visible_def)

text \<open>
  C40. When the exact proportional share of every cluster is at least one kilowatt, no cluster gets
  less than its proportional share of the request, rounded down, in any visiting order.
\<close>

theorem allocation_proportional:
  assumes "ratings_ok order1" "mset order2 = mset order1"
    and "0 < kw" "kw \<le> 10000000" "kw \<le> sum_list (map snd order1)"
    and "\<forall>(c, r) \<in> set order1. sum_list (map snd order1) \<le> kw * r"
    and "allocate_power kw order1 order2 order3 = Inr result" "(c, r) \<in> set order1"
  shows "0 < share_of result c \<and> kw * r div sum_list (map snd order1) \<le> share_of result c"
  using allocate_power_proportional [OF assms(1-7)] assms(8) by blast

theorem allocation_proportional_witness:
  "\<exists>result. allocate_power 700 [(''a'', 600), (''b'', 400)] [(''b'', 400), (''a'', 600)] [] = Inr result
    \<and> 420 \<le> share_of result ''a'' \<and> 280 \<le> share_of result ''b''"
proof -
  let ?o = "[(''a'', 600), (''b'', 400)]" and ?p = "[(''b'', 400), (''a'', 600)]"
  have run: "allocate_power 700 ?o ?p [] = Inr [''b'' \<mapsto> 280, ''a'' \<mapsto> 420]"
    by (simp add: allocate_power_def wrap64_def go_div_def Let_def visible_def cong: let_weak_cong)
  have ok: "ratings_ok ?o" "mset ?p = mset ?o" by (auto simp: ratings_ok_def in_i64_def visible_def)
  from allocation_proportional [OF ok _ _ _ _ run, of "''a''" 600]
    allocation_proportional [OF ok _ _ _ _ run, of "''b''" 400] run
  show ?thesis by auto
qed

end
